(* ===== verification/Prelude.thy ===== *)
theory Prelude
  imports Main "HOL-Library.Word"
begin

unbundle bit_operations_syntax

text \<open>
  Shared vocabulary of the development: the fixed-width integer types of
  \<^verbatim>\<open>src/src/include/config.h\<close>, the error numbers the driver returns, the
  collections of rewrite rules the component proofs use, and the generic facts on
  lists, options and words that more than one component needs.
\<close>

section \<open>Machine integers and addresses\<close>

type_synonym u8 = "8 word"
type_synonym u16 = "16 word"
type_synonym u32 = "32 word"
type_synonym u64 = "64 word"

text \<open>
  A non-null pointer is a natural number; a pointer that may be NULL is an
  \<^typ>\<open>nat option\<close>.
\<close>

type_synonym addr = nat
type_synonym ptr = "nat option"

text \<open>
  Integer flags of the C code (\<^verbatim>\<open>x & FLAG\<close> used as a condition).
\<close>

abbreviation has_flag :: "'a::len word \<Rightarrow> 'a word \<Rightarrow> bool" where
  "has_flag w f \<equiv> w AND f \<noteq> 0"

section \<open>Error numbers\<close>

text \<open>
  The symbolic error numbers the modelled code returns. Their numeric values come from
  the QNX headers and play no role; the sign convention (\<^verbatim>\<open>EINVAL\<close> in the QNX
  side of the program, \<^verbatim>\<open>-EINVAL\<close> in the Linux side) is dropped, the code
  converts between the two with a negation only.
\<close>

datatype errno =
    EFAULT | EPIPE | EDOM | ENOMEM | EINVAL | EBUSY | EOPNOTSUPP | EIO | ENOSYS
  | EAGAIN | ENOTSUP | ENODEV | EBADF | EUNSPEC

datatype rc = EOK | Err errno

text \<open>
  What an interrupt handler reports to the code that called it.
\<close>

datatype irqreturn = IRQ_NONE | IRQ_HANDLED | IRQ_WAKE_THREAD

section \<open>Collections of rewrite rules\<close>

named_theorems queue_defs \<open>the operations of the message queue\<close>
named_theorems pool_defs \<open>the operations of the fixed block pool\<close>
named_theorems reg_defs \<open>register numbers and register bits\<close>
named_theorems flag_defs \<open>flag constants of frames, modes and devices\<close>
named_theorems frame_rules \<open>fields an operation leaves unchanged\<close>

section \<open>Lists\<close>

lemma take_Suc_nth:
  assumes "n < length xs"
  shows "take (Suc n) xs = take n xs @ [xs ! n]"
  using assms by (rule take_Suc_conv_app_nth)

lemma drop_nth_Cons:
  assumes "n < length xs"
  shows "drop n xs = xs ! n # drop (Suc n) xs"
  using assms by (simp add: Cons_nth_drop_Suc)

lemma distinct_drop_nth:
  assumes "distinct (drop n xs)" and "n < length xs"
  shows "xs ! n \<notin> set (drop (Suc n) xs)"
  using assms by (simp add: drop_nth_Cons)

lemma drop_list_update_pred:
  assumes "0 < n" and "n \<le> length xs"
  shows "drop (n - 1) (xs[n - 1 := x]) = x # drop n xs"
proof -
  have "n - 1 < length (xs[n - 1 := x])"
    using assms by simp
  from drop_nth_Cons [OF this] show ?thesis
    using assms by simp
qed

section \<open>Options\<close>

lemma option_eq_None_or_Some: "x = None \<or> (\<exists>y. x = Some y)"
  by (cases x) auto

section \<open>Words\<close>

lemma unat_less_32: "unat (x :: u32) < 4294967296"
  by (rule order_less_le_trans [OF unsigned_less]) simp

lemma sint_neg_iff: "sint (x :: u32) < 0 \<longleftrightarrow> 2 ^ 31 \<le> unat x"
proof -
  have "sint x < 0 \<longleftrightarrow> bit x 31"
    using bit_last_iff [of x] by simp
  also have "\<dots> \<longleftrightarrow> bit (unat x) 31"
    by (simp add: bit_unsigned_iff)
  also have "\<dots> \<longleftrightarrow> odd (unat x div 2 ^ 31)"
    by (rule bit_iff_odd)
  also have "\<dots> \<longleftrightarrow> 2 ^ 31 \<le> unat x"
  proof -
    have "unat x < 2 ^ 32" using unat_less_32 [of x] by simp
    then have "unat x div 2 ^ 31 < 2" by (simp add: less_mult_imp_div_less)
    then have "odd (unat x div 2 ^ 31) \<longleftrightarrow> unat x div 2 ^ 31 \<noteq> 0"
      by (metis One_nat_def dvd_0_right less_2_cases odd_one)
    then show ?thesis by (simp add: div_eq_0_iff not_less)
  qed
  finally show ?thesis .
qed

lemma unat_ucast_up: "unat (ucast (x :: u32) :: u64) = unat x"
  using unat_less_32 [of x] by (simp add: unsigned_ucast_eq take_bit_nat_eq_self)

lemma ucast_up_0_iff: "(ucast (x :: u32) :: u64) = 0 \<longleftrightarrow> x = 0"
  by (metis unat_ucast_up unat_eq_zero)

lemma unat_mult_small:
  assumes "unat a \<le> m" and "unat b \<le> n" and "m * n < 2 ^ LENGTH('a)"
  shows "unat (a * b :: 'a::len word) = unat a * unat b"
proof -
  have "unat a * unat b \<le> m * n" using assms by (simp add: mult_mono)
  then show ?thesis using assms(3) unat_mult_lem by (metis le_less_trans)
qed

lemma word_pred_less_iff: "t \<noteq> 0 \<Longrightarrow> t - 1 < s \<longleftrightarrow> t \<le> (s :: 'a::len word)"
  using unat_gt_0 [of t] by (auto simp: word_less_nat_alt word_le_nat_alt unat_minus_one)

lemma word_one_le_iff: "1 \<le> x \<longleftrightarrow> x \<noteq> (0 :: u32)"
  using unat_gt_0 [of x] by (auto simp: word_le_nat_alt Suc_le_eq)

lemma flag_bit:
  assumes "f = push_bit i (1 :: 'a::len word)"
  shows "has_flag w f \<longleftrightarrow> bit w i"
  using assms by (simp add: bit_iff_and_push_bit_not_eq_0)

end
