(* ===== verification/Can_Frame.thy ===== *)
theory Can_Frame
  imports Prelude
begin

unbundle bit_operations_syntax

text \<open>
  Frames and socket buffers: the flags of \<^verbatim>\<open>uapi/linux/can.h\<close> and
  \<^verbatim>\<open>uapi/linux/can/error.h\<close>, \<^verbatim>\<open>struct can_frame\<close>, the length helpers of
  \<^verbatim>\<open>linux/can/length.h\<close>, \<^verbatim>\<open>struct sk_buff\<close> and the predicates of
  \<^verbatim>\<open>linux/can/skb.h\<close>.
\<close>

section \<open>Constants\<close>

definition CAN_EFF_FLAG :: u32 where "CAN_EFF_FLAG = 0x80000000"
definition CAN_RTR_FLAG :: u32 where "CAN_RTR_FLAG = 0x40000000"
definition CAN_ERR_FLAG :: u32 where "CAN_ERR_FLAG = 0x20000000"
definition CAN_SFF_MASK :: u32 where "CAN_SFF_MASK = 0x7FF"
definition CAN_EFF_MASK :: u32 where "CAN_EFF_MASK = 0x1FFFFFFF"
definition CAN_ERR_MASK :: u32 where "CAN_ERR_MASK = 0x1FFFFFFF"

definition CAN_MAX_DLEN :: u8 where "CAN_MAX_DLEN = 8"
definition CAN_MAX_RAW_DLC :: u8 where "CAN_MAX_RAW_DLC = 15"
definition CAN_MTU :: nat where "CAN_MTU = 16"
definition CANFD_MTU :: nat where "CANFD_MTU = 72"

definition CAN_ERR_DLC :: u8 where "CAN_ERR_DLC = 8"
definition CAN_ERR_LOSTARB :: u32 where "CAN_ERR_LOSTARB = 0x2"
definition CAN_ERR_CRTL :: u32 where "CAN_ERR_CRTL = 0x4"
definition CAN_ERR_PROT :: u32 where "CAN_ERR_PROT = 0x8"
definition CAN_ERR_BUSOFF :: u32 where "CAN_ERR_BUSOFF = 0x40"
definition CAN_ERR_BUSERROR :: u32 where "CAN_ERR_BUSERROR = 0x80"
definition CAN_ERR_RESTARTED :: u32 where "CAN_ERR_RESTARTED = 0x100"
definition CAN_ERR_CNT :: u32 where "CAN_ERR_CNT = 0x200"

definition CAN_ERR_CRTL_RX_OVERFLOW :: u8 where "CAN_ERR_CRTL_RX_OVERFLOW = 0x01"
definition CAN_ERR_CRTL_RX_WARNING :: u8 where "CAN_ERR_CRTL_RX_WARNING = 0x04"
definition CAN_ERR_CRTL_TX_WARNING :: u8 where "CAN_ERR_CRTL_TX_WARNING = 0x08"
definition CAN_ERR_CRTL_RX_PASSIVE :: u8 where "CAN_ERR_CRTL_RX_PASSIVE = 0x10"
definition CAN_ERR_CRTL_TX_PASSIVE :: u8 where "CAN_ERR_CRTL_TX_PASSIVE = 0x20"
definition CAN_ERR_CRTL_ACTIVE :: u8 where "CAN_ERR_CRTL_ACTIVE = 0x40"

definition CAN_ERR_PROT_BIT :: u8 where "CAN_ERR_PROT_BIT = 0x01"
definition CAN_ERR_PROT_FORM :: u8 where "CAN_ERR_PROT_FORM = 0x02"
definition CAN_ERR_PROT_STUFF :: u8 where "CAN_ERR_PROT_STUFF = 0x04"
definition CAN_ERR_PROT_TX :: u8 where "CAN_ERR_PROT_TX = 0x80"

definition CAN_CTRLMODE_LOOPBACK :: u32 where "CAN_CTRLMODE_LOOPBACK = 0x01"
definition CAN_CTRLMODE_LISTENONLY :: u32 where "CAN_CTRLMODE_LISTENONLY = 0x02"
definition CAN_CTRLMODE_3_SAMPLES :: u32 where "CAN_CTRLMODE_3_SAMPLES = 0x04"
definition CAN_CTRLMODE_ONE_SHOT :: u32 where "CAN_CTRLMODE_ONE_SHOT = 0x08"
definition CAN_CTRLMODE_BERR_REPORTING :: u32 where "CAN_CTRLMODE_BERR_REPORTING = 0x10"
definition CAN_CTRLMODE_FD :: u32 where "CAN_CTRLMODE_FD = 0x20"
definition CAN_CTRLMODE_PRESUME_ACK :: u32 where "CAN_CTRLMODE_PRESUME_ACK = 0x40"
definition CAN_CTRLMODE_FD_NON_ISO :: u32 where "CAN_CTRLMODE_FD_NON_ISO = 0x80"
definition CAN_CTRLMODE_CC_LEN8_DLC :: u32 where "CAN_CTRLMODE_CC_LEN8_DLC = 0x100"

lemmas [flag_defs] =
  CAN_EFF_FLAG_def CAN_RTR_FLAG_def CAN_ERR_FLAG_def CAN_SFF_MASK_def CAN_EFF_MASK_def
  CAN_ERR_MASK_def CAN_MAX_DLEN_def CAN_MAX_RAW_DLC_def CAN_MTU_def CANFD_MTU_def
  CAN_ERR_DLC_def CAN_ERR_LOSTARB_def CAN_ERR_CRTL_def CAN_ERR_PROT_def CAN_ERR_BUSOFF_def
  CAN_ERR_BUSERROR_def CAN_ERR_RESTARTED_def CAN_ERR_CNT_def
  CAN_CTRLMODE_LOOPBACK_def CAN_CTRLMODE_LISTENONLY_def CAN_CTRLMODE_3_SAMPLES_def
  CAN_CTRLMODE_ONE_SHOT_def CAN_CTRLMODE_BERR_REPORTING_def CAN_CTRLMODE_FD_def
  CAN_CTRLMODE_PRESUME_ACK_def CAN_CTRLMODE_FD_NON_ISO_def CAN_CTRLMODE_CC_LEN8_DLC_def

section \<open>Frames\<close>

text \<open>
  \<^verbatim>\<open>struct can_frame\<close> without its padding; the payload is the eight-byte array
  \<^verbatim>\<open>data\<close>.
\<close>

record can_frame =
  can_id :: u32
  cf_len :: u8
  cf_len8_dlc :: u8
  cf_data :: "u8 list"

definition zero_frame :: can_frame where
  "zero_frame = \<lparr>can_id = 0, cf_len = 0, cf_len8_dlc = 0, cf_data = replicate 8 0\<rparr>"

definition can_cc_dlc2len :: "u8 \<Rightarrow> u8" where
  "can_cc_dlc2len dlc = min dlc CAN_MAX_DLEN"

definition can_get_cc_dlc :: "can_frame \<Rightarrow> u32 \<Rightarrow> u8" where
  "can_get_cc_dlc cf ctrlmode =
     (if has_flag ctrlmode CAN_CTRLMODE_CC_LEN8_DLC \<and> cf_len cf = CAN_MAX_DLEN \<and>
         CAN_MAX_DLEN < cf_len8_dlc cf \<and> cf_len8_dlc cf \<le> CAN_MAX_RAW_DLC
      then cf_len8_dlc cf else cf_len cf)"

definition can_frame_set_cc_len :: "can_frame \<Rightarrow> u8 \<Rightarrow> u32 \<Rightarrow> can_frame" where
  "can_frame_set_cc_len cf dlc ctrlmode =
     (let cf1 = (if has_flag ctrlmode CAN_CTRLMODE_CC_LEN8_DLC \<and> CAN_MAX_DLEN < dlc
                 then cf\<lparr>cf_len8_dlc := dlc\<rparr> else cf)
      in cf1\<lparr>cf_len := can_cc_dlc2len dlc\<rparr>)"

section \<open>Socket buffers\<close>

text \<open>
  \<^verbatim>\<open>struct sk_buff\<close> by value: the address of its own block, the address of the block
  \<^verbatim>\<open>head\<close> points to (a \<^verbatim>\<open>struct can_skb_priv\<close> with the frame), the length and the echo
  mark. \<^verbatim>\<open>data\<close> always points to the frame inside the second block.
\<close>

record sk_buff =
  skb_addr :: addr
  skb_head :: addr
  skb_len :: nat
  is_echo :: bool
  skb_frame_len :: nat
  frame :: can_frame

definition can_is_can_skb :: "sk_buff \<Rightarrow> bool" where
  "can_is_can_skb skb \<longleftrightarrow> skb_len skb = CAN_MTU \<and> cf_len (frame skb) \<le> CAN_MAX_DLEN"

text \<open>
  \<^verbatim>\<open>can_skb_get_data_len\<close>. The CAN XL test reads the frame's length byte as the XL flags
  and needs bit 7 there; a buffer in the echo slot has passed \<^verbatim>\<open>can_is_can_skb\<close>, so its
  length is at most 8 and the length value is that byte.
\<close>

definition can_skb_get_data_len :: "sk_buff \<Rightarrow> nat" where
  "can_skb_get_data_len skb =
     (if can_is_can_skb skb \<and> has_flag (can_id (frame skb)) CAN_RTR_FLAG then 0
      else unat (cf_len (frame skb)))"

definition can_create_echo_skb :: "sk_buff \<Rightarrow> sk_buff" where
  "can_create_echo_skb skb = skb\<lparr>is_echo := True\<rparr>"

section \<open>Bits on the wire\<close>

text \<open>\<^verbatim>\<open>can_frame_bits\<close> and \<^verbatim>\<open>can_frame_bytes\<close> of \<^verbatim>\<open>linux/can/length.h\<close>.\<close>

definition can_bitstuffing_len :: "nat \<Rightarrow> nat" where
  "can_bitstuffing_len n = n + (n - 1) div 4"

definition bitstuffed :: "bool \<Rightarrow> nat \<Rightarrow> nat" where
  "bitstuffed bitstuffing n = (if bitstuffing then can_bitstuffing_len n else n)"

definition can_cc_frame_bits :: "bool \<Rightarrow> bool \<Rightarrow> bool \<Rightarrow> nat \<Rightarrow> nat" where
  "can_cc_frame_bits is_eff bitstuffing intermission data_len =
     bitstuffed bitstuffing ((if is_eff then 39 else 19) + data_len * 8 + 16) + 9 +
     (if intermission then 3 else 0)"

definition can_fd_frame_bits :: "bool \<Rightarrow> bool \<Rightarrow> bool \<Rightarrow> nat \<Rightarrow> nat" where
  "can_fd_frame_bits is_eff bitstuffing intermission data_len =
     bitstuffed bitstuffing ((if is_eff then 41 else 22) + data_len * 8) +
     (if data_len \<le> 16 then 28 else 33) + 9 + (if intermission then 3 else 0)"

definition can_frame_bits :: "bool \<Rightarrow> bool \<Rightarrow> bool \<Rightarrow> bool \<Rightarrow> nat \<Rightarrow> nat" where
  "can_frame_bits is_fd is_eff bitstuffing intermission data_len =
     (if is_fd then can_fd_frame_bits is_eff bitstuffing intermission data_len
      else can_cc_frame_bits is_eff bitstuffing intermission data_len)"

definition can_frame_bytes :: "bool \<Rightarrow> bool \<Rightarrow> bool \<Rightarrow> nat \<Rightarrow> nat" where
  "can_frame_bytes is_fd is_eff bitstuffing data_len =
     (can_frame_bits is_fd is_eff bitstuffing True data_len + 7) div 8"

end
