(* ===== verification/Fixed_Pool.thy ===== *)
theory Fixed_Pool
  imports Prelude
begin

text \<open>
  The fixed-size block allocator of \<^verbatim>\<open>src/src/fixed.c\<close> and
  \<^verbatim>\<open>src/src/include/fixed.h\<close>: an array of 256 block pointers used as a stack,
  with \<^verbatim>\<open>FixedArrayIndex\<close> the number of blocks handed out. Every socket buffer
  of the driver is made of two such blocks. The mutex around each operation makes it
  atomic; the retry loops on a failing \<^verbatim>\<open>pthread_mutex_lock\<close> end with the lock
  held and change nothing else, so they do not appear.
\<close>

section \<open>State and operations\<close>

definition FIXED_MAX_NUM_BLOCKS :: nat where
  "FIXED_MAX_NUM_BLOCKS = 256"

definition FIXED_MAX_BLOCK_SIZE :: nat where
  "FIXED_MAX_BLOCK_SIZE = 40"

record fixed_pool =
  FixedArray :: "ptr list"
  FixedArrayIndex :: nat

text \<open>
  \<^verbatim>\<open>fixed_memory_init\<close> fills the array with \<^verbatim>\<open>malloc\<close> results; \<open>malloc i\<close>
  is the result of the \<open>i\<close>-th call. At the first NULL the blocks obtained so far are
  freed and -1 is returned. The loop runs over the slots still to fill; it yields the
  result code, the array and the blocks passed to \<^verbatim>\<open>free\<close>.
\<close>

fun fixed_init_loop ::
  "(nat \<Rightarrow> ptr) \<Rightarrow> nat \<Rightarrow> nat \<Rightarrow> ptr list \<Rightarrow> int \<times> ptr list \<times> ptr list" where
  "fixed_init_loop malloc i 0 arr = (0, arr, [])"
| "fixed_init_loop malloc i (Suc n) arr =
     (case malloc i of
        None \<Rightarrow> (- 1, arr[i := None], take i arr)
      | Some a \<Rightarrow> fixed_init_loop malloc (Suc i) n (arr[i := Some a]))"

definition fixed_memory_init :: "(nat \<Rightarrow> ptr) \<Rightarrow> int \<times> fixed_pool \<times> ptr list" where
  "fixed_memory_init malloc =
     (let (result, arr, freed) =
        fixed_init_loop malloc 0 FIXED_MAX_NUM_BLOCKS (replicate FIXED_MAX_NUM_BLOCKS None)
      in (result, \<lparr>FixedArray = arr, FixedArrayIndex = 0\<rparr>, freed))"

text \<open>
  \<^verbatim>\<open>fixed_malloc\<close> pops the next block; NULL when all 256 are handed out (or when
  the popped slot itself holds NULL).
\<close>

definition fixed_malloc :: "fixed_pool \<Rightarrow> ptr \<times> fixed_pool" where
  "fixed_malloc p =
     (if FixedArrayIndex p < FIXED_MAX_NUM_BLOCKS
      then (FixedArray p ! FixedArrayIndex p,
            p\<lparr>FixedArrayIndex := FixedArrayIndex p + 1\<rparr>)
      else (None, p))"

text \<open>
  \<^verbatim>\<open>fixed_free\<close> pushes a block: \<^verbatim>\<open>FixedArray[--FixedArrayIndex] = ptr\<close>. With
  nothing handed out the index becomes -1 and the store is outside the array; the model
  answers \<open>None\<close>.
\<close>

definition fixed_free :: "addr \<Rightarrow> fixed_pool \<Rightarrow> fixed_pool option" where
  "fixed_free a p =
     (if FixedArrayIndex p = 0 then None
      else Some (p\<lparr>FixedArray := (FixedArray p)[FixedArrayIndex p - 1 := Some a],
                   FixedArrayIndex := FixedArrayIndex p - 1\<rparr>))"

lemmas pool_ops = fixed_malloc_def fixed_free_def FIXED_MAX_NUM_BLOCKS_def

section \<open>Invariant\<close>

text \<open>
  \<open>pool_inv blocks used p\<close>: of the 256 blocks \<open>blocks\<close> exactly those in \<open>used\<close> are
  handed out, and the slots from \<^verbatim>\<open>FixedArrayIndex\<close> on hold each of the others
  once.
\<close>

definition free_slots :: "fixed_pool \<Rightarrow> ptr list" where
  "free_slots p = drop (FixedArrayIndex p) (FixedArray p)"

definition pool_inv :: "addr set \<Rightarrow> addr set \<Rightarrow> fixed_pool \<Rightarrow> bool" where
  "pool_inv blocks used p \<longleftrightarrow>
     length (FixedArray p) = FIXED_MAX_NUM_BLOCKS \<and>
     finite blocks \<and> card blocks = FIXED_MAX_NUM_BLOCKS \<and>
     used \<subseteq> blocks \<and> FixedArrayIndex p = card used \<and>
     distinct (free_slots p) \<and> set (free_slots p) = Some ` (blocks - used)"

lemma pool_inv_index_le: "pool_inv blocks used p \<Longrightarrow> FixedArrayIndex p \<le> FIXED_MAX_NUM_BLOCKS"
  by (metis card_mono pool_inv_def)

lemma fixed_malloc_Some_iff:
  assumes "pool_inv blocks used p"
  shows "fst (fixed_malloc p) \<noteq> None \<longleftrightarrow> used \<noteq> blocks"
proof (cases "FixedArrayIndex p < FIXED_MAX_NUM_BLOCKS")
  case True
  then have lt: "FixedArrayIndex p < length (FixedArray p)"
    using assms by (simp add: pool_inv_def)
  have "FixedArray p ! FixedArrayIndex p \<in> set (free_slots p)"
    unfolding free_slots_def drop_nth_Cons [OF lt] by simp
  then have "FixedArray p ! FixedArrayIndex p \<in> Some ` (blocks - used)"
    using assms by (simp add: pool_inv_def)
  then show ?thesis
    using True by (auto simp: fixed_malloc_def)
next
  case False
  then have "card used = card blocks"
    using assms pool_inv_index_le [OF assms] by (simp add: pool_inv_def)
  then have "used = blocks"
    using assms card_subset_eq [of blocks used] by (simp add: pool_inv_def)
  then show ?thesis
    using False by (simp add: fixed_malloc_def)
qed

lemma pool_inv_malloc:
  assumes inv: "pool_inv blocks used p" and m: "fixed_malloc p = (Some a, p')"
  shows "a \<in> blocks - used \<and> pool_inv blocks (insert a used) p'"
proof -
  have lt: "FixedArrayIndex p < length (FixedArray p)"
    and a: "FixedArray p ! FixedArrayIndex p = Some a"
    and p': "p' = p\<lparr>FixedArrayIndex := FixedArrayIndex p + 1\<rparr>"
    using m inv by (auto simp: fixed_malloc_def pool_inv_def split: if_splits)
  have split: "free_slots p = Some a # free_slots p'"
    using drop_nth_Cons [OF lt] by (simp add: free_slots_def p' a)
  have inv': "distinct (free_slots p)" "set (free_slots p) = Some ` (blocks - used)"
    using inv by (auto simp: pool_inv_def)
  have mem: "a \<in> blocks - used"
  proof -
    have "Some a \<in> set (free_slots p)" by (simp add: split)
    then show ?thesis using inv' by auto
  qed
  have rest: "set (free_slots p') = Some ` (blocks - insert a used)"
  proof -
    have "set (free_slots p') = set (free_slots p) - {Some a}"
      using inv'(1) split by auto
    then show ?thesis using inv'(2) by auto
  qed
  have "finite used"
    using inv by (auto simp: pool_inv_def intro: finite_subset)
  then show ?thesis
    using inv mem rest inv'(1) split by (auto simp: pool_inv_def p')
qed

lemma pool_inv_malloc_None:
  assumes inv: "pool_inv blocks used p" and m: "fixed_malloc p = (None, p')"
  shows "used = blocks \<and> p' = p"
proof -
  have "used = blocks"
    using fixed_malloc_Some_iff [OF inv] m by simp
  then have "\<not> FixedArrayIndex p < FIXED_MAX_NUM_BLOCKS"
    using inv by (simp add: pool_inv_def)
  then show ?thesis
    using m \<open>used = blocks\<close> by (simp add: fixed_malloc_def)
qed

lemma pool_inv_free:
  assumes inv: "pool_inv blocks used p" and a: "a \<in> used"
  obtains p' where "fixed_free a p = Some p'" and "pool_inv blocks (used - {a}) p'"
proof -
  have fin: "finite used"
    using inv by (auto simp: pool_inv_def intro: finite_subset)
  then have pos: "0 < FixedArrayIndex p"
    using inv a by (auto simp: pool_inv_def card_gt_0_iff)
  define p' where "p' = p\<lparr>FixedArray := (FixedArray p)[FixedArrayIndex p - 1 := Some a],
                   FixedArrayIndex := FixedArrayIndex p - 1\<rparr>"
  have le: "FixedArrayIndex p \<le> length (FixedArray p)"
    using pool_inv_index_le [OF inv] inv by (simp add: pool_inv_def)
  have slots: "free_slots p' = Some a # free_slots p"
    using drop_list_update_pred [OF pos le] by (simp add: free_slots_def p'_def)
  have "set (free_slots p') = Some ` (blocks - (used - {a}))"
    using inv a slots by (auto simp: pool_inv_def)
  moreover have "distinct (free_slots p')"
    using inv a slots by (auto simp: pool_inv_def)
  moreover have "FixedArrayIndex p' = card (used - {a})"
    using inv a fin by (simp add: pool_inv_def p'_def)
  ultimately have "pool_inv blocks (used - {a}) p'"
    using inv by (auto simp: pool_inv_def p'_def)
  moreover have "fixed_free a p = Some p'"
    using pos by (simp add: fixed_free_def p'_def)
  ultimately show ?thesis by (rule that [rotated])
qed

section \<open>Initialisation\<close>

lemma fixed_init_loop_ok:
  assumes "\<forall>k < n. malloc (i + k) \<noteq> None" and "length arr = i + n"
  shows "fixed_init_loop malloc i n arr = (0, take i arr @ map malloc [i..<i + n], [])"
  using assms
proof (induction n arbitrary: i arr)
  case 0
  then show ?case by simp
next
  case (Suc n)
  obtain a where a: "malloc i = Some a"
    using Suc.prems(1) [rule_format, of 0] by auto
  have "\<forall>k < n. malloc (Suc i + k) \<noteq> None"
    using Suc.prems(1) by (auto dest: spec [of _ "Suc _"])
  then have "fixed_init_loop malloc (Suc i) n (arr[i := Some a]) =
      (0, take (Suc i) (arr[i := Some a]) @ map malloc [Suc i..<Suc i + n], [])"
    using Suc.prems(2) by (intro Suc.IH) auto
  moreover have "take (Suc i) (arr[i := Some a]) = take i arr @ [Some a]"
    using Suc.prems(2) by (simp add: take_Suc_nth)
  moreover have "[i..<i + Suc n] = i # [Suc i..<Suc i + n]"
    by (simp add: upt_conv_Cons)
  ultimately show ?case
    by (simp add: a)
qed

lemma fixed_memory_init_ok:
  assumes ok: "\<forall>i < FIXED_MAX_NUM_BLOCKS. malloc i \<noteq> None"
    and inj: "inj_on malloc {..<FIXED_MAX_NUM_BLOCKS}"
  shows "fst (fixed_memory_init malloc) = 0"
    and "pool_inv ((the \<circ> malloc) ` {..<FIXED_MAX_NUM_BLOCKS}) {} (fst (snd (fixed_memory_init malloc)))"
proof -
  let ?n = FIXED_MAX_NUM_BLOCKS
  have run: "fixed_memory_init malloc =
      (0, \<lparr>FixedArray = map malloc [0..<?n], FixedArrayIndex = 0\<rparr>, [])"
    using fixed_init_loop_ok [of ?n malloc 0 "replicate ?n None"] ok
    by (simp add: fixed_memory_init_def)
  then show "fst (fixed_memory_init malloc) = 0" by simp
  have some: "i < ?n \<Longrightarrow> malloc i = Some (the (malloc i))" for i
    using ok by simp
  have "inj_on (the \<circ> malloc) {..<?n}"
    by (intro inj_onI) (metis comp_apply inj inj_onD lessThan_iff some)
  then have "card ((the \<circ> malloc) ` {..<?n}) = ?n"
    using card_image by fastforce
  moreover have "malloc ` {..<?n} = Some ` (the \<circ> malloc) ` {..<?n}"
    unfolding image_comp by (intro image_cong) (use some in auto)
  ultimately show "pool_inv ((the \<circ> malloc) ` {..<?n}) {} (fst (snd (fixed_memory_init malloc)))"
    using inj by (simp add: run pool_inv_def free_slots_def distinct_map atLeast0LessThan)
qed

section \<open>The interface of the pool\<close>

text \<open>
  A client's history: it asks for a block, or returns the
  \<open>n\<close>-th most recent block it holds. \<open>run_pool\<close> performs it from the list of blocks the client
  holds; \<open>None\<close> is a store outside the array.
\<close>

datatype pool_op = Alloc | Free nat

fun run_pool ::
  "('p \<Rightarrow> ptr \<times> 'p) \<Rightarrow> (addr \<Rightarrow> 'p \<Rightarrow> 'p option) \<Rightarrow> pool_op list \<Rightarrow> addr list \<times> 'p \<Rightarrow>
   (addr list \<times> 'p) option" where
  "run_pool alloc release [] (held, p) = Some (held, p)"
| "run_pool alloc release (Alloc # ops) (held, p) =
     (case alloc p of
        (None, p') \<Rightarrow> run_pool alloc release ops (held, p')
      | (Some a, p') \<Rightarrow> run_pool alloc release ops (a # held, p'))"
| "run_pool alloc release (Free n # ops) (held, p) =
     (if n < length held
      then (case release (held ! n) p of
              None \<Rightarrow> None
            | Some p' \<Rightarrow> run_pool alloc release ops (take n held @ drop (Suc n) held, p'))
      else run_pool alloc release ops (held, p))"

locale block_pool =
  fixes alloc :: "'p \<Rightarrow> ptr \<times> 'p"
    and release :: "addr \<Rightarrow> 'p \<Rightarrow> 'p option"
    and inv :: "addr set \<Rightarrow> 'p \<Rightarrow> bool"
    and blocks :: "addr set"
  assumes alloc_Some: "inv used p \<Longrightarrow> alloc p = (Some a, p') \<Longrightarrow>
      a \<in> blocks - used \<and> inv (insert a used) p'"
    and alloc_None: "inv used p \<Longrightarrow> alloc p = (None, p') \<Longrightarrow> used = blocks \<and> p' = p"
    and release_ok: "inv used p \<Longrightarrow> a \<in> used \<Longrightarrow>
      \<exists>p'. release a p = Some p' \<and> inv (used - {a}) p'"
begin

lemma alloc_two:
  assumes "inv used p" and "alloc p = (Some a, p1)" and "alloc p1 = (Some b, p2)"
  shows "a \<noteq> b \<and> {a, b} \<inter> used = {} \<and> {a, b} \<subseteq> blocks \<and> inv (insert b (insert a used)) p2"
  using alloc_Some [OF assms(1,2)] alloc_Some [of "insert a used" p1 b p2] assms(3) by auto

lemma run_pool_safe:
  assumes "inv (set held) p" and "distinct held"
  shows "\<exists>held' p'. run_pool alloc release ops (held, p) = Some (held', p') \<and>
    distinct held' \<and> inv (set held') p'"
  using assms
proof (induction ops arbitrary: held p)
  case Nil
  then show ?case by simp
next
  case (Cons op ops)
  show ?case
  proof (cases op)
    case Alloc
    obtain r p' where r: "alloc p = (r, p')" by fastforce
    show ?thesis
    proof (cases r)
      case None
      then show ?thesis
        using Cons Alloc r alloc_None by fastforce
    next
      case (Some a)
      then have "a \<notin> set held" "inv (set (a # held)) p'"
        using alloc_Some [OF Cons.prems(1)] r by auto
      then show ?thesis
        using Cons Alloc r Some by simp
    qed
  next
    case (Free n)
    show ?thesis
    proof (cases "n < length held")
      case True
      obtain p' where p': "release (held ! n) p = Some p'" "inv (set held - {held ! n}) p'"
        using release_ok [OF Cons.prems(1)] True by force
      have held: "held = take n held @ held ! n # drop (Suc n) held"
        using True by (simp add: id_take_nth_drop)
      have dist: "distinct (take n held @ held ! n # drop (Suc n) held)"
        using Cons.prems(2) held by metis
      have "set held - {held ! n} = set (take n held @ drop (Suc n) held)"
        using dist by (subst (1) held) auto
      then show ?thesis
        using Cons.IH [of "take n held @ drop (Suc n) held" p'] p' True Free dist by simp
    next
      case False
      then show ?thesis
        using Cons Free by simp
    qed
  qed
qed

end

interpretation can_pool: block_pool fixed_malloc fixed_free "pool_inv blocks" blocks for blocks
proof unfold_locales
  fix used p a p'
  assume "pool_inv blocks used p" and "fixed_malloc p = (Some a, p')"
  then show "a \<in> blocks - used \<and> pool_inv blocks (insert a used) p'"
    by (rule pool_inv_malloc)
next
  fix used p p'
  assume "pool_inv blocks used p" and "fixed_malloc p = (None, p')"
  then show "used = blocks \<and> p' = p"
    by (rule pool_inv_malloc_None)
next
  fix used p a
  assume "pool_inv blocks used p" and "a \<in> used"
  then show "\<exists>p'. fixed_free a p = Some p' \<and> pool_inv blocks (used - {a}) p'"
    by (metis pool_inv_free)
qed

section \<open>Properties\<close>

text \<open>
  C8: after a successful \<^verbatim>\<open>fixed_memory_init\<close> (all 256 \<^verbatim>\<open>malloc\<close> calls returned,
  pairwise different blocks), a client that returns only blocks it holds is safe for ever:
  no store leaves the array, the blocks it holds are pairwise different blocks of the pool,
  and the pool hands out another block exactly when fewer than 256 are held.
\<close>

theorem pool_history_safe:
  assumes "\<forall>i < FIXED_MAX_NUM_BLOCKS. malloc i \<noteq> None"
    and "inj_on malloc {..<FIXED_MAX_NUM_BLOCKS}"
    and "fixed_memory_init malloc = (0, p, freed)"
  shows "\<exists>held p'. run_pool fixed_malloc fixed_free ops ([], p) = Some (held, p') \<and>
    distinct held \<and> Some ` set held \<subseteq> malloc ` {..<FIXED_MAX_NUM_BLOCKS} \<and>
    (fst (fixed_malloc p') \<noteq> None \<longleftrightarrow> length held < FIXED_MAX_NUM_BLOCKS)"
proof -
  let ?b = "(the \<circ> malloc) ` {..<FIXED_MAX_NUM_BLOCKS}"
  have "pool_inv ?b (set []) p"
    using fixed_memory_init_ok(2) [OF assms(1,2)] assms(3) by simp
  then obtain held p' where run: "run_pool fixed_malloc fixed_free ops ([], p) = Some (held, p')"
    and d: "distinct held" and inv: "pool_inv ?b (set held) p'"
    using can_pool.run_pool_safe [of ?b "[]" p ops] by auto
  have sub: "set held \<subseteq> ?b" and fin: "finite ?b" and card: "card ?b = FIXED_MAX_NUM_BLOCKS"
    using inv by (auto simp: pool_inv_def)
  have "Some ` set held \<subseteq> malloc ` {..<FIXED_MAX_NUM_BLOCKS}"
    using sub assms(1) by force
  moreover have "set held \<noteq> ?b \<longleftrightarrow> length held < FIXED_MAX_NUM_BLOCKS"
    using psubset_card_mono [OF fin, of "set held"] sub card distinct_card [OF d] by auto
  ultimately show ?thesis
    using run d fixed_malloc_Some_iff [OF inv] by blast
qed

theorem pool_history_safe_witness:
  "\<exists>held p'. run_pool fixed_malloc fixed_free [Alloc, Alloc, Free 0]
     ([], fst (snd (fixed_memory_init Some))) = Some (held, p') \<and> distinct held"
proof -
  have ok: "\<forall>i < FIXED_MAX_NUM_BLOCKS. Some i \<noteq> None"
    and inj: "inj_on Some {..<FIXED_MAX_NUM_BLOCKS}"
    by simp_all
  have "fixed_memory_init Some = (0, fst (snd (fixed_memory_init Some)), snd (snd (fixed_memory_init Some)))"
    using fixed_memory_init_ok(1) [OF ok inj] by (simp add: prod_eq_iff)
  from pool_history_safe [OF ok inj this, of "[Alloc, Alloc, Free 0]"] show ?thesis
    by blast
qed

text \<open>
  The pool does not detect a double free: after the same block has been returned
  twice the next two allocations both succeed and hand out that one block.
\<close>

lemma fixed_double_free_aliases:
  assumes "length (FixedArray p) = FIXED_MAX_NUM_BLOCKS"
    and "2 \<le> FixedArrayIndex p" and "FixedArrayIndex p \<le> FIXED_MAX_NUM_BLOCKS"
  shows "\<exists>p1 p2 p3 p4. fixed_free a p = Some p1 \<and> fixed_free a p1 = Some p2 \<and>
    fixed_malloc p2 = (Some a, p3) \<and> fixed_malloc p3 = (Some a, p4)"
  using assms by (auto simp: fixed_free_def fixed_malloc_def nth_list_update)

lemma fixed_double_free_aliases_witness:
  "\<exists>p1 p2 p3 p4. let p = \<lparr>FixedArray = map Some [0..<256], FixedArrayIndex = 2\<rparr> in
     fixed_free 1 p = Some p1 \<and> fixed_free 1 p1 = Some p2 \<and>
     fixed_malloc p2 = (Some 1, p3) \<and> fixed_malloc p3 = (Some 1, p4)"
  using fixed_double_free_aliases [of "\<lparr>FixedArray = map Some [0..<256], FixedArrayIndex = 2\<rparr>" 1]
  by (simp add: FIXED_MAX_NUM_BLOCKS_def Let_def)

end
