(* ===== verification/Msg_Queue.thy ===== *)
theory Msg_Queue
  imports Prelude "HOL-Library.Sublist"
begin

text \<open>
  The circular message queue of \<^verbatim>\<open>src/src/queue.c\<close> and
  \<^verbatim>\<open>src/src/include/queue.h\<close>: a ring of \<^verbatim>\<open>attr.size\<close> slots with indices
  \<^verbatim>\<open>begin\<close> and \<^verbatim>\<open>end\<close>, the flags of its session and of its consumer, blocking
  and non-blocking removal, and shutdown. Everything between
  \<^verbatim>\<open>pthread_mutex_lock\<close> and \<^verbatim>\<open>pthread_mutex_unlock\<close> (or
  \<^verbatim>\<open>pthread_cond_wait\<close>) is one atomic operation. The ring is shown to implement a
  list, the interface \<open>ring_fifo\<close> states what its clients rely on.
\<close>

section \<open>Messages and the queue record\<close>

text \<open>
  \<^verbatim>\<open>struct can_msg\<close> of the QNX header \<^verbatim>\<open>sys/can_dcmd.h\<close>, with the fields the
  driver uses.
\<close>

record can_msg =
  m_dat :: "u8 list"
  m_len :: nat
  m_mid :: u32
  m_timestamp :: u32
  m_is_extended_mid :: bool
  m_is_remote_frame :: bool

text \<open>
  \<^verbatim>\<open>queue_t\<close>. The volatile integers hold 0 or 1 only; \<^verbatim>\<open>dropped_packet\<close> says
  whether the callback is installed; \<open>mutex_live\<close> and \<open>cond_live\<close> say whether the
  two POSIX objects are initialised.
\<close>

record queue =
  attr_size :: nat
  data :: "can_msg list"
  q_begin :: nat
  q_end :: nat
  mutex_live :: bool
  cond_live :: bool
  session_up :: bool
  dequeue_waiting :: bool
  stopped :: bool
  wake_pending :: bool
  dropped_packet :: bool

section \<open>Creation and destruction\<close>

text \<open>
  \<open>r_mutex\<close> and \<open>r_cond\<close> are the results of \<^verbatim>\<open>pthread_mutex_init\<close> and
  \<^verbatim>\<open>pthread_cond_init\<close>, \<open>mem\<close> is the block \<^verbatim>\<open>malloc\<close> yields (its
  uninitialised contents), if any. \<^verbatim>\<open>Q->data\<close> keeps its old value when the size
  is zero.
\<close>

definition create_queue_at ::
  "rc \<Rightarrow> rc \<Rightarrow> can_msg list option \<Rightarrow> queue \<Rightarrow> nat \<Rightarrow> rc \<times> queue" where
  "create_queue_at r_mutex r_cond mem q attr =
     (let q0 = q\<lparr>session_up := False, dequeue_waiting := False,
                 stopped := False, wake_pending := False\<rparr>
      in if r_mutex \<noteq> EOK then (r_mutex, q0)
         else let q1 = q0\<lparr>mutex_live := True\<rparr>
         in if r_cond \<noteq> EOK then (r_cond, q1\<lparr>mutex_live := False\<rparr>)
         else let q2 = q1\<lparr>cond_live := True, attr_size := attr, q_begin := 0, q_end := 0\<rparr>
         in if attr \<noteq> 0 \<and> mem = None
            then (Err ENOMEM, q2\<lparr>mutex_live := False, cond_live := False\<rparr>)
            else (EOK, q2\<lparr>data := (if attr \<noteq> 0 then the mem else data q2),
                          session_up := True, dequeue_waiting := False,
                          dropped_packet := False\<rparr>))"

definition create_queue ::
  "rc \<Rightarrow> rc \<Rightarrow> can_msg list option \<Rightarrow> queue option \<Rightarrow> nat option \<Rightarrow> rc \<times> queue option" where
  "create_queue r_mutex r_cond mem Q attr =
     (case (Q, attr) of
        (Some q, Some n) \<Rightarrow>
          (let (r, q') = create_queue_at r_mutex r_cond mem q n in (r, Some q'))
      | _ \<Rightarrow> (Err EFAULT, Q))"

definition queue_shutdown_signal :: "queue \<Rightarrow> queue" where
  "queue_shutdown_signal q = q\<lparr>session_up := False\<rparr>"

definition queue_is_stopped :: "queue \<Rightarrow> bool" where
  "queue_is_stopped q = stopped q"

definition queue_stop_signal :: "queue \<Rightarrow> queue" where
  "queue_stop_signal q = q\<lparr>stopped := True\<rparr>"

definition queue_stop :: "queue \<Rightarrow> queue" where
  "queue_stop q = q\<lparr>stopped := True\<rparr>"

definition queue_start_signal :: "queue \<Rightarrow> queue" where
  "queue_start_signal q = q\<lparr>stopped := False\<rparr>"

definition queue_start :: "queue \<Rightarrow> queue" where
  "queue_start q = q\<lparr>stopped := False\<rparr>"

definition queue_wake_pending :: "queue \<Rightarrow> bool" where
  "queue_wake_pending q = wake_pending q"

definition queue_wake_up :: "queue \<Rightarrow> queue" where
  "queue_wake_up q = q\<lparr>wake_pending := True\<rparr>"

definition queue_awake :: "queue \<Rightarrow> queue" where
  "queue_awake q = q\<lparr>wake_pending := False\<rparr>"

lemmas [queue_defs] =
  queue_shutdown_signal_def queue_is_stopped_def queue_stop_signal_def queue_stop_def
  queue_start_signal_def queue_start_def queue_wake_pending_def queue_wake_up_def
  queue_awake_def

text \<open>
  \<^verbatim>\<open>destroy_queue\<close> signals the shutdown and then waits until no consumer is inside
  \<^verbatim>\<open>dequeue\<close>; \<open>None\<close> is the wait.
\<close>

definition destroy_queue_finish :: "queue \<Rightarrow> queue option" where
  "destroy_queue_finish q =
     (if dequeue_waiting q then None
      else Some (q\<lparr>attr_size := 0, q_begin := 0, q_end := 0,
                   mutex_live := False, cond_live := False\<rparr>))"

definition destroy_queue :: "queue \<Rightarrow> queue option" where
  "destroy_queue q = destroy_queue_finish (queue_shutdown_signal q)"

section \<open>Insertion\<close>

text \<open>
  The index update of \<^verbatim>\<open>enqueue\<close>: the new \<^verbatim>\<open>begin\<close>, the slot to write, and
  whether the drop callback runs.
\<close>

definition enqueue_indices :: "queue \<Rightarrow> nat \<times> nat \<times> bool" where
  "enqueue_indices q =
     (if q_end q = attr_size q
      then (if q_begin q = 0 then 2 else q_begin q, 0, False)
      else if q_begin q = q_end q + 1
      then (if q_begin q + 1 = attr_size q
            then (0, q_end q, False)
            else (q_begin q + 1, q_end q, dropped_packet q))
      else (q_begin q, q_end q, False))"

text \<open>
  \<^verbatim>\<open>enqueue\<close> on a queue and a message that are not NULL: the result code, whether
  \<^verbatim>\<open>dropped_packet\<close> was called, the queue.
\<close>

definition enqueue_at :: "queue \<Rightarrow> can_msg \<Rightarrow> rc \<times> bool \<times> queue" where
  "enqueue_at q m =
     (if \<not> session_up q then (Err EPIPE, False, q)
      else if attr_size q = 0 then (Err EDOM, False, q\<lparr>dequeue_waiting := False\<rparr>)
      else let (b, e, drop) = enqueue_indices q
           in (EOK, drop, q\<lparr>q_begin := b, data := (data q)[e := m], q_end := e + 1\<rparr>))"

definition enqueue :: "queue option \<Rightarrow> can_msg option \<Rightarrow> rc \<times> bool \<times> queue option" where
  "enqueue Q msg =
     (case (Q, msg) of
        (Some q, Some m) \<Rightarrow> (let (r, d, q') = enqueue_at q m in (r, d, Some q'))
      | _ \<Rightarrow> (Err EFAULT, False, Q))"

section \<open>Removal\<close>

text \<open>
  What a removal hands to its caller: NULL, a message, or a read outside the ring
  (undefined in C).
\<close>

datatype fetch = Null | Msg can_msg | Wild

text \<open>
  The age test \<^verbatim>\<open>now - result->ext.timestamp > latency_limit_ms\<close> in 32-bit unsigned
  arithmetic, done only for a non-zero limit.
\<close>

definition stale :: "u32 \<Rightarrow> u32 \<Rightarrow> can_msg \<Rightarrow> bool" where
  "stale limit now m \<longleftrightarrow> limit \<noteq> 0 \<and> limit < now - m_timestamp m"

definition advance_begin :: "queue \<Rightarrow> queue" where
  "advance_begin q =
     (if q_begin q + 1 = attr_size q
      then q\<lparr>q_begin := 0, q_end := (if q_end q = attr_size q then 0 else q_end q)\<rparr>
      else q\<lparr>q_begin := q_begin q + 1\<rparr>)"

text \<open>
  The common tail of the two removals: take the slot at \<^verbatim>\<open>begin\<close>, drop it if it is
  too old (\<open>Null\<close>, the caller loops), advance.
\<close>

definition take_head :: "u32 \<Rightarrow> u32 \<Rightarrow> queue \<Rightarrow> fetch \<times> queue" where
  "take_head limit now q =
     (if q_begin q < length (data q)
      then (if stale limit now (data q ! q_begin q) then Null else Msg (data q ! q_begin q),
            advance_begin q)
      else (Wild, advance_begin q))"

text \<open>
  \<^verbatim>\<open>dequeue_noblock\<close>: \<open>clk i\<close> is the clock reading of the \<open>i\<close>-th iteration;
  \<open>None\<close> would be a loop that never ends. The message is returned by value. The source returns
  a pointer into the ring after it has unlocked the queue, and the caller copies from there, so
  the value stands for a copy made before the producer reuses the slot.
\<close>

partial_function (option) dequeue_noblock_loop ::
  "u32 \<Rightarrow> (nat \<Rightarrow> u32) \<Rightarrow> nat \<Rightarrow> queue \<Rightarrow> (fetch \<times> queue) option" where
  "dequeue_noblock_loop limit clk i q =
     (if attr_size q = 0 \<or> q_begin q = q_end q then Some (Null, q)
      else case take_head limit (clk i) q of (f, q') \<Rightarrow>
        (if f = Null then dequeue_noblock_loop limit clk (Suc i) q' else Some (f, q')))"

definition dequeue_noblock ::
  "queue option \<Rightarrow> u32 \<Rightarrow> (nat \<Rightarrow> u32) \<Rightarrow> (fetch \<times> queue option) option" where
  "dequeue_noblock Q limit clk =
     (case Q of
        None \<Rightarrow> Some (Null, None)
      | Some q \<Rightarrow>
          (if \<not> session_up q then Some (Null, Some q)
           else map_option (map_prod id Some) (dequeue_noblock_loop limit clk 0 q)))"

text \<open>
  \<^verbatim>\<open>dequeue_peek_noblock\<close> on a queue that is not NULL.
\<close>

definition read_head :: "queue \<Rightarrow> fetch" where
  "read_head q = (if q_begin q < length (data q) then Msg (data q ! q_begin q) else Wild)"

definition dequeue_peek_noblock :: "queue \<Rightarrow> fetch" where
  "dequeue_peek_noblock q =
     (if \<not> session_up q then Null
      else if attr_size q = 0 \<or> q_begin q = q_end q then Null
      else read_head q)"

text \<open>
  The blocking removals are programs of a consumer thread. \<open>Enter\<close> is the point
  before the mutex is taken, \<open>Waiting\<close> the inside of \<^verbatim>\<open>pthread_cond_wait\<close>,
  \<open>Finished\<close> the return. \<open>dequeue_check\<close> runs from the test of the wait loop to the
  next of these points.
\<close>

datatype consumer = Enter | Waiting | Finished fetch

definition dequeue_check :: "u32 \<Rightarrow> u32 \<Rightarrow> queue \<Rightarrow> consumer \<times> queue" where
  "dequeue_check limit now q =
     (if dequeue_waiting q \<and> session_up q \<and> (q_begin q = q_end q \<or> stopped q)
      then (Waiting, q)
      else let q1 = q\<lparr>dequeue_waiting := False\<rparr>
           in if \<not> session_up q1 then (Finished Null, q1)
              else if attr_size q1 = 0 then (Finished Null, q1)
              else case take_head limit now q1 of (f, q2) \<Rightarrow>
                (if f = Null then Enter else Finished f, q2))"

definition dequeue_enter :: "u32 \<Rightarrow> u32 \<Rightarrow> queue \<Rightarrow> consumer \<times> queue" where
  "dequeue_enter limit now q = dequeue_check limit now (q\<lparr>dequeue_waiting := True\<rparr>)"

text \<open>The call itself: the two guards before the loop.\<close>

definition dequeue_call :: "queue option \<Rightarrow> consumer" where
  "dequeue_call Q =
     (case Q of None \<Rightarrow> Finished Null
      | Some q \<Rightarrow> if \<not> session_up q then Finished Null else Enter)"

text \<open>\<^verbatim>\<open>dequeue_peek\<close>: as above, but it ignores \<^verbatim>\<open>stopped\<close> and removes nothing.\<close>

definition dequeue_peek_check :: "queue \<Rightarrow> consumer \<times> queue" where
  "dequeue_peek_check q =
     (if dequeue_waiting q \<and> session_up q \<and> q_begin q = q_end q
      then (Waiting, q)
      else let q1 = q\<lparr>dequeue_waiting := False\<rparr>
           in if \<not> session_up q1 then (Finished Null, q1)
              else if attr_size q1 = 0 then (Finished Null, q1)
              else (Finished (read_head q1), q1))"

definition dequeue_peek_enter :: "queue \<Rightarrow> consumer \<times> queue" where
  "dequeue_peek_enter q = dequeue_peek_check (q\<lparr>dequeue_waiting := True\<rparr>)"

section \<open>The ring as a list\<close>

text \<open>
  Well-formed rings: the indices are inside the ring. A ring needs three slots, because a
  full ring drops two messages at once by setting \<^verbatim>\<open>begin\<close> to 2.
\<close>

definition queue_wf :: "queue \<Rightarrow> bool" where
  "queue_wf q \<longleftrightarrow>
     (if attr_size q = 0 then q_begin q = 0 \<and> q_end q = 0
      else 3 \<le> attr_size q \<and> length (data q) = attr_size q \<and>
           q_begin q < attr_size q \<and> q_end q \<le> attr_size q)"

text \<open>The messages in the ring, oldest first.\<close>

definition contents :: "queue \<Rightarrow> can_msg list" where
  "contents q =
     (if attr_size q = 0 then []
      else if q_begin q \<le> q_end q then drop (q_begin q) (take (q_end q) (data q))
      else drop (q_begin q) (data q) @ take (q_end q) (data q))"

text \<open>
  The one state in which \<^verbatim>\<open>enqueue\<close> makes the two indices meet: the ring is used up
  to its last slot and only slot 0 is free.
\<close>

definition collapses :: "queue \<Rightarrow> bool" where
  "collapses q \<longleftrightarrow> q_end q = attr_size q \<and> q_begin q = 1"

lemma contents_Nil_iff:
  assumes "queue_wf q"
  shows "contents q = [] \<longleftrightarrow> q_begin q = q_end q"
  using assms by (auto simp: contents_def queue_wf_def split: if_splits)

lemma length_contents:
  assumes "queue_wf q"
  shows "length (contents q) =
    (if q_begin q \<le> q_end q then q_end q - q_begin q else attr_size q - q_begin q + q_end q)"
  using assms by (auto simp: contents_def queue_wf_def min_def split: if_splits)

lemma length_contents_le: "queue_wf q \<Longrightarrow> length (contents q) \<le> attr_size q"
  by (auto simp: length_contents queue_wf_def split: if_splits)

text \<open>Every operation that leaves the ring alone leaves the list alone.\<close>

lemma contents_flags [simp]:
  "contents (q\<lparr>dequeue_waiting := w\<rparr>) = contents q"
  "contents (q\<lparr>stopped := s\<rparr>) = contents q"
  "contents (q\<lparr>session_up := u\<rparr>) = contents q"
  "contents (q\<lparr>wake_pending := p\<rparr>) = contents q"
  "contents (q\<lparr>dropped_packet := d\<rparr>) = contents q"
  by (simp_all add: contents_def)

lemma queue_wf_flags [simp]:
  "queue_wf (q\<lparr>dequeue_waiting := w\<rparr>) = queue_wf q"
  "queue_wf (q\<lparr>stopped := s\<rparr>) = queue_wf q"
  "queue_wf (q\<lparr>session_up := u\<rparr>) = queue_wf q"
  "queue_wf (q\<lparr>wake_pending := p\<rparr>) = queue_wf q"
  "queue_wf (q\<lparr>dropped_packet := d\<rparr>) = queue_wf q"
  by (simp_all add: queue_wf_def)

subsection \<open>Insertion\<close>

lemma enqueue_at_ring:
  assumes "session_up q" and "attr_size q \<noteq> 0" and "enqueue_indices q = (b, e, d)"
  shows "enqueue_at q m =
    (EOK, d, q\<lparr>q_begin := b, data := (data q)[e := m], q_end := e + 1\<rparr>)"
  using assms by (simp add: enqueue_at_def)

lemma queue_wf_enqueue_at:
  assumes "queue_wf q"
  shows "queue_wf (snd (snd (enqueue_at q m)))"
proof (cases "session_up q \<and> attr_size q \<noteq> 0")
  case True
  obtain b e d where i: "enqueue_indices q = (b, e, d)"
    by (cases "enqueue_indices q") auto
  then have "b < attr_size q" and "e < attr_size q"
    using assms True by (auto simp: enqueue_indices_def queue_wf_def split: if_splits)
  then show ?thesis
    using assms True i by (auto simp: enqueue_at_ring queue_wf_def)
next
  case False
  then show ?thesis
    using assms by (auto simp: enqueue_at_def)
qed

lemma drop_update_low: "e < n \<Longrightarrow> drop n (xs[e := m]) = drop n xs"
  by (simp add: drop_update_cancel)

lemma take_update_last: "e < length xs \<Longrightarrow> take (Suc e) (xs[e := m]) = take e xs @ [m]"
  by (simp add: take_Suc_conv_app_nth)

text \<open>What \<^verbatim>\<open>enqueue\<close> does to the list, in each of its branches.\<close>

lemma contents_enqueue_full:
  assumes "queue_wf q" and "session_up q" and "attr_size q \<noteq> 0"
    and "q_end q = attr_size q" and "q_begin q = 0"
  shows "contents (snd (snd (enqueue_at q m))) = drop 2 (contents q) @ [m]"
proof -
  have len: "0 < length (data q)" "length (data q) = attr_size q"
    using assms by (auto simp: queue_wf_def)
  have "contents (snd (snd (enqueue_at q m))) =
      drop 2 ((data q)[0 := m]) @ take (Suc 0) ((data q)[0 := m])"
    using assms by (simp add: enqueue_at_def enqueue_indices_def contents_def)
  also have "\<dots> = drop 2 (data q) @ [m]"
    using len by (simp add: drop_update_low take_update_last)
  also have "drop 2 (data q) = drop 2 (contents q)"
    using assms len by (simp add: contents_def)
  finally show ?thesis .
qed

lemma contents_enqueue_collapse:
  assumes "session_up q" and "attr_size q \<noteq> 0" and "collapses q"
  shows "contents (snd (snd (enqueue_at q m))) = []"
  using assms by (simp add: collapses_def enqueue_at_def enqueue_indices_def contents_def)

lemma contents_enqueue_wrap:
  assumes "queue_wf q" and "session_up q" and "attr_size q \<noteq> 0"
    and "q_end q = attr_size q" and "2 \<le> q_begin q"
  shows "contents (snd (snd (enqueue_at q m))) = contents q @ [m]"
proof -
  have len: "0 < length (data q)" "length (data q) = attr_size q"
    using assms by (auto simp: queue_wf_def)
  have "contents (snd (snd (enqueue_at q m))) =
      drop (q_begin q) ((data q)[0 := m]) @ take (Suc 0) ((data q)[0 := m])"
    using assms by (simp add: enqueue_at_def enqueue_indices_def contents_def)
  also have "\<dots> = drop (q_begin q) (data q) @ [m]"
    using len assms by (simp add: drop_update_low take_update_last)
  also have "drop (q_begin q) (data q) = contents q"
    using assms len by (auto simp: contents_def queue_wf_def)
  finally show ?thesis .
qed

lemma contents_enqueue_drop1:
  assumes "queue_wf q" and "session_up q" and "attr_size q \<noteq> 0"
    and "q_end q \<noteq> attr_size q" and "q_begin q = q_end q + 1"
  shows "contents (snd (snd (enqueue_at q m))) = tl (contents q) @ [m]"
proof -
  have len: "q_end q < length (data q)" "length (data q) = attr_size q"
      "q_begin q < length (data q)"
    using assms by (auto simp: queue_wf_def)
  have tl: "tl (contents q) = drop (Suc (q_begin q)) (data q) @ take (q_end q) (data q)"
    using assms len by (simp add: contents_def drop_nth_Cons [of "Suc (q_end q)"])
  show ?thesis
  proof (cases "q_begin q + 1 = attr_size q")
    case True
    then have "contents (snd (snd (enqueue_at q m))) = take (Suc (q_end q)) ((data q)[q_end q := m])"
      using assms by (simp add: enqueue_at_def enqueue_indices_def contents_def)
    then show ?thesis
      using len True tl by (simp add: take_update_last)
  next
    case False
    then have "contents (snd (snd (enqueue_at q m))) =
        drop (Suc (q_begin q)) ((data q)[q_end q := m]) @ take (Suc (q_end q)) ((data q)[q_end q := m])"
      using assms by (simp add: enqueue_at_def enqueue_indices_def contents_def)
    then show ?thesis
      using len assms tl by (simp add: drop_update_low take_update_last)
  qed
qed

lemma contents_enqueue_room:
  assumes "queue_wf q" and "session_up q" and "attr_size q \<noteq> 0"
    and "q_end q \<noteq> attr_size q" and "q_begin q \<noteq> q_end q + 1"
  shows "contents (snd (snd (enqueue_at q m))) = contents q @ [m]"
proof -
  have len: "q_end q < length (data q)" "length (data q) = attr_size q"
    using assms by (auto simp: queue_wf_def)
  show ?thesis
  proof (cases "q_begin q \<le> q_end q")
    case True
    then have "contents (snd (snd (enqueue_at q m))) =
        drop (q_begin q) (take (Suc (q_end q)) ((data q)[q_end q := m]))"
      using assms by (simp add: enqueue_at_def enqueue_indices_def contents_def)
    then show ?thesis
      using len True assms by (simp add: take_update_last contents_def)
  next
    case False
    then have "contents (snd (snd (enqueue_at q m))) =
        drop (q_begin q) ((data q)[q_end q := m]) @ take (Suc (q_end q)) ((data q)[q_end q := m])"
      using assms by (simp add: enqueue_at_def enqueue_indices_def contents_def)
    then show ?thesis
      using len False assms by (simp add: drop_update_low take_update_last contents_def)
  qed
qed

lemmas contents_enqueue =
  contents_enqueue_full contents_enqueue_collapse contents_enqueue_wrap
  contents_enqueue_drop1 contents_enqueue_room

text \<open>
  The list-level specification of \<^verbatim>\<open>enqueue\<close>: the ring holds \<^verbatim>\<open>size - 1\<close>
  messages, or \<^verbatim>\<open>size\<close> while it has not wrapped around yet.
\<close>

definition enqueue_spec :: "queue \<Rightarrow> can_msg \<Rightarrow> can_msg list" where
  "enqueue_spec q m =
     (if collapses q then []
      else if length (contents q) = attr_size q then drop 2 (contents q) @ [m]
      else if length (contents q) = attr_size q - 1 \<and> q_begin q \<noteq> 0
      then tl (contents q) @ [m]
      else contents q @ [m])"

lemma contents_enqueue_at:
  assumes wf: "queue_wf q" and up: "session_up q" and sz: "attr_size q \<noteq> 0"
  shows "contents (snd (snd (enqueue_at q m))) = enqueue_spec q m"
proof -
  have bounds: "q_begin q < attr_size q" "q_end q \<le> attr_size q"
    using wf sz by (auto simp: queue_wf_def)
  consider (full) "q_end q = attr_size q" "q_begin q = 0"
    | (collapse) "q_end q = attr_size q" "q_begin q = 1"
    | (wrap) "q_end q = attr_size q" "2 \<le> q_begin q"
    | (drop1) "q_end q \<noteq> attr_size q" "q_begin q = q_end q + 1"
    | (room) "q_end q \<noteq> attr_size q" "q_begin q \<noteq> q_end q + 1"
    by linarith
  then show ?thesis
  proof cases
    case full
    then show ?thesis
      using assms bounds by (simp add: contents_enqueue_full enqueue_spec_def collapses_def length_contents)
  next
    case collapse
    then show ?thesis
      using assms by (simp add: contents_enqueue_collapse enqueue_spec_def collapses_def)
  next
    case wrap
    then have "length (contents q) < attr_size q - 1"
      using assms bounds by (simp add: length_contents)
    then show ?thesis
      using assms wrap by (simp add: contents_enqueue_wrap enqueue_spec_def collapses_def)
  next
    case drop1
    then have "length (contents q) = attr_size q - 1"
      using assms bounds by (simp add: length_contents)
    then show ?thesis
      using assms drop1 by (simp add: contents_enqueue_drop1 enqueue_spec_def collapses_def)
  next
    case room
    then have "length (contents q) < attr_size q - 1 \<or> q_begin q = 0 \<and> length (contents q) \<noteq> attr_size q"
      using assms bounds by (auto simp: length_contents)
    then show ?thesis
      using assms room by (auto simp: contents_enqueue_room enqueue_spec_def collapses_def)
  qed
qed

lemma enqueue_spec_room:
  assumes "queue_wf q" and "length (contents q) < attr_size q - 1"
  shows "enqueue_spec q m = contents q @ [m]"
proof -
  have "\<not> collapses q"
    using assms by (auto simp: collapses_def length_contents split: if_splits)
  then show ?thesis using assms(2) by (simp add: enqueue_spec_def)
qed

lemma subseq_drop: "subseq (drop n xs) xs"
  by (simp add: suffix_drop suffix_imp_subseq)

lemma subseq_tl: "subseq (tl xs) xs"
  by (metis drop_Suc drop0 subseq_drop)

lemma subseq_enqueue_spec: "subseq (enqueue_spec q m) (contents q @ [m])"
  by (simp add: enqueue_spec_def subseq_drop subseq_tl)

lemma enqueue_at_down_or_empty:
  assumes "\<not> session_up q \<or> attr_size q = 0"
  shows "contents (snd (snd (enqueue_at q m))) = contents q"
  using assms by (auto simp: enqueue_at_def)

lemma subseq_enqueue_at:
  assumes "queue_wf q"
  shows "subseq (contents (snd (snd (enqueue_at q m)))) (contents q @ [m])"
proof (cases "\<not> session_up q \<or> attr_size q = 0")
  case True
  then show ?thesis
    using enqueue_at_down_or_empty [OF True] by (simp add: subseq_rev_drop_many)
next
  case False
  then show ?thesis
    using assms contents_enqueue_at subseq_enqueue_spec by auto
qed

lemma enqueue_at_frame [frame_rules]:
  "attr_size (snd (snd (enqueue_at q m))) = attr_size q"
  "session_up (snd (snd (enqueue_at q m))) = session_up q"
  "stopped (snd (snd (enqueue_at q m))) = stopped q"
  "attr_size q \<noteq> 0 \<Longrightarrow> dequeue_waiting (snd (snd (enqueue_at q m))) = dequeue_waiting q"
  by (auto simp: enqueue_at_def split: prod.splits)

subsection \<open>Removal\<close>

lemma take_head_wf:
  assumes wf: "queue_wf q" and ne: "q_begin q \<noteq> q_end q"
  shows "queue_wf (advance_begin q)"
    and "contents q = data q ! q_begin q # contents (advance_begin q)"
    and "q_begin q < length (data q)"
proof -
  have sz: "attr_size q \<noteq> 0" "length (data q) = attr_size q" "q_begin q < attr_size q"
      "q_end q \<le> attr_size q"
    using wf ne by (auto simp: queue_wf_def split: if_splits)
  then show lt: "q_begin q < length (data q)" by simp
  show "queue_wf (advance_begin q)"
    using wf ne by (auto simp: queue_wf_def advance_begin_def split: if_splits)
  show "contents q = data q ! q_begin q # contents (advance_begin q)"
    using sz ne lt drop_nth_Cons [of "q_begin q" "take (q_end q) (data q)"]
    by (auto simp: contents_def advance_begin_def drop_nth_Cons [OF lt])
qed

lemma advance_begin_frame [simp]:
  "attr_size (advance_begin q) = attr_size q"
  "session_up (advance_begin q) = session_up q"
  "stopped (advance_begin q) = stopped q"
  "dequeue_waiting (advance_begin q) = dequeue_waiting q"
  by (simp_all add: advance_begin_def)

text \<open>
  \<open>fresh limit clk i ms\<close>: what the removal loop returns when the messages \<open>ms\<close> are in
  the ring, and what it leaves there: the first message that is not stale when its turn
  comes.
\<close>

fun first_fresh :: "u32 \<Rightarrow> (nat \<Rightarrow> u32) \<Rightarrow> nat \<Rightarrow> can_msg list \<Rightarrow> can_msg option \<times> can_msg list" where
  "first_fresh limit clk i [] = (None, [])"
| "first_fresh limit clk i (m # ms) =
     (if stale limit (clk i) m then first_fresh limit clk (Suc i) ms else (Some m, ms))"

definition fetch_option :: "fetch \<Rightarrow> can_msg option" where
  "fetch_option f = (case f of Msg m \<Rightarrow> Some m | _ \<Rightarrow> None)"

lemma dequeue_noblock_loop_refines:
  assumes "queue_wf q"
  shows "\<exists>f q'. dequeue_noblock_loop limit clk i q = Some (f, q') \<and> f \<noteq> Wild \<and> queue_wf q' \<and>
    attr_size q' = attr_size q \<and> session_up q' = session_up q \<and>
    (fetch_option f, contents q') = first_fresh limit clk i (contents q)"
  using assms
proof (induction "contents q" arbitrary: q i)
  case Nil
  then have "q_begin q = q_end q"
    using contents_Nil_iff [of q] by simp
  then have "dequeue_noblock_loop limit clk i q = Some (Null, q)"
    by (subst dequeue_noblock_loop.simps) simp
  then show ?case
    using Nil by (simp add: fetch_option_def flip: Nil.hyps(1))
next
  case (Cons m ms)
  then have ne: "q_begin q \<noteq> q_end q"
    using contents_Nil_iff by fastforce
  then have sz: "attr_size q \<noteq> 0"
    using Cons.prems by (auto simp: queue_wf_def split: if_splits)
  note th = take_head_wf [OF Cons.prems ne]
  have hd: "m = data q ! q_begin q" and tl: "ms = contents (advance_begin q)"
    using th(2) Cons.hyps(2) by auto
  show ?case
  proof (cases "stale limit (clk i) m")
    case True
    then have "dequeue_noblock_loop limit clk i q =
        dequeue_noblock_loop limit clk (Suc i) (advance_begin q)"
      using ne sz th(3) by (subst dequeue_noblock_loop.simps) (simp add: take_head_def hd)
    then show ?thesis
      using Cons.hyps(1) [OF tl th(1), of "Suc i"] True tl
      by (simp flip: Cons.hyps(2))
  next
    case False
    then have "dequeue_noblock_loop limit clk i q = Some (Msg m, advance_begin q)"
      using ne sz th(3) by (subst dequeue_noblock_loop.simps) (simp add: take_head_def hd)
    then show ?thesis
      using False th(1) tl by (simp add: fetch_option_def flip: Cons.hyps(2))
  qed
qed

lemma first_fresh_split:
  assumes "first_fresh limit clk i ms = (r, rest)"
  shows "\<exists>old. (\<forall>j < length old. stale limit (clk (i + j)) (old ! j)) \<and>
    ms = old @ (case r of None \<Rightarrow> [] | Some m \<Rightarrow> [m]) @ rest \<and> (r = None \<longrightarrow> rest = []) \<and>
    (\<forall>m. r = Some m \<longrightarrow> \<not> stale limit (clk (i + length old)) m)"
  using assms
proof (induction ms arbitrary: i)
  case Nil
  then show ?case by auto
next
  case (Cons m ms)
  show ?case
  proof (cases "stale limit (clk i) m")
    case True
    then obtain old where old: "\<forall>j < length old. stale limit (clk (Suc i + j)) (old ! j)"
      "ms = old @ (case r of None \<Rightarrow> [] | Some m \<Rightarrow> [m]) @ rest" "r = None \<longrightarrow> rest = []"
      "\<forall>m. r = Some m \<longrightarrow> \<not> stale limit (clk (Suc i + length old)) m"
      using Cons.IH [of "Suc i"] Cons.prems by auto
    then have "\<forall>j < length (m # old). stale limit (clk (i + j)) ((m # old) ! j)"
      using True by (auto simp: less_Suc_eq_0_disj)
    then show ?thesis
      using old by (intro exI [of _ "m # old"]) auto
  next
    case False
    then show ?thesis
      using Cons.prems by (intro exI [of _ "[]"]) auto
  qed
qed

lemma first_fresh_no_limit: "first_fresh 0 clk i ms = (case ms of [] \<Rightarrow> (None, []) | m # r \<Rightarrow> (Some m, r))"
  by (cases ms) (auto simp: stale_def)

section \<open>The interface of the ring\<close>

text \<open>
  A history of calls on a buffer: insertions, and removals each at a time of type
  \<open>'t\<close>. \<open>run_ops\<close> performs it and collects what the removals deliver.
\<close>

datatype ('m, 't) ring_op = Put 'm | Get 't

fun run_ops ::
  "('s \<Rightarrow> 'm \<Rightarrow> 's) \<Rightarrow> ('t \<Rightarrow> 's \<Rightarrow> 'm option \<times> 's) \<Rightarrow> ('m, 't) ring_op list \<Rightarrow> 's \<Rightarrow> 'm list \<times> 's" where
  "run_ops put get [] s = ([], s)"
| "run_ops put get (Put m # ops) s = run_ops put get ops (put s m)"
| "run_ops put get (Get t # ops) s =
     (let (r, s1) = get t s; (out, s2) = run_ops put get ops s1
      in ((case r of None \<Rightarrow> out | Some m \<Rightarrow> m # out), s2))"

fun inputs :: "('m, 't) ring_op list \<Rightarrow> 'm list" where
  "inputs [] = []"
| "inputs (Put m # ops) = m # inputs ops"
| "inputs (Get t # ops) = inputs ops"

text \<open>
  What a client may rely on: the buffer denotes a list, insertion may lose messages but
  neither reorders nor invents any, removal takes from the front.
\<close>

locale ring_fifo =
  fixes put :: "'s \<Rightarrow> 'm \<Rightarrow> 's"
    and get :: "'t \<Rightarrow> 's \<Rightarrow> 'm option \<times> 's"
    and cont :: "'s \<Rightarrow> 'm list"
    and ok :: "'s \<Rightarrow> bool"
  assumes ok_put: "ok s \<Longrightarrow> ok (put s m)"
    and ok_get: "ok s \<Longrightarrow> get t s = (r, s') \<Longrightarrow> ok s'"
    and put_sub: "ok s \<Longrightarrow> subseq (cont (put s m)) (cont s @ [m])"
    and get_front: "ok s \<Longrightarrow> get t s = (r, s') \<Longrightarrow>
      \<exists>old. cont s = old @ (case r of None \<Rightarrow> [] | Some m \<Rightarrow> [m]) @ cont s'"
begin

lemma run_ok: "ok s \<Longrightarrow> run_ops put get ops s = (out, s') \<Longrightarrow> ok s'"
  by (induction ops arbitrary: s out rule: inputs.induct)
    (auto split: prod.splits option.splits dest: ok_put ok_get)

lemma run_subseq:
  assumes "ok s" and "run_ops put get ops s = (out, s')"
  shows "subseq (out @ cont s') (cont s @ inputs ops)"
  using assms
proof (induction ops arbitrary: s out rule: inputs.induct)
  case 1
  then show ?case by simp
next
  case (2 m ops)
  have "subseq (out @ cont s') (cont (put s m) @ inputs ops)"
    using 2 by (auto dest: ok_put)
  moreover have "subseq (cont (put s m) @ inputs ops) ((cont s @ [m]) @ inputs ops)"
    using put_sub [OF 2(2)] by (simp only: subseq_append)
  ultimately show ?case
    by (auto intro: subseq_order.order_trans)
next
  case (3 t ops)
  obtain r s1 where g: "get t s = (r, s1)" by fastforce
  obtain out1 where run: "run_ops put get ops s1 = (out1, s')"
    and out: "out = (case r of None \<Rightarrow> [] | Some m \<Rightarrow> [m]) @ out1"
    using 3(3) g by (auto split: prod.splits option.splits)
  have IH: "subseq (out1 @ cont s') (cont s1 @ inputs ops)"
    using 3(1) [OF ok_get [OF 3(2) g] run] .
  obtain old where "cont s = old @ (case r of None \<Rightarrow> [] | Some m \<Rightarrow> [m]) @ cont s1"
    using get_front [OF 3(2) g] by blast
  then show ?case
    using IH by (auto simp: out intro: subseq_drop_many split: option.split)
qed

end

text \<open>The ring of the driver with its non-blocking removal provides this interface.\<close>

definition ring_put :: "queue \<Rightarrow> can_msg \<Rightarrow> queue" where
  "ring_put q m = snd (snd (enqueue_at q m))"

definition ring_get :: "u32 \<times> (nat \<Rightarrow> u32) \<Rightarrow> queue \<Rightarrow> can_msg option \<times> queue" where
  "ring_get t q =
     (case dequeue_noblock (Some q) (fst t) (snd t) of
        Some (f, Some q') \<Rightarrow> (fetch_option f, q')
      | _ \<Rightarrow> (None, q))"

lemma ring_get_eq:
  assumes "queue_wf q" and "session_up q"
  shows "\<exists>q'. ring_get t q = (fst (first_fresh (fst t) (snd t) 0 (contents q)), q') \<and>
    queue_wf q' \<and> session_up q' \<and> attr_size q' = attr_size q \<and>
    contents q' = snd (first_fresh (fst t) (snd t) 0 (contents q))"
proof -
  obtain f q' where l: "dequeue_noblock_loop (fst t) (snd t) 0 q = Some (f, q')"
    and q': "queue_wf q'" "attr_size q' = attr_size q" "session_up q' = session_up q"
      "(fetch_option f, contents q') = first_fresh (fst t) (snd t) 0 (contents q)"
    using dequeue_noblock_loop_refines [OF assms(1)] by metis
  have "fetch_option f = fst (first_fresh (fst t) (snd t) 0 (contents q))"
    and "contents q' = snd (first_fresh (fst t) (snd t) 0 (contents q))"
    by (simp_all flip: q'(4))
  then show ?thesis
    using assms(2) l q'(1-3) by (simp add: ring_get_def dequeue_noblock_def)
qed

definition ring_ok :: "nat \<Rightarrow> queue \<Rightarrow> bool" where
  "ring_ok n q \<longleftrightarrow> queue_wf q \<and> session_up q \<and> attr_size q = n"

interpretation can_ring: ring_fifo ring_put ring_get contents "ring_ok n" for n
proof unfold_locales
  fix q m
  assume "ring_ok n q"
  then show "ring_ok n (ring_put q m)"
    by (simp add: ring_ok_def ring_put_def queue_wf_enqueue_at frame_rules)
next
  fix q t r q'
  assume "ring_ok n q" and "ring_get t q = (r, q')"
  then show "ring_ok n q'"
    using ring_get_eq [of q t] by (auto simp: ring_ok_def)
next
  fix q m
  assume "ring_ok n q"
  then show "subseq (contents (ring_put q m)) (contents q @ [m])"
    by (simp add: ring_ok_def ring_put_def subseq_enqueue_at)
next
  fix q t r q'
  assume "ring_ok n q" and g: "ring_get t q = (r, q')"
  then have "first_fresh (fst t) (snd t) 0 (contents q) = (r, contents q')"
    using ring_get_eq [of q t] by (auto simp: ring_ok_def prod_eq_iff)
  from first_fresh_split [OF this]
  show "\<exists>old. contents q = old @ (case r of None \<Rightarrow> [] | Some m \<Rightarrow> [m]) @ contents q'"
    by blast
qed

section \<open>Creation\<close>

lemma create_queue_at_ok:
  assumes "create_queue_at r_mutex r_cond mem q n = (EOK, q')"
    and "n = 0 \<or> 3 \<le> n" and "\<forall>ms. mem = Some ms \<longrightarrow> length ms = n"
  shows "queue_wf q' \<and> session_up q' \<and> \<not> stopped q' \<and> \<not> dequeue_waiting q' \<and>
    attr_size q' = n \<and> contents q' = []"
  using assms
  by (auto simp: create_queue_at_def Let_def queue_wf_def contents_def split: if_splits)

text \<open>The queue \<^verbatim>\<open>create_queue\<close> builds from blank memory with \<open>n\<close> slots.\<close>

definition blank_msg :: can_msg where
  "blank_msg = \<lparr>m_dat = [], m_len = 0, m_mid = 0, m_timestamp = 0,
     m_is_extended_mid = False, m_is_remote_frame = False\<rparr>"

definition blank_queue :: queue where
  "blank_queue = \<lparr>attr_size = 0, data = [], q_begin = 0, q_end = 0, mutex_live = False,
     cond_live = False, session_up = False, dequeue_waiting = False, stopped = False,
     wake_pending = False, dropped_packet = False\<rparr>"

definition fresh_queue :: "nat \<Rightarrow> queue" where
  "fresh_queue n = snd (create_queue_at EOK EOK (Some (replicate n blank_msg)) blank_queue n)"

lemma fresh_queue_ok:
  assumes "3 \<le> n"
  shows "queue_wf (fresh_queue n)" "session_up (fresh_queue n)" "attr_size (fresh_queue n) = n"
    "contents (fresh_queue n) = []"
  using assms
  by (simp_all add: fresh_queue_def create_queue_at_def blank_queue_def queue_wf_def contents_def)

section \<open>The queue, its consumer and its destroyer\<close>

text \<open>
  One consumer thread runs \<^verbatim>\<open>dequeue\<close>, any other thread inserts, stops, starts or
  shuts down, one thread runs \<^verbatim>\<open>destroy_queue\<close>. \<open>c_woken\<close> and \<open>d_woken\<close> record that a
  thread inside \<^verbatim>\<open>pthread_cond_wait\<close> has been chosen by a \<^verbatim>\<open>pthread_cond_signal\<close>;
  a thread may also wake spuriously.
\<close>

datatype destroyer = DIdle | DLock | DWait | DDone

record qsys =
  s_queue :: queue
  s_cons :: consumer
  c_woken :: bool
  s_dest :: destroyer
  d_woken :: bool

definition c_blocked :: "qsys \<Rightarrow> bool" where
  "c_blocked s \<longleftrightarrow> s_cons s = Waiting \<and> \<not> c_woken s"

definition d_blocked :: "qsys \<Rightarrow> bool" where
  "d_blocked s \<longleftrightarrow> s_dest s = DWait \<and> \<not> d_woken s"

text \<open>
  \<^verbatim>\<open>pthread_cond_signal\<close> wakes one of the blocked threads; \<open>choice\<close> decides when both
  are blocked.
\<close>

definition cond_signal :: "bool \<Rightarrow> qsys \<Rightarrow> qsys" where
  "cond_signal choice s =
     (if c_blocked s \<and> (choice \<or> \<not> d_blocked s) then s\<lparr>c_woken := True\<rparr>
      else if d_blocked s then s\<lparr>d_woken := True\<rparr> else s)"

text \<open>One run of \<^verbatim>\<open>dequeue\<close> from one waiting point to the next.\<close>

definition consumer_moves :: "bool \<Rightarrow> consumer \<times> queue \<Rightarrow> qsys \<Rightarrow> qsys" where
  "consumer_moves choice r s =
     (let s1 = s\<lparr>s_queue := snd r, s_cons := fst r, c_woken := False\<rparr>
      in if \<not> session_up (snd r) then cond_signal choice s1 else s1)"

text \<open>
  \<^verbatim>\<open>enqueue\<close> tests \<^verbatim>\<open>session_up\<close> before it takes the lock: an insertion that has passed the test may
  store its message at any later time while the mutex exists, also after a shutdown.
\<close>

inductive qstep :: "qsys \<Rightarrow> qsys \<Rightarrow> bool" where
  enqueue_down: "\<not> session_up (s_queue s) \<Longrightarrow> qstep s s"
| enqueue_up:
    "mutex_live (s_queue s) \<Longrightarrow>
     qstep s (cond_signal choice (s\<lparr>s_queue := snd (snd (enqueue_at (s_queue s) m))\<rparr>))"
| stop: "qstep s (s\<lparr>s_queue := queue_stop (s_queue s)\<rparr>)"
| stop_signal: "qstep s (cond_signal choice (s\<lparr>s_queue := queue_stop_signal (s_queue s)\<rparr>))"
| start_signal: "qstep s (cond_signal choice (s\<lparr>s_queue := queue_start_signal (s_queue s)\<rparr>))"
| start_self: "s_cons s \<noteq> Waiting \<Longrightarrow> qstep s (s\<lparr>s_queue := queue_start (s_queue s)\<rparr>)"
| wake_up: "qstep s (s\<lparr>s_queue := queue_wake_up (s_queue s)\<rparr>)"
| awake: "qstep s (s\<lparr>s_queue := queue_awake (s_queue s)\<rparr>)"
| shutdown: "qstep s (cond_signal choice (s\<lparr>s_queue := queue_shutdown_signal (s_queue s)\<rparr>))"
| call: "s_cons s = Finished f \<Longrightarrow> s_dest s \<noteq> DDone \<Longrightarrow>
     qstep s (s\<lparr>s_cons := dequeue_call (Some (s_queue s))\<rparr>)"
| enter: "s_cons s = Enter \<Longrightarrow> mutex_live (s_queue s) \<Longrightarrow>
     qstep s (consumer_moves choice (dequeue_enter limit now (s_queue s)) s)"
| resume: "s_cons s = Waiting \<Longrightarrow>
     qstep s (consumer_moves choice (dequeue_check limit now (s_queue s)) s)"
| destroy_call: "s_dest s = DIdle \<Longrightarrow>
     qstep s (cond_signal choice
       (s\<lparr>s_queue := queue_shutdown_signal (s_queue s), s_dest := DLock\<rparr>))"
| destroy_waits: "s_dest s = DLock \<or> s_dest s = DWait \<Longrightarrow>
     destroy_queue_finish (s_queue s) = None \<Longrightarrow>
     qstep s (s\<lparr>s_dest := DWait, d_woken := False\<rparr>)"
| destroy_done: "s_dest s = DLock \<or> s_dest s = DWait \<Longrightarrow>
     destroy_queue_finish (s_queue s) = Some q' \<Longrightarrow>
     qstep s (s\<lparr>s_queue := q', s_dest := DDone, d_woken := False\<rparr>)"

text \<open>
  The invariant: a blocked consumer is one that has a reason to wait, a blocked
  destroyer has a consumer that is already on its way.
\<close>

definition qsys_inv :: "qsys \<Rightarrow> bool" where
  "qsys_inv s \<longleftrightarrow>
     (s_dest s \<noteq> DDone \<longrightarrow> attr_size (s_queue s) \<noteq> 0 \<and> mutex_live (s_queue s)) \<and>
     (dequeue_waiting (s_queue s) \<longleftrightarrow> s_cons s = Waiting) \<and>
     (c_blocked s \<longrightarrow> session_up (s_queue s) \<and>
        (q_begin (s_queue s) = q_end (s_queue s) \<or> stopped (s_queue s))) \<and>
     (d_blocked s \<longrightarrow> s_cons s = Waiting) \<and>
     (s_dest s \<noteq> DIdle \<longrightarrow> \<not> session_up (s_queue s)) \<and>
     (s_dest s = DDone \<longrightarrow> s_cons s \<noteq> Waiting \<and> \<not> mutex_live (s_queue s))"

definition qsys_init :: "queue \<Rightarrow> qsys" where
  "qsys_init q = \<lparr>s_queue = q, s_cons = Finished Null, c_woken = False,
     s_dest = DIdle, d_woken = False\<rparr>"

lemma qsys_inv_init:
  assumes "attr_size q \<noteq> 0" and "mutex_live q" and "\<not> dequeue_waiting q"
  shows "qsys_inv (qsys_init q)"
  using assms by (simp add: qsys_inv_def qsys_init_def c_blocked_def d_blocked_def)

lemma blocked_frame [simp]:
  "c_blocked (s\<lparr>s_queue := q\<rparr>) = c_blocked s"
  "d_blocked (s\<lparr>s_queue := q\<rparr>) = d_blocked s"
  "d_blocked (s\<lparr>s_cons := c\<rparr>) = d_blocked s"
  "c_blocked (s\<lparr>s_cons := Finished f\<rparr>) = False"
  "c_blocked (s\<lparr>s_cons := Enter\<rparr>) = False"
  by (simp_all add: c_blocked_def d_blocked_def)

lemma cond_signal_frame [simp]:
  "s_queue (cond_signal ch s) = s_queue s"
  "s_cons (cond_signal ch s) = s_cons s"
  "s_dest (cond_signal ch s) = s_dest s"
  by (simp_all add: cond_signal_def)

text \<open>
  The invariant with the two blocked conditions unfolded one signal later: after a signal
  with no destroyer blocked no consumer is blocked.
\<close>

lemma c_blocked_cond_signal: "\<not> d_blocked s \<Longrightarrow> \<not> c_blocked (cond_signal ch s)"
  by (simp add: cond_signal_def c_blocked_def d_blocked_def)

lemma d_blocked_cond_signal: "d_blocked (cond_signal ch s) \<Longrightarrow> d_blocked s"
  by (auto simp: cond_signal_def c_blocked_def d_blocked_def split: if_splits)

lemma c_blocked_cond_signal_mono: "c_blocked (cond_signal ch s) \<Longrightarrow> c_blocked s"
  by (auto simp: cond_signal_def c_blocked_def d_blocked_def split: if_splits)

lemma d_blocked_cond_signal_no_consumer: "\<not> c_blocked s \<Longrightarrow> \<not> d_blocked (cond_signal ch s)"
  by (simp add: cond_signal_def c_blocked_def d_blocked_def)

lemma take_head_frame:
  "take_head limit now q = (f, q') \<Longrightarrow>
     attr_size q' = attr_size q \<and> session_up q' = session_up q \<and>
     dequeue_waiting q' = dequeue_waiting q \<and> mutex_live q' = mutex_live q \<and>
     stopped q' = stopped q"
  by (auto simp: take_head_def advance_begin_def split: if_splits)

lemma dequeue_check_frame:
  assumes "dequeue_check limit now q = (c, q')"
  shows "attr_size q' = attr_size q" "session_up q' = session_up q"
    "mutex_live q' = mutex_live q"
    "c = Waiting \<Longrightarrow> dequeue_waiting q \<and> q' = q \<and> session_up q \<and> (q_begin q = q_end q \<or> stopped q)"
    "c \<noteq> Waiting \<Longrightarrow> \<not> dequeue_waiting q'"
  using assms
  by (auto simp: dequeue_check_def Let_def split: if_splits prod.splits dest!: take_head_frame)

lemma mutex_live_enqueue_at: "mutex_live (snd (snd (enqueue_at q m))) = mutex_live q"
  by (simp add: enqueue_at_def split: prod.splits)

lemma qsys_inv_consumer:
  assumes inv: "qsys_inv s" and pc: "s_cons s = Enter \<and> q = s_queue s\<lparr>dequeue_waiting := True\<rparr> \<or>
      s_cons s = Waiting \<and> q = s_queue s"
    and live: "mutex_live (s_queue s)"
  shows "qsys_inv (consumer_moves ch (dequeue_check limit now q) s)"
proof -
  obtain c q' where r: "dequeue_check limit now q = (c, q')" by fastforce
  note f = dequeue_check_frame [OF r]
  show ?thesis
  proof (cases "session_up q")
    case True
    then show ?thesis
      using inv pc live f r
      by (cases "c = Waiting")
        (auto simp: consumer_moves_def qsys_inv_def c_blocked_def d_blocked_def)
  next
    case False
    then have "c \<noteq> Waiting" using f(4) by blast
    define s1 where "s1 = s\<lparr>s_queue := q', s_cons := c, c_woken := False\<rparr>"
    have "\<not> c_blocked s1" using \<open>c \<noteq> Waiting\<close> by (simp add: s1_def c_blocked_def)
    then have "\<not> d_blocked (cond_signal ch s1)" "\<not> c_blocked (cond_signal ch s1)"
      using d_blocked_cond_signal_no_consumer c_blocked_cond_signal_mono by blast+
    then show ?thesis
      using False \<open>c \<noteq> Waiting\<close> inv pc live f r
      by (auto simp: consumer_moves_def qsys_inv_def s1_def Let_def)
  qed
qed

lemma signal_unblocks:
  assumes "qsys_inv s"
  shows "\<not> c_blocked (cond_signal ch (s\<lparr>s_queue := q\<rparr>))"
    and "d_blocked (cond_signal ch (s\<lparr>s_queue := q\<rparr>)) \<Longrightarrow> s_dest s = DWait \<and> s_cons s = Waiting"
    and "s_dest s = DIdle \<Longrightarrow> \<not> c_blocked (cond_signal ch (s\<lparr>s_queue := q, s_dest := DLock\<rparr>))"
    and "\<not> d_blocked (cond_signal ch (s\<lparr>s_queue := q, s_dest := DLock\<rparr>))"
  using assms
  by (auto simp: cond_signal_def c_blocked_def d_blocked_def qsys_inv_def split: if_splits)

lemma qsys_inv_step:
  assumes "qstep s s'" and inv: "qsys_inv s"
  shows "qsys_inv s'"
  using assms(1)
proof cases
  case (enqueue_up ch m)
  then have "s_dest s \<noteq> DDone"
    using inv by (auto simp: qsys_inv_def)
  then show ?thesis
    using inv enqueue_up(1) signal_unblocks(1,2) [OF inv]
    by (auto simp: qsys_inv_def frame_rules mutex_live_enqueue_at enqueue_up(2))
next
  case start_self
  then show ?thesis
    using inv by (auto simp: qsys_inv_def queue_defs c_blocked_def d_blocked_def)
next
  case (enter ch limit now)
  then show ?thesis
    using qsys_inv_consumer [OF inv] by (simp add: dequeue_enter_def)
next
  case (resume ch limit now)
  then have "mutex_live (s_queue s)"
    using inv by (auto simp: qsys_inv_def)
  then show ?thesis
    using qsys_inv_consumer [OF inv] resume by simp
next
  case (destroy_call ch)
  then show ?thesis
    using inv signal_unblocks(3,4) [OF inv] by (auto simp: qsys_inv_def queue_defs)
next
  case destroy_waits
  then show ?thesis
    using inv by (auto simp: qsys_inv_def destroy_queue_finish_def c_blocked_def d_blocked_def split: if_splits)
next
  case (destroy_done q')
  then show ?thesis
    using inv by (auto simp: qsys_inv_def destroy_queue_finish_def c_blocked_def d_blocked_def split: if_splits)
qed (use inv signal_unblocks(1,2) [OF inv] in
     \<open>auto simp: qsys_inv_def queue_defs dequeue_call_def\<close>)

lemma qsys_inv_reachable: "qstep\<^sup>*\<^sup>* s s' \<Longrightarrow> qsys_inv s \<Longrightarrow> qsys_inv s'"
  by (induction rule: rtranclp_induct) (auto dest: qsys_inv_step)

section \<open>Properties\<close>

text \<open>
  C3: after any history of insertions and non-blocking removals (each with its own latency
  limit and clock readings) on a queue of at least three slots that
  \<^verbatim>\<open>create_queue\<close> returned, the messages delivered followed by the messages still in
  the ring form a subsequence of the messages inserted: nothing is reordered, duplicated
  or made up.
\<close>

theorem queue_history_in_order:
  assumes "create_queue_at r_mutex r_cond (Some ms) q0 n = (EOK, q)" and "3 \<le> n" and "length ms = n"
    and "run_ops ring_put ring_get ops q = (out, q')"
  shows "subseq (out @ contents q') (inputs ops) \<and> length (contents q') \<le> n"
proof -
  have q: "ring_ok n q" "contents q = []"
    using create_queue_at_ok [OF assms(1)] assms(2,3) by (auto simp: ring_ok_def)
  have "ring_ok n q'"
    using can_ring.run_ok [OF q(1) assms(4)] .
  then have "length (contents q') \<le> n"
    using length_contents_le by (auto simp: ring_ok_def)
  then show ?thesis
    using can_ring.run_subseq [OF q(1) assms(4)] q(2) by simp
qed

definition sample_msg :: "u32 \<Rightarrow> can_msg" where
  "sample_msg t = blank_msg\<lparr>m_mid := t, m_timestamp := t\<rparr>"

lemma fresh_queue_created:
  "create_queue_at EOK EOK (Some (replicate n blank_msg)) blank_queue n = (EOK, fresh_queue n)"
  by (simp add: fresh_queue_def create_queue_at_def)

lemmas queue_eval =
  ring_put_def ring_get_def enqueue_at_def enqueue_indices_def fetch_option_def
  dequeue_noblock_def dequeue_noblock_loop.simps take_head_def advance_begin_def stale_def
  fresh_queue_def create_queue_at_def blank_queue_def

theorem queue_history_in_order_witness:
  "let ops = [Put (sample_msg 1), Put (sample_msg 2), Get (0, \<lambda>i. 9), Put (sample_msg 3)] in
   run_ops ring_put ring_get ops (fresh_queue 3) =
     ([sample_msg 1], snd (run_ops ring_put ring_get ops (fresh_queue 3))) \<and>
   subseq ([sample_msg 1] @ contents (snd (run_ops ring_put ring_get ops (fresh_queue 3)))) (inputs ops)"
proof -
  let ?ops = "[Put (sample_msg 1), Put (sample_msg 2), Get (0, \<lambda>i. 9), Put (sample_msg 3)]"
  have "fst (run_ops ring_put ring_get ?ops (fresh_queue 3)) = [sample_msg 1]"
    by (simp add: queue_eval numeral_3_eq_3)
  then have run: "run_ops ring_put ring_get ?ops (fresh_queue 3) =
     ([sample_msg 1], snd (run_ops ring_put ring_get ?ops (fresh_queue 3)))"
    by (simp add: prod_eq_iff)
  show ?thesis
    using queue_history_in_order [OF fresh_queue_created _ _ run] run by simp
qed

text \<open>
  C5: \<^verbatim>\<open>enqueue\<close> on a live ring: it returns \<^verbatim>\<open>EOK\<close>, and with at most
  \<^verbatim>\<open>size - 2\<close> messages stored it appends the message and loses nothing. In every state
  the new contents are exactly \<open>enqueue_spec\<close>: the oldest message goes when a ring that has
  wrapped around is full, the oldest two when a ring that has not wrapped around is full.
\<close>

theorem enqueue_functional:
  assumes "queue_wf q" and "session_up q" and "attr_size q \<noteq> 0"
  shows "fst (enqueue_at q m) = EOK \<and>
    contents (snd (snd (enqueue_at q m))) = enqueue_spec q m \<and>
    (length (contents q) < attr_size q - 1 \<longrightarrow>
      contents (snd (snd (enqueue_at q m))) = contents q @ [m])"
proof (intro conjI impI)
  show "fst (enqueue_at q m) = EOK"
    using assms by (simp add: enqueue_at_def split: prod.splits)
  show spec: "contents (snd (snd (enqueue_at q m))) = enqueue_spec q m"
    using assms by (rule contents_enqueue_at)
  assume "length (contents q) < attr_size q - 1"
  then show "contents (snd (snd (enqueue_at q m))) = contents q @ [m]"
    using assms by (simp add: spec enqueue_spec_room)
qed

theorem enqueue_functional_witness:
  "contents (snd (snd (enqueue_at (fresh_queue 15) (sample_msg 7)))) = [sample_msg 7]"
  using enqueue_functional [OF fresh_queue_ok(1,2), of 15 "sample_msg 7"]
  by (auto simp: fresh_queue_ok)

text \<open>
  C6: on a well-formed queue \<^verbatim>\<open>dequeue_noblock\<close> always returns. It discards the
  messages at the front that are too old when their turn comes, hands over the first
  message that is not and leaves the rest in order, or empties the ring and returns NULL;
  it never reads outside the ring. With no latency limit it takes exactly the oldest
  message.
\<close>

theorem dequeue_noblock_correct:
  assumes "queue_wf q" and "session_up q"
  shows "\<exists>f q' old. dequeue_noblock (Some q) limit clk = Some (f, Some q') \<and> queue_wf q' \<and>
    f \<noteq> Wild \<and> (\<forall>j < length old. stale limit (clk j) (old ! j)) \<and>
    (case f of Msg m \<Rightarrow> contents q = old @ m # contents q' \<and> \<not> stale limit (clk (length old)) m
     | _ \<Rightarrow> contents q = old \<and> contents q' = []) \<and>
    (limit = 0 \<longrightarrow> old = [])"
proof -
  obtain f q' where l: "dequeue_noblock_loop limit clk 0 q = Some (f, q')"
    and q': "f \<noteq> Wild" "queue_wf q'"
      "first_fresh limit clk 0 (contents q) = (fetch_option f, contents q')"
    using dequeue_noblock_loop_refines [OF assms(1), of limit clk 0] by metis
  obtain old where old: "\<forall>j < length old. stale limit (clk j) (old ! j)"
    "contents q = old @ (case fetch_option f of None \<Rightarrow> [] | Some m \<Rightarrow> [m]) @ contents q'"
    "fetch_option f = None \<longrightarrow> contents q' = []"
    "\<forall>m. fetch_option f = Some m \<longrightarrow> \<not> stale limit (clk (length old)) m"
    using first_fresh_split [OF q'(3)] by auto
  have "limit = 0 \<longrightarrow> old = []"
    using old(1) by (auto simp: stale_def dest: spec [of _ 0])
  moreover have "case f of Msg m \<Rightarrow> contents q = old @ m # contents q' \<and> \<not> stale limit (clk (length old)) m
     | _ \<Rightarrow> contents q = old \<and> contents q' = []"
    using old(2-4) by (auto simp: fetch_option_def split: fetch.splits)
  ultimately show ?thesis
    using assms(2) l q'(1,2) old(1) by (auto simp: dequeue_noblock_def)
qed

theorem dequeue_noblock_correct_witness:
  "\<exists>q'. dequeue_noblock (Some (fresh_queue 3)) 5 (\<lambda>i. 0) = Some (Null, Some q')"
proof -
  have "queue_wf (fresh_queue 3)" "session_up (fresh_queue 3)" "contents (fresh_queue 3) = []"
    by (simp_all add: fresh_queue_ok)
  with dequeue_noblock_correct [of "fresh_queue 3" 5 "\<lambda>i. 0"] obtain f q' where
    "dequeue_noblock (Some (fresh_queue 3)) 5 (\<lambda>i. 0) = Some (f, Some q')" "f \<noteq> Wild" "\<nexists>m. f = Msg m"
    by (auto split: fetch.splits)
  then show ?thesis
    by (cases f) auto
qed

text \<open>
  C7: no lost wake-up and no stuck shutdown. Whatever producers, stop and start requests
  and shutdowns do, a \<^verbatim>\<open>dequeue\<close> that sleeps without a signal on its way has an empty or
  stopped queue in a live session; a \<^verbatim>\<open>destroy_queue\<close> that sleeps has a consumer that
  is awake or about to be, and once that consumer runs the destroyer can finish.
\<close>

theorem queue_no_lost_wakeup:
  assumes "qstep\<^sup>*\<^sup>* (qsys_init q) s"
    and "attr_size q \<noteq> 0" and "mutex_live q" and "\<not> dequeue_waiting q"
  shows "(c_blocked s \<longrightarrow> session_up (s_queue s) \<and>
      (q_begin (s_queue s) = q_end (s_queue s) \<or> stopped (s_queue s))) \<and>
    (d_blocked s \<longrightarrow> s_cons s = Waiting \<and> c_woken s \<and>
      (let s1 = consumer_moves False (dequeue_check limit now (s_queue s)) s in
       s_cons s1 = Finished Null \<and> \<not> d_blocked s1 \<and> destroy_queue_finish (s_queue s1) \<noteq> None))"
proof (intro conjI impI)
  have inv: "qsys_inv s"
    using assms by (intro qsys_inv_reachable [OF assms(1)] qsys_inv_init)
  show "c_blocked s \<Longrightarrow> session_up (s_queue s)"
    and "c_blocked s \<Longrightarrow> q_begin (s_queue s) = q_end (s_queue s) \<or> stopped (s_queue s)"
    using inv by (auto simp: qsys_inv_def)
  assume d: "d_blocked s"
  then show c: "s_cons s = Waiting" and "c_woken s"
    using inv by (auto simp: qsys_inv_def c_blocked_def d_blocked_def)
  have "\<not> session_up (s_queue s)"
    using d inv by (auto simp: qsys_inv_def d_blocked_def)
  then show "let s1 = consumer_moves False (dequeue_check limit now (s_queue s)) s in
       s_cons s1 = Finished Null \<and> \<not> d_blocked s1 \<and> destroy_queue_finish (s_queue s1) \<noteq> None"
    by (simp add: consumer_moves_def dequeue_check_def cond_signal_def c_blocked_def
        d_blocked_def destroy_queue_finish_def Let_def)
qed

definition blocked_both :: qsys where
  "blocked_both = \<lparr>s_queue = (fresh_queue 15)\<lparr>dequeue_waiting := True, session_up := False\<rparr>,
     s_cons = Waiting, c_woken = True, s_dest = DWait, d_woken = False\<rparr>"

text \<open>The consumer calls, enters and sleeps; the destroyer signals, locks and sleeps.\<close>

lemma blocked_both_reachable: "qstep\<^sup>*\<^sup>* (qsys_init (fresh_queue 15)) blocked_both"
proof -
  let ?q = "fresh_queue 15"
  let ?s1 = "(qsys_init ?q)\<lparr>s_cons := Enter\<rparr>"
  let ?s2 = "?s1\<lparr>s_queue := ?q\<lparr>dequeue_waiting := True\<rparr>, s_cons := Waiting\<rparr>"
  let ?s3 = "?s2\<lparr>s_queue := ?q\<lparr>dequeue_waiting := True, session_up := False\<rparr>,
       s_dest := DLock, c_woken := True\<rparr>"
  have up: "session_up ?q" "mutex_live ?q" "q_begin ?q = 0" "q_end ?q = 0"
    by (simp_all add: fresh_queue_def create_queue_at_def)
  have "qstep (qsys_init ?q) ?s1"
    using qstep.call [of "qsys_init ?q" Null] up by (simp add: qsys_init_def dequeue_call_def)
  moreover have "qstep ?s1 ?s2"
    using qstep.enter [of ?s1 True 0 0] up
    by (simp add: qsys_init_def dequeue_enter_def dequeue_check_def consumer_moves_def)
  moreover have "qstep ?s2 ?s3"
    using qstep.destroy_call [of ?s2 True] up
    by (simp add: qsys_init_def cond_signal_def c_blocked_def queue_defs)
  moreover have "qstep ?s3 blocked_both"
    using qstep.destroy_waits [of ?s3]
    by (simp add: qsys_init_def destroy_queue_finish_def blocked_both_def)
  ultimately show ?thesis
    by (meson converse_rtranclp_into_rtranclp rtranclp.rtrancl_refl)
qed

theorem queue_no_lost_wakeup_witness:
  "d_blocked blocked_both \<and>
   \<not> d_blocked (consumer_moves False (dequeue_check 0 0 (s_queue blocked_both)) blocked_both)"
proof -
  have "d_blocked blocked_both"
    by (simp add: blocked_both_def d_blocked_def)
  moreover have "attr_size (fresh_queue 15) \<noteq> 0" "mutex_live (fresh_queue 15)"
    "\<not> dequeue_waiting (fresh_queue 15)"
    by (simp_all add: fresh_queue_def create_queue_at_def)
  ultimately show ?thesis
    using queue_no_lost_wakeup [OF blocked_both_reachable, of 0 0] by (simp add: Let_def)
qed

text \<open>
  \<^verbatim>\<open>destroy_queue\<close> protects a consumer only while it sleeps. A consumer that has
  passed the \<^verbatim>\<open>session_up\<close> test of \<^verbatim>\<open>dequeue\<close> but not yet locked the mutex is
  overtaken: the queue is destroyed, its mutex with it, and the consumer's next action is
  to lock that mutex.
\<close>

lemma destroy_overtakes_consumer:
  "\<exists>s. qstep\<^sup>*\<^sup>* (qsys_init (fresh_queue 15)) s \<and> s_dest s = DDone \<and> s_cons s = Enter \<and>
     \<not> mutex_live (s_queue s)"
proof -
  let ?q = "fresh_queue 15"
  let ?s1 = "(qsys_init ?q)\<lparr>s_cons := Enter\<rparr>"
  let ?s2 = "?s1\<lparr>s_queue := ?q\<lparr>session_up := False\<rparr>, s_dest := DLock\<rparr>"
  let ?s3 = "?s2\<lparr>s_queue := the (destroy_queue_finish (?q\<lparr>session_up := False\<rparr>)), s_dest := DDone\<rparr>"
  have q: "session_up ?q" "\<not> dequeue_waiting ?q"
    by (simp_all add: fresh_queue_def create_queue_at_def)
  have "qstep (qsys_init ?q) ?s1"
    using qstep.call [of "qsys_init ?q" Null] q by (simp add: qsys_init_def dequeue_call_def)
  moreover have "qstep ?s1 ?s2"
    using qstep.destroy_call [of ?s1 True]
    by (simp add: qsys_init_def cond_signal_def c_blocked_def d_blocked_def queue_defs)
  moreover have "qstep ?s2 ?s3"
    using qstep.destroy_done [of ?s2] q
    by (simp add: qsys_init_def destroy_queue_finish_def)
  ultimately have "qstep\<^sup>*\<^sup>* (qsys_init ?q) ?s3"
    by (meson converse_rtranclp_into_rtranclp rtranclp.rtrancl_refl)
  moreover have "\<not> mutex_live (s_queue ?s3)"
    using q by (simp add: destroy_queue_finish_def)
  ultimately show ?thesis
    by (intro exI [of _ ?s3]) simp
qed

text \<open>
  A ring that is used up to its last slot and has had one message removed holds
  \<^verbatim>\<open>size - 1\<close> messages; the next \<^verbatim>\<open>enqueue\<close> reports success, calls no drop callback
  and leaves the queue empty: all the stored messages and the new one are lost.
\<close>

lemma enqueue_loses_all:
  assumes "queue_wf q" and "session_up q" and "collapses q" and "attr_size q \<noteq> 0"
  shows "length (contents q) = attr_size q - 1 \<and>
    fst (enqueue_at q m) = EOK \<and> \<not> fst (snd (enqueue_at q m)) \<and>
    contents (snd (snd (enqueue_at q m))) = []"
  using assms contents_enqueue_collapse [of q m]
  by (auto simp: length_contents collapses_def enqueue_at_def enqueue_indices_def queue_wf_def)

definition collapsing_queue :: queue where
  "collapsing_queue = snd (run_ops ring_put ring_get
     [Put (sample_msg 1), Put (sample_msg 2), Put (sample_msg 3), Get (0, \<lambda>i. 0)] (fresh_queue 3))"

lemma collapsing_queue_eval:
  "attr_size collapsing_queue = 3" "q_begin collapsing_queue = 1" "q_end collapsing_queue = 3"
  "session_up collapsing_queue" "length (data collapsing_queue) = 3"
  by (simp_all add: collapsing_queue_def queue_eval numeral_3_eq_3)

lemma enqueue_loses_all_witness:
  "length (contents collapsing_queue) = 2 \<and>
   contents (snd (snd (enqueue_at collapsing_queue (sample_msg 4)))) = []"
  using enqueue_loses_all [of collapsing_queue "sample_msg 4"]
  by (simp add: collapsing_queue_eval queue_wf_def collapses_def)

end
