(* ===== verification/Bittiming.thy ===== *)
theory Bittiming
  imports Prelude "HOL-Library.Monad_Syntax"
begin

unbundle bit_operations_syntax

text \<open>
  Bit timing: \<^verbatim>\<open>dev/bittiming.c\<close>, \<^verbatim>\<open>dev/calc_bittiming.c\<close> and
  \<^verbatim>\<open>can_bit_time\<close> of \<^verbatim>\<open>linux/can/bittiming.h\<close>, all in 32-bit (and where the
  code has it 64-bit) unsigned arithmetic. A division by zero is \<open>SigFPE\<close>; the search
  loop of \<^verbatim>\<open>can_calc_bittiming\<close> is a partial function whose \<open>None\<close> is a loop that
  never ends, and is shown to end. The theorems: a successful calculation stays in the
  ranges the controller can encode, hits the requested bit rate within 5.1 percent, and no
  setting the search visits comes closer.
\<close>

section \<open>Data\<close>

record can_bittiming =
  bt_bitrate :: u32
  bt_sample_point :: u32
  bt_tq :: u32
  bt_prop_seg :: u32
  bt_phase_seg1 :: u32
  bt_phase_seg2 :: u32
  bt_sjw :: u32
  bt_brp :: u32

record can_bittiming_const =
  btc_tseg1_min :: u32
  btc_tseg1_max :: u32
  btc_tseg2_min :: u32
  btc_tseg2_max :: u32
  btc_sjw_max :: u32
  btc_brp_min :: u32
  btc_brp_max :: u32
  btc_brp_inc :: u32

text \<open>The value of a computation that may divide by zero.\<close>

datatype 'a exec = SigFPE | Ret 'a

definition udiv :: "'a::len word \<Rightarrow> 'a word \<Rightarrow> 'a word option" where
  "udiv a b = (if b = 0 then None else Some (a div b))"

abbreviation UINT_MAX :: u32 where
  "UINT_MAX \<equiv> - 1"

abbreviation CAN_SYNC_SEG :: u32 where
  "CAN_SYNC_SEG \<equiv> 1"

definition CAN_CALC_MAX_ERROR :: u32 where
  "CAN_CALC_MAX_ERROR = 50"

definition can_bit_time :: "can_bittiming \<Rightarrow> u32" where
  "can_bit_time bt = CAN_SYNC_SEG + bt_prop_seg bt + bt_phase_seg1 bt + bt_phase_seg2 bt"

text \<open>The kernel's \<^verbatim>\<open>clamp\<close>, and its \<^verbatim>\<open>abs\<close> on an unsigned argument (read as signed).\<close>

definition clamp :: "u32 \<Rightarrow> u32 \<Rightarrow> u32 \<Rightarrow> u32" where
  "clamp v lo hi = (if hi \<le> v then hi else if v \<le> lo then lo else v)"

definition abs32 :: "u32 \<Rightarrow> u32" where
  "abs32 x = (if sint x < 0 then - x else x)"

section \<open>Synchronisation jump width\<close>

definition can_sjw_set_default :: "can_bittiming \<Rightarrow> can_bittiming" where
  "can_sjw_set_default bt =
     (if bt_sjw bt \<noteq> 0 then bt
      else bt\<lparr>bt_sjw := max 1 (min (bt_phase_seg1 bt) (bt_phase_seg2 bt div 2))\<rparr>)"

definition can_sjw_check :: "can_bittiming \<Rightarrow> can_bittiming_const \<Rightarrow> rc" where
  "can_sjw_check bt btc =
     (if btc_sjw_max btc < bt_sjw bt then Err EINVAL
      else if bt_phase_seg1 bt < bt_sjw bt then Err EINVAL
      else if bt_phase_seg2 bt < bt_sjw bt then Err EINVAL
      else EOK)"

section \<open>Checking given segments\<close>

text \<open>
  \<^verbatim>\<open>can_fixup_bittiming\<close>; \<open>freq\<close> is \<^verbatim>\<open>priv->clock.freq\<close>. The error returns carry
  the structure as far as it has been changed.
\<close>

definition fixup_brp64 :: "u32 \<Rightarrow> can_bittiming \<Rightarrow> can_bittiming_const \<Rightarrow> u64" where
  "fixup_brp64 freq bt btc =
     (let b0 = ucast freq * ucast (bt_tq bt);
          b1 = (if 1 < btc_brp_inc btc then b0 div ucast (btc_brp_inc btc) else b0);
          b2 = (b1 + (500000000 - 1)) div 1000000000
      in if 1 < btc_brp_inc btc then b2 * ucast (btc_brp_inc btc) else b2)"

definition can_fixup_bittiming ::
  "u32 \<Rightarrow> can_bittiming \<Rightarrow> can_bittiming_const \<Rightarrow> (rc \<times> can_bittiming) exec" where
  "can_fixup_bittiming freq bt btc =
     (let tseg1 = bt_prop_seg bt + bt_phase_seg1 bt in
      if tseg1 < btc_tseg1_min btc then Ret (Err EINVAL, bt)
      else if btc_tseg1_max btc < tseg1 then Ret (Err EINVAL, bt)
      else if bt_phase_seg2 bt < btc_tseg2_min btc then Ret (Err EINVAL, bt)
      else if btc_tseg2_max btc < bt_phase_seg2 bt then Ret (Err EINVAL, bt)
      else let bt1 = can_sjw_set_default bt in
      if can_sjw_check bt1 btc \<noteq> EOK then Ret (can_sjw_check bt1 btc, bt1)
      else let bt2 = bt1\<lparr>bt_brp := ucast (fixup_brp64 freq bt1 btc)\<rparr> in
      if bt_brp bt2 < btc_brp_min btc then Ret (Err EINVAL, bt2)
      else if btc_brp_max btc < bt_brp bt2 then Ret (Err EINVAL, bt2)
      else case (do {
             rate \<leftarrow> udiv freq (bt_brp bt2 * can_bit_time bt2);
             sp \<leftarrow> udiv ((CAN_SYNC_SEG + tseg1) * 1000) (can_bit_time bt2);
             tq \<leftarrow> udiv (ucast (bt_brp bt2) * 1000000000 + ucast (freq div 2)) (ucast freq :: u64);
             Some (bt2\<lparr>bt_bitrate := rate, bt_sample_point := sp, bt_tq := ucast tq\<rparr>)
           }) of
           None \<Rightarrow> SigFPE
         | Some bt3 \<Rightarrow> Ret (EOK, bt3))"

definition can_validate_bitrate :: "can_bittiming \<Rightarrow> u32 list \<Rightarrow> rc" where
  "can_validate_bitrate bt bitrate_const =
     (if bt_bitrate bt \<in> set bitrate_const then EOK else Err EINVAL)"

section \<open>Searching for segments\<close>

text \<open>
  One round of the loop of \<^verbatim>\<open>can_update_sample_point\<close>: the segment lengths of round
  \<open>i\<close> and their sample point.
\<close>

definition sample_round :: "can_bittiming_const \<Rightarrow> u32 \<Rightarrow> u32 \<Rightarrow> u32 \<Rightarrow> (u32 \<times> u32 \<times> u32) option" where
  "sample_round btc nominal tseg i =
     (let t2 = clamp (tseg + CAN_SYNC_SEG - (nominal * (tseg + CAN_SYNC_SEG)) div 1000 - i)
                 (btc_tseg2_min btc) (btc_tseg2_max btc);
          t1 = tseg - t2;
          (tseg1, tseg2) = (if btc_tseg1_max btc < t1
                            then (btc_tseg1_max btc, tseg - btc_tseg1_max btc) else (t1, t2))
      in do { sp \<leftarrow> udiv (1000 * (tseg + CAN_SYNC_SEG - tseg2)) (tseg + CAN_SYNC_SEG);
              Some (tseg1, tseg2, sp) })"

text \<open>
  The running best of the loop: sample point, its error and the segments. A round is
  taken only when its sample point does not exceed the nominal one and its error is
  smaller.
\<close>

record sample_best =
  sb_point :: u32
  sb_error :: u32
  sb_tseg1 :: u32
  sb_tseg2 :: u32

definition sample_step ::
  "can_bittiming_const \<Rightarrow> u32 \<Rightarrow> u32 \<Rightarrow> u32 \<Rightarrow> sample_best \<Rightarrow> sample_best option" where
  "sample_step btc nominal tseg i sb = do {
     (tseg1, tseg2, sp) \<leftarrow> sample_round btc nominal tseg i;
     Some (if sp \<le> nominal \<and> abs32 (nominal - sp) < sb_error sb
           then \<lparr>sb_point = sp, sb_error = abs32 (nominal - sp), sb_tseg1 = tseg1, sb_tseg2 = tseg2\<rparr>
           else sb) }"

definition can_update_sample_point ::
  "can_bittiming_const \<Rightarrow> u32 \<Rightarrow> u32 \<Rightarrow> u32 \<Rightarrow> u32 \<Rightarrow> sample_best option" where
  "can_update_sample_point btc nominal tseg tseg1 tseg2 = do {
     sb \<leftarrow> sample_step btc nominal tseg 0
             \<lparr>sb_point = 0, sb_error = UINT_MAX, sb_tseg1 = tseg1, sb_tseg2 = tseg2\<rparr>;
     sample_step btc nominal tseg 1 sb }"

text \<open>The variables of \<^verbatim>\<open>can_calc_bittiming\<close> that live across iterations.\<close>

record calc =
  best_bitrate_error :: u32
  best_sample_point_error :: u32
  best_tseg :: u32
  best_brp :: u32
  c_tseg1 :: u32
  c_tseg2 :: u32

definition calc_init :: calc where
  "calc_init = \<lparr>best_bitrate_error = UINT_MAX, best_sample_point_error = UINT_MAX,
     best_tseg = 0, best_brp = 0, c_tseg1 = 0, c_tseg2 = 0\<rparr>"

text \<open>
  The prescaler and bit rate an iteration tries; \<open>None\<close> inside is the \<^verbatim>\<open>continue\<close> for a
  prescaler out of range.
\<close>

definition calc_candidate ::
  "u32 \<Rightarrow> can_bittiming_const \<Rightarrow> u32 \<Rightarrow> u32 \<Rightarrow> (u32 \<times> u32) option option" where
  "calc_candidate freq btc rate tseg = do {
     let tsegall = CAN_SYNC_SEG + tseg div 2;
     brp0 \<leftarrow> udiv freq (tsegall * rate);
     brp1 \<leftarrow> udiv (brp0 + tseg mod 2) (btc_brp_inc btc);
     let brp = brp1 * btc_brp_inc btc;
     if brp < btc_brp_min btc \<or> btc_brp_max btc < brp then Some None
     else do { bitrate \<leftarrow> udiv freq (brp * tsegall); Some (Some (brp, bitrate)) } }"

text \<open>One iteration: whether it breaks out of the loop, and the variables after it.\<close>

definition calc_body ::
  "u32 \<Rightarrow> can_bittiming_const \<Rightarrow> u32 \<Rightarrow> u32 \<Rightarrow> u32 \<Rightarrow> calc \<Rightarrow> (bool \<times> calc) option" where
  "calc_body freq btc rate nominal tseg c = do {
     cand \<leftarrow> calc_candidate freq btc rate tseg;
     case cand of
       None \<Rightarrow> Some (False, c)
     | Some (brp, bitrate) \<Rightarrow>
         let err = abs32 (rate - bitrate) in
         if best_bitrate_error c < err then Some (False, c)
         else
           let c1 = (if err < best_bitrate_error c
                     then c\<lparr>best_sample_point_error := UINT_MAX\<rparr> else c) in
           do {
             sb \<leftarrow> can_update_sample_point btc nominal (tseg div 2) (c_tseg1 c1) (c_tseg2 c1);
             let c2 = c1\<lparr>c_tseg1 := sb_tseg1 sb, c_tseg2 := sb_tseg2 sb\<rparr>;
             if best_sample_point_error c2 \<le> sb_error sb then Some (False, c2)
             else Some (err = 0 \<and> sb_error sb = 0,
                        c2\<lparr>best_sample_point_error := sb_error sb, best_bitrate_error := err,
                           best_tseg := tseg div 2, best_brp := brp\<rparr>) } }"

text \<open>The loop bounds: even values round the prescaler down, odd values round it up.\<close>

definition calc_tseg_first :: "can_bittiming_const \<Rightarrow> u32" where
  "calc_tseg_first btc = (btc_tseg1_max btc + btc_tseg2_max btc) * 2 + 1"

definition calc_tseg_last :: "can_bittiming_const \<Rightarrow> u32" where
  "calc_tseg_last btc = (btc_tseg1_min btc + btc_tseg2_min btc) * 2"

partial_function (option) calc_loop ::
  "u32 \<Rightarrow> can_bittiming_const \<Rightarrow> u32 \<Rightarrow> u32 \<Rightarrow> u32 \<Rightarrow> calc \<Rightarrow> calc exec option" where
  "calc_loop freq btc rate nominal tseg c =
     (if tseg < calc_tseg_last btc then Some (Ret c)
      else case calc_body freq btc rate nominal tseg c of
             None \<Rightarrow> Some SigFPE
           | Some (brk, c') \<Rightarrow>
               if brk then Some (Ret c')
               else calc_loop freq btc rate nominal (tseg - 1) c')"

definition nominal_sample_point :: "can_bittiming \<Rightarrow> u32" where
  "nominal_sample_point bt =
     (if bt_sample_point bt \<noteq> 0 then bt_sample_point bt
      else if 800000 < bt_bitrate bt then 750
      else if 500000 < bt_bitrate bt then 800
      else 875)"

text \<open>
  The part of \<^verbatim>\<open>can_calc_bittiming\<close> after the loop; \<open>calc_fill\<close> stores the sample
  point, the time quantum and the segments and sets the default jump width.
\<close>

definition calc_fill :: "can_bittiming \<Rightarrow> u32 \<Rightarrow> sample_best \<Rightarrow> can_bittiming" where
  "calc_fill bt tq sb = can_sjw_set_default
     (bt\<lparr>bt_sample_point := sb_point sb, bt_tq := tq,
         bt_prop_seg := sb_tseg1 sb div 2,
         bt_phase_seg1 := sb_tseg1 sb - sb_tseg1 sb div 2,
         bt_phase_seg2 := sb_tseg2 sb\<rparr>)"

definition calc_finish ::
  "u32 \<Rightarrow> can_bittiming_const \<Rightarrow> can_bittiming \<Rightarrow> calc \<Rightarrow> (rc \<times> can_bittiming) option" where
  "calc_finish freq btc bt c = do {
     v \<leftarrow> (if best_bitrate_error c \<noteq> 0
           then udiv (ucast (best_bitrate_error c) * 1000) (ucast (bt_bitrate bt) :: u64)
           else Some 0);
     if CAN_CALC_MAX_ERROR < (ucast v :: u32) then Some (Err EINVAL, bt)
     else do {
       sb \<leftarrow> can_update_sample_point btc (nominal_sample_point bt) (best_tseg c) (c_tseg1 c) (c_tseg2 c);
       tq \<leftarrow> udiv (ucast (best_brp c) * 1000 * 1000 * 1000) (ucast freq :: u64);
       let bt1 = calc_fill bt (ucast tq) sb;
       if can_sjw_check bt1 btc \<noteq> EOK then Some (can_sjw_check bt1 btc, bt1)
       else do {
         let bt2 = bt1\<lparr>bt_brp := best_brp c\<rparr>;
         bitrate \<leftarrow> udiv freq (bt_brp bt2 * can_bit_time bt2);
         Some (EOK, bt2\<lparr>bt_bitrate := bitrate\<rparr>) } } }"

definition can_calc_bittiming ::
  "u32 \<Rightarrow> can_bittiming \<Rightarrow> can_bittiming_const \<Rightarrow> (rc \<times> can_bittiming) exec option" where
  "can_calc_bittiming freq bt btc =
     (case calc_loop freq btc (bt_bitrate bt) (nominal_sample_point bt)
             (calc_tseg_first btc) calc_init of
        None \<Rightarrow> None
      | Some SigFPE \<Rightarrow> Some SigFPE
      | Some (Ret c) \<Rightarrow>
          (case calc_finish freq btc bt c of None \<Rightarrow> Some SigFPE | Some r \<Rightarrow> Some (Ret r)))"

definition can_get_bittiming ::
  "u32 \<Rightarrow> can_bittiming \<Rightarrow> can_bittiming_const option \<Rightarrow> u32 list option \<Rightarrow>
   (rc \<times> can_bittiming) exec option" where
  "can_get_bittiming freq bt btc bitrate_const =
     (if bt_tq bt = 0 \<and> bt_bitrate bt \<noteq> 0 \<and> btc \<noteq> None
      then can_calc_bittiming freq bt (the btc)
      else if bt_tq bt \<noteq> 0 \<and> bt_bitrate bt = 0 \<and> btc \<noteq> None
      then Some (can_fixup_bittiming freq bt (the btc))
      else if bt_tq bt = 0 \<and> bt_bitrate bt \<noteq> 0 \<and> bitrate_const \<noteq> None
      then Some (Ret (can_validate_bitrate bt (the bitrate_const), bt))
      else Some (Ret (Err EINVAL, bt)))"

text \<open>\<^verbatim>\<open>can_calc_tdco\<close>: the transmitter delay offset and the control mode.\<close>

record can_tdc_const =
  tdco_min :: u32
  tdco_max :: u32

definition CAN_CTRLMODE_TDC_AUTO :: u32 where
  "CAN_CTRLMODE_TDC_AUTO = 0x200"

definition CAN_CTRLMODE_FD_TDC_MASK :: u32 where
  "CAN_CTRLMODE_FD_TDC_MASK = 0x600"

definition can_calc_tdco ::
  "u32 \<Rightarrow> can_tdc_const option \<Rightarrow> can_bittiming \<Rightarrow> u32 \<Rightarrow> u32 \<Rightarrow> u32 \<times> u32" where
  "can_calc_tdco tdco tdc_const dbt ctrlmode ctrlmode_supported =
     (case tdc_const of
        None \<Rightarrow> (tdco, ctrlmode)
      | Some k \<Rightarrow>
          if \<not> has_flag ctrlmode_supported CAN_CTRLMODE_TDC_AUTO then (tdco, ctrlmode)
          else
            let mode = ctrlmode AND NOT CAN_CTRLMODE_FD_TDC_MASK;
                sample_point_in_tc = (CAN_SYNC_SEG + bt_prop_seg dbt + bt_phase_seg1 dbt) * bt_brp dbt
            in if bt_brp dbt = 1 \<or> bt_brp dbt = 2
               then if sample_point_in_tc < tdco_min k then (tdco, mode)
                    else (min sample_point_in_tc (tdco_max k), mode OR CAN_CTRLMODE_TDC_AUTO)
               else (tdco, mode))"

text \<open>The limits of the SJA1000.\<close>

definition sja1000_bittiming_const :: can_bittiming_const where
  "sja1000_bittiming_const = \<lparr>btc_tseg1_min = 1, btc_tseg1_max = 16,
     btc_tseg2_min = 1, btc_tseg2_max = 8, btc_sjw_max = 4,
     btc_brp_min = 1, btc_brp_max = 64, btc_brp_inc = 1\<rparr>"

section \<open>The two rounds of the sample point\<close>

definition btc_ok :: "can_bittiming_const \<Rightarrow> bool" where
  "btc_ok btc \<longleftrightarrow> 1 \<le> btc_tseg1_min btc \<and> btc_tseg1_min btc \<le> btc_tseg1_max btc \<and>
     1 \<le> btc_tseg2_min btc \<and> btc_tseg2_min btc \<le> btc_tseg2_max btc \<and>
     btc_tseg2_max btc < btc_tseg1_max btc \<and> btc_tseg1_max btc \<le> 1000 \<and>
     1 \<le> btc_brp_min btc \<and> btc_brp_max btc \<le> 100000 \<and> 1 \<le> btc_brp_inc btc"

lemma clamp_range: "lo \<le> hi \<Longrightarrow> lo \<le> clamp v lo hi \<and> clamp v lo hi \<le> hi"
  by (auto simp: clamp_def)

lemma sample_round_accepted:
  assumes ok: "btc_ok btc" and r: "sample_round btc nominal tseg i = Some (t1, t2, sp)"
    and acc: "sp \<le> nominal" "nominal \<le> 1000"
    and tseg: "tseg \<le> btc_tseg1_max btc + btc_tseg2_max btc"
  shows "unat t1 + unat t2 = unat tseg" "t1 \<le> btc_tseg1_max btc" "btc_tseg2_min btc \<le> t2" "t2 \<le> btc_tseg2_max btc"
proof -
  define c where "c = clamp (tseg + CAN_SYNC_SEG - (nominal * (tseg + CAN_SYNC_SEG)) div 1000 - i)
                 (btc_tseg2_min btc) (btc_tseg2_max btc)"
  have c: "btc_tseg2_min btc \<le> c" "c \<le> btc_tseg2_max btc"
    using ok clamp_range by (auto simp: c_def btc_ok_def)
  let ?M1 = "unat (btc_tseg1_max btc)" and ?M2 = "unat (btc_tseg2_max btc)"
  have M: "?M1 \<le> 1000" "?M2 < ?M1" "unat c \<le> ?M2"
    using ok c by (auto simp: btc_ok_def word_le_nat_alt word_less_nat_alt)
  have T: "unat tseg \<le> ?M1 + ?M2"
    using tseg M by (simp add: word_le_nat_alt unat_plus_if')
  have sub: "unat (tseg - c) = (if unat c \<le> unat tseg then unat tseg - unat c else unat tseg + 4294967296 - unat c)"
    by (simp add: unat_sub_if_size word_size)
  consider (mid) "tseg - c \<le> btc_tseg1_max btc" | (high) "btc_tseg1_max btc < tseg - c" "c \<le> tseg"
    | (wrap) "btc_tseg1_max btc < tseg - c" "tseg < c"
    by fastforce
  then have "unat t1 + unat t2 = unat tseg \<and> t1 \<le> btc_tseg1_max btc \<and>
      btc_tseg2_min btc \<le> t2 \<and> t2 \<le> btc_tseg2_max btc"
  proof cases
    case mid
    then have "t1 = tseg - c" "t2 = c"
      using r by (auto simp: sample_round_def c_def [symmetric] Let_def split: if_splits bind_splits)
    then show ?thesis
      using mid c sub M by (auto simp: word_le_nat_alt split: if_splits)
  next
    case high
    then have "t1 = btc_tseg1_max btc" "t2 = tseg - btc_tseg1_max btc"
      using r by (auto simp: sample_round_def c_def [symmetric] Let_def split: if_splits bind_splits)
    then show ?thesis
      using high c sub M T by (auto simp: word_le_nat_alt word_less_nat_alt unat_sub_if_size split: if_splits)
  next
    case wrap
    then have "sp = (1000 * (tseg + 1 - (tseg - btc_tseg1_max btc))) div (tseg + 1)"
      using r by (auto simp: sample_round_def c_def [symmetric] udiv_def Let_def split: if_splits bind_splits)
    then have "sp = (1000 * (1 + btc_tseg1_max btc)) div (tseg + 1)"
      by (simp add: algebra_simps)
    moreover have "unat (tseg + 1) \<le> ?M1" "0 < unat (tseg + 1)"
      using wrap M c by (auto simp: word_less_nat_alt unat_plus_if_size word_size word_le_nat_alt)
    moreover have "unat (1000 * (1 + btc_tseg1_max btc)) = 1000 * (1 + ?M1)"
      using M by (simp add: unat_word_ariths)
    ultimately have sp: "unat sp = 1000 * (1 + ?M1) div unat (tseg + 1)"
      and le: "unat (tseg + 1) \<le> ?M1" "0 < unat (tseg + 1)"
      by (simp_all add: unat_div)
    have "1001 * x \<le> 1000 * (1 + y)" if "x \<le> y" "y \<le> 1000" for x y :: nat
    proof -
      have "1001 * x = 1000 * x + x" "1000 * (1 + y) = 1000 * y + 1000" by simp_all
      then show ?thesis using that by simp
    qed
    from this [OF le(1) M(1)] have "1001 * unat (tseg + 1) \<le> 1000 * (1 + ?M1)" .
    then have "1001 \<le> unat sp"
      using le by (simp only: sp less_eq_div_iff_mult_less_eq)
    then show ?thesis
      using acc by (simp add: word_le_nat_alt)
  qed
  then show "unat t1 + unat t2 = unat tseg" "t1 \<le> btc_tseg1_max btc" "btc_tseg2_min btc \<le> t2" "t2 \<le> btc_tseg2_max btc"
    by auto
qed

lemma sample_step_cases:
  assumes "sample_step btc nominal tseg i sb = Some sb'"
  shows "sb' = sb \<or> (sb_error sb' < sb_error sb \<and> sb_point sb' \<le> nominal \<and>
      sample_round btc nominal tseg i = Some (sb_tseg1 sb', sb_tseg2 sb', sb_point sb'))"
  using assms by (auto simp: sample_step_def split: bind_splits if_splits)

lemma can_update_sample_point_found:
  assumes "can_update_sample_point btc nominal tseg t1 t2 = Some sb" and "sb_error sb \<noteq> UINT_MAX"
  obtains i where "sample_round btc nominal tseg i = Some (sb_tseg1 sb, sb_tseg2 sb, sb_point sb)"
    and "sb_point sb \<le> nominal"
proof -
  obtain sb0 where s0: "sample_step btc nominal tseg 0
      \<lparr>sb_point = 0, sb_error = UINT_MAX, sb_tseg1 = t1, sb_tseg2 = t2\<rparr> = Some sb0"
    and s1: "sample_step btc nominal tseg 1 sb0 = Some sb"
    using assms(1) by (auto simp: can_update_sample_point_def split: bind_splits)
  show ?thesis
    using sample_step_cases [OF s0] sample_step_cases [OF s1] assms(2) that by auto
qed

text \<open>The segments passed in matter only when no round is taken.\<close>

lemma can_update_sample_point_indep:
  assumes "can_update_sample_point btc nominal tseg t1 t2 = Some sb" and "sb_error sb \<noteq> UINT_MAX"
  shows "can_update_sample_point btc nominal tseg t1' t2' = Some sb"
  using assms
  by (auto simp: can_update_sample_point_def sample_step_def split: bind_splits if_splits)

lemma can_update_sample_point_error_indep:
  assumes "can_update_sample_point btc nominal tseg t1 t2 = Some sb"
    and "can_update_sample_point btc nominal tseg t1' t2' = Some sb'"
  shows "sb_error sb' = sb_error sb"
  using assms
  by (auto simp: can_update_sample_point_def sample_step_def split: bind_splits if_splits)

lemma abs32_not_UINT_MAX: "abs32 x < UINT_MAX"
proof -
  have "abs32 x \<noteq> UINT_MAX"
  proof
    assume "abs32 x = UINT_MAX"
    then have "x = 1 \<or> x = UINT_MAX" 
      by (auto simp: abs32_def split: if_splits dest: minus_equation_iff [THEN iffD1])
    then show False
      using \<open>abs32 x = UINT_MAX\<close> by (auto simp: abs32_def)
  qed
  then show ?thesis
    by (simp add: word_order.not_eq_extremum)
qed

section \<open>The search\<close>

text \<open>What the iteration at \<open>tseg\<close> offers: a prescaler and its bit rate error.\<close>

definition offers :: "u32 \<Rightarrow> can_bittiming_const \<Rightarrow> u32 \<Rightarrow> u32 \<Rightarrow> u32 \<Rightarrow> u32 \<Rightarrow> u32 \<Rightarrow> bool" where
  "offers freq btc rate nominal tseg brp err \<longleftrightarrow>
     (\<exists>bitrate sb. calc_candidate freq btc rate tseg = Some (Some (brp, bitrate)) \<and>
        err = abs32 (rate - bitrate) \<and>
        can_update_sample_point btc nominal (tseg div 2) 0 0 = Some sb \<and> sb_error sb \<noteq> UINT_MAX)"

definition calc_inv :: "u32 \<Rightarrow> can_bittiming_const \<Rightarrow> u32 \<Rightarrow> u32 \<Rightarrow> u32 set \<Rightarrow> calc \<Rightarrow> bool" where
  "calc_inv freq btc rate nominal visited c \<longleftrightarrow>
     (best_bitrate_error c = UINT_MAX \<or>
      (\<exists>tseg \<in> visited. best_tseg c = tseg div 2 \<and>
         offers freq btc rate nominal tseg (best_brp c) (best_bitrate_error c))) \<and>
     (\<forall>tseg \<in> visited. \<forall>brp err. offers freq btc rate nominal tseg brp err \<longrightarrow> best_bitrate_error c \<le> err)"

lemma offers_iff:
  assumes "calc_candidate freq btc rate tseg = Some (Some (brp, bitrate))"
    and "can_update_sample_point btc nominal (tseg div 2) t1 t2 = Some sb"
  shows "offers freq btc rate nominal tseg brp' err \<longleftrightarrow>
    brp' = brp \<and> err = abs32 (rate - bitrate) \<and> sb_error sb \<noteq> UINT_MAX"
  using assms can_update_sample_point_indep [OF assms(2), of 0 0]
    can_update_sample_point_error_indep [OF assms(2), of 0 0]
  by (auto simp: offers_def)

lemma offers_error:
  assumes "calc_candidate freq btc rate tseg = Some (Some (brp, bitrate))"
    and "offers freq btc rate nominal tseg brp' err"
  shows "err = abs32 (rate - bitrate)"
  using assms by (auto simp: offers_def)

lemma calc_inv_insert:
  assumes "calc_inv freq btc rate nominal visited c"
    and "\<And>brp err. offers freq btc rate nominal tseg brp err \<Longrightarrow> best_bitrate_error c \<le> err"
  shows "calc_inv freq btc rate nominal (insert tseg visited) c"
  using assms by (auto simp: calc_inv_def)

lemma calc_inv_accept:
  assumes "calc_inv freq btc rate nominal visited c" and "best_bitrate_error c' \<le> best_bitrate_error c"
    and "offers freq btc rate nominal tseg (best_brp c') (best_bitrate_error c')"
    and "best_tseg c' = tseg div 2"
    and "\<And>brp err. offers freq btc rate nominal tseg brp err \<Longrightarrow> best_bitrate_error c' \<le> err"
  shows "calc_inv freq btc rate nominal (insert tseg visited) c'"
  using assms by (fastforce simp: calc_inv_def intro: order_trans)

lemma calc_inv_segments:
  assumes "calc_inv freq btc rate nominal visited c"
  shows "calc_inv freq btc rate nominal visited (c\<lparr>c_tseg1 := t1, c_tseg2 := t2\<rparr>)"
    and "calc_inv freq btc rate nominal visited (c\<lparr>best_sample_point_error := UINT_MAX\<rparr>)"
  using assms by (auto simp: calc_inv_def calc_init_def)

lemma calc_body_inv:
  assumes inv: "calc_inv freq btc rate nominal visited c"
    and b: "calc_body freq btc rate nominal tseg c = Some (brk, c')"
  shows "calc_inv freq btc rate nominal (insert tseg visited) c' \<and> (brk \<longrightarrow> best_bitrate_error c' = 0)"
proof -
  obtain cand where cand: "calc_candidate freq btc rate tseg = Some cand"
    using b by (auto simp: calc_body_def split: bind_splits)
  show ?thesis
  proof (cases cand)
    case None
    then show ?thesis
      using b cand inv by (auto simp: calc_body_def offers_def intro: calc_inv_insert)
  next
    case (Some pr)
    obtain brp bitrate where pr: "pr = (brp, bitrate)" by fastforce
    note cand = cand [unfolded Some pr]
    define err where "err = abs32 (rate - bitrate)"
    show ?thesis
    proof (cases "best_bitrate_error c < err")
      case True
      then show ?thesis
        using b cand inv offers_error [OF cand]
        by (auto simp: calc_body_def err_def [symmetric] Let_def intro!: calc_inv_insert)
    next
      case False
      define c1 where "c1 = (if err < best_bitrate_error c
                     then c\<lparr>best_sample_point_error := UINT_MAX\<rparr> else c)"
      have inv1: "calc_inv freq btc rate nominal visited c1"
        using inv calc_inv_segments(2) by (simp add: c1_def)
      obtain sb where sb: "can_update_sample_point btc nominal (tseg div 2) (c_tseg1 c1) (c_tseg2 c1) = Some sb"
        using b cand False by (auto simp: calc_body_def err_def [symmetric] c1_def [symmetric] Let_def split: bind_splits)
      define c2 where "c2 = c1\<lparr>c_tseg1 := sb_tseg1 sb, c_tseg2 := sb_tseg2 sb\<rparr>"
      have inv2: "calc_inv freq btc rate nominal visited c2"
        using inv1 calc_inv_segments(1) by (simp add: c2_def)
      note off = offers_iff [OF cand sb, folded err_def]
      have b': "(if best_sample_point_error c2 \<le> sb_error sb then (False, c2)
             else (err = 0 \<and> sb_error sb = 0,
                        c2\<lparr>best_sample_point_error := sb_error sb, best_bitrate_error := err,
                           best_tseg := tseg div 2, best_brp := brp\<rparr>)) = (brk, c')"
        using b cand False sb
        by (cases "best_sample_point_error c1 \<le> sb_error sb")
          (auto simp: calc_body_def err_def [symmetric] c1_def [symmetric] c2_def Let_def)
      have eq: "best_bitrate_error c2 = best_bitrate_error c"
        by (simp add: c2_def c1_def)
      show ?thesis
      proof (cases "best_sample_point_error c2 \<le> sb_error sb")
        case True
        then have "sb_error sb \<noteq> UINT_MAX \<Longrightarrow> best_bitrate_error c2 \<le> err"
          using False word_order.extremum_uniqueI by (fastforce simp: c2_def c1_def split: if_splits)
        then show ?thesis
          using b' True inv2 off by (auto intro!: calc_inv_insert)
      next
        case nFalse: False
        then have "sb_error sb \<noteq> UINT_MAX" by auto
        then show ?thesis
          using b' nFalse False eq off by (auto intro!: calc_inv_accept [OF inv2])
      qed
    qed
  qed
qed


text \<open>The loop ends, and its last state carries the invariant over every value it visited.\<close>

lemma calc_inv_zero:
  assumes "calc_inv freq btc rate nominal V c" and "best_bitrate_error c = 0" and "V \<subseteq> W"
  shows "calc_inv freq btc rate nominal W c"
  using assms by (auto simp: calc_inv_def)

lemma calc_loop_ends:
  fixes btc defines "lo \<equiv> calc_tseg_last btc"
  assumes lo: "lo \<noteq> 0"
    and inv: "calc_inv freq btc rate nominal {t. lo \<le> t \<and> tseg < t \<and> t \<le> hi} c"
    and hi: "tseg \<le> hi"
  shows "\<exists>r. calc_loop freq btc rate nominal tseg c = Some r \<and>
    (\<forall>c'. r = Ret c' \<longrightarrow> calc_inv freq btc rate nominal {lo..hi} c')"
  using inv hi
proof (induction "unat tseg" arbitrary: tseg c rule: less_induct)
  case less
  show ?case
  proof (cases "tseg < lo")
    case True
    then have "{t. lo \<le> t \<and> tseg < t \<and> t \<le> hi} = {lo..hi}" by auto
    then show ?thesis
      using less.prems True by (subst calc_loop.simps) (auto simp: lo_def)
  next
    case False
    note ge = False
    show ?thesis
    proof (cases "calc_body freq btc rate nominal tseg c")
      case None
      then show ?thesis
        using ge by (subst calc_loop.simps) (auto simp: lo_def)
    next
      case (Some p)
      obtain brk c' where p: "p = (brk, c')" by fastforce
      let ?V = "insert tseg {t. lo \<le> t \<and> tseg < t \<and> t \<le> hi}"
      have b: "calc_inv freq btc rate nominal ?V c'" "brk \<longrightarrow> best_bitrate_error c' = 0"
        using calc_body_inv [OF less.prems(1)] Some p by auto
      show ?thesis
      proof (cases brk)
        case True
        have "?V \<subseteq> {lo..hi}" using ge less.prems(2) by auto
        then have "calc_inv freq btc rate nominal {lo..hi} c'"
          using calc_inv_zero [OF b(1)] b(2) True by simp
        then show ?thesis
          using ge Some p True by (subst calc_loop.simps) (auto simp: lo_def)
      next
        case False
        have pos: "tseg \<noteq> 0" using ge lo by (auto simp: word_gt_0)
        have V: "?V = {t. lo \<le> t \<and> tseg - 1 < t \<and> t \<le> hi}"
          unfolding word_pred_less_iff [OF pos] using ge less.prems(2) by auto
        have "tseg - 1 \<le> hi"
          using pos less.prems(2) by (simp add: word_le_nat_alt unat_minus_one)
        from less.hyps [OF measure_unat [OF pos] b(1) [unfolded V] this] show ?thesis
          by (subst calc_loop.simps) (simp add: ge [unfolded lo_def] Some p False)
      qed
    qed
  qed
qed

lemma unat_abs32_diff:
  assumes "unat a < 2 ^ 31" and "unat b < 2 ^ 31"
  shows "unat (abs32 (a - b)) = (if unat b \<le> unat a then unat a - unat b else unat b - unat a)"
proof (cases "b \<le> a")
  case True
  then have "unat (a - b) = unat a - unat b" "unat b \<le> unat a"
    by (simp_all add: unat_sub word_le_nat_alt)
  moreover from this have "\<not> 2 ^ 31 \<le> unat (a - b)" using assms by simp
  ultimately show ?thesis using assms by (simp add: abs32_def sint_neg_iff)
next
  case False
  then have lt: "unat a < unat b" by (simp add: word_le_nat_alt)
  then have "unat (b - a) = unat b - unat a" by (simp add: unat_sub word_le_nat_alt)
  moreover have "unat (a - b) = unat a + 4294967296 - unat b"
    using lt by (simp add: unat_sub_if_size word_size)
  ultimately show ?thesis using assms lt by (simp add: abs32_def sint_neg_iff)
qed

lemma error_percent:
  fixes rate err :: u32
  assumes r: "1000 \<le> rate" "rate \<le> 1000000"
    and v: "v = ucast err * 1000 div (ucast rate :: u64)"
    and le: "(ucast v :: u32) \<le> 50"
  shows "unat err * 1000 < 51 * unat rate"
proof -
  have rn: "1000 \<le> unat rate" using r by (simp add: word_le_nat_alt)
  have e: "unat err < 2 ^ 32" using unat_less_32 [of err] by simp
  have "unat (ucast err * 1000 :: u64) = unat err * 1000"
    using e by (simp add: unat_word_ariths unat_ucast_up)
  then have uv: "unat v = unat err * 1000 div unat rate"
    by (simp add: v unat_div unat_ucast_up)
  also have "\<dots> \<le> unat err"
  proof -
    have "unat err * 1000 div unat rate \<le> unat err * 1000 div 1000"
      using rn by (intro div_le_mono2) auto
    then show ?thesis by simp
  qed
  finally have "unat v < 2 ^ 32" using e by simp
  then have "unat (ucast v :: u32) = unat v"
    by (simp add: unsigned_ucast_eq take_bit_nat_eq_self)
  then have "unat err * 1000 div unat rate < 51"
    using le uv by (simp add: word_le_nat_alt)
  then show ?thesis
    using rn by (simp add: div_less_iff_less_mult)
qed

text \<open>Requests within the CAN range: no division of the search traps.\<close>

definition request_ok :: "u32 \<Rightarrow> can_bittiming \<Rightarrow> bool" where
  "request_ok freq bt \<longleftrightarrow> freq \<noteq> 0 \<and> freq < 0x80000000 \<and> 1000 \<le> bt_bitrate bt \<and>
     bt_bitrate bt \<le> 1000000 \<and> bt_sample_point bt \<le> 1000"

lemma tseg_half_bound:
  assumes ok: "btc_ok btc" and hi: "tseg \<le> calc_tseg_first btc"
  shows "unat (tseg div 2) \<le> unat (btc_tseg1_max btc) + unat (btc_tseg2_max btc)"
    and "tseg div 2 \<le> btc_tseg1_max btc + btc_tseg2_max btc"
    and "unat (1 + tseg div 2) = 1 + unat (tseg div 2)"
    and "unat (tseg div 2) < 2000"
proof -
  let ?M1 = "unat (btc_tseg1_max btc)" and ?M2 = "unat (btc_tseg2_max btc)"
  have M: "?M1 \<le> 1000" "?M2 < ?M1"
    using ok by (auto simp: btc_ok_def word_le_nat_alt word_less_nat_alt)
  have s: "unat (btc_tseg1_max btc + btc_tseg2_max btc) = ?M1 + ?M2"
    using M by (simp add: unat_plus_if_size word_size)
  have "unat (calc_tseg_first btc) = (?M1 + ?M2) * 2 + 1"
    using M by (simp add: calc_tseg_first_def unat_word_ariths)
  then have "unat tseg \<le> (?M1 + ?M2) * 2 + 1"
    using hi by (simp add: word_le_nat_alt)
  then show h: "unat (tseg div 2) \<le> ?M1 + ?M2"
    by (simp add: unat_div)
  then show "tseg div 2 \<le> btc_tseg1_max btc + btc_tseg2_max btc"
    by (simp add: word_le_nat_alt s)
  show "unat (tseg div 2) < 2000" using h M by linarith
  then show "unat (1 + tseg div 2) = 1 + unat (tseg div 2)"
    by (simp add: unat_plus_if_size word_size)
qed

lemma can_update_sample_point_defined:
  assumes "tseg + 1 \<noteq> 0"
  shows "can_update_sample_point btc nominal tseg t1 t2 \<noteq> None"
  using assms
  by (simp add: can_update_sample_point_def sample_step_def sample_round_def udiv_def Let_def split: prod.splits)

lemma calc_candidate_defined:
  assumes ok: "btc_ok btc" and hi: "tseg \<le> calc_tseg_first btc"
    and rate: "rate \<noteq> 0" "rate \<le> 1000000"
  shows "calc_candidate freq btc rate tseg \<noteq> None"
    and "calc_candidate freq btc rate tseg = Some (Some (brp, bitrate)) \<Longrightarrow>
      btc_brp_min btc \<le> brp \<and> brp \<le> btc_brp_max btc \<and> brp * (1 + tseg div 2) \<noteq> 0 \<and>
      bitrate = freq div (brp * (1 + tseg div 2))"
proof -
  note h = tseg_half_bound [OF ok hi]
  have "unat ((1 + tseg div 2) * rate) = unat (1 + tseg div 2) * unat rate"
    using h rate by (intro unat_mult_small [where m = 2000 and n = 1000000]) (auto simp: word_le_nat_alt)
  then have 1: "(1 + tseg div 2) * rate \<noteq> 0"
    using h(3) rate(1) by (metis add_is_0 mult_is_0 one_neq_zero unat_eq_0)
  have 2: "b * (1 + tseg div 2) \<noteq> 0" if "\<not> b < btc_brp_min btc" "\<not> btc_brp_max btc < b" for b
  proof -
    have "unat b \<le> 100000" "unat b \<noteq> 0"
      using that ok by (auto simp: btc_ok_def not_less word_le_nat_alt)
    then have "unat (b * (1 + tseg div 2)) = unat b * unat (1 + tseg div 2)"
      using h by (intro unat_mult_small [where m = 100000 and n = 2000]) auto
    then show ?thesis
      using h(3) \<open>unat b \<noteq> 0\<close> by (metis add_is_0 mult_is_0 one_neq_zero unat_eq_0)
  qed
  have 3: "btc_brp_inc btc \<noteq> 0"
    using ok by (auto simp: btc_ok_def)
  show "calc_candidate freq btc rate tseg \<noteq> None"
    using 1 2 3 by (auto simp: calc_candidate_def udiv_def Let_def)
  assume "calc_candidate freq btc rate tseg = Some (Some (brp, bitrate))"
  then show "btc_brp_min btc \<le> brp \<and> brp \<le> btc_brp_max btc \<and> brp * (1 + tseg div 2) \<noteq> 0 \<and>
      bitrate = freq div (brp * (1 + tseg div 2))"
    using 1 3 by (auto simp: calc_candidate_def udiv_def Let_def split: if_splits)
qed


lemma calc_body_defined:
  assumes "btc_ok btc" and "tseg \<le> calc_tseg_first btc" and "rate \<noteq> 0" "rate \<le> 1000000"
  shows "calc_body freq btc rate nominal tseg c \<noteq> None"
proof -
  have "tseg div 2 + 1 \<noteq> 0"
    using tseg_half_bound(3) [OF assms(1,2)] by (metis Suc_eq_plus1_left add.commute nat.distinct(1) unat_0)
  then have "can_update_sample_point btc nominal (tseg div 2) t1 t2 \<noteq> None" for t1 t2
    by (rule can_update_sample_point_defined)
  then show ?thesis
    using calc_candidate_defined(1) [OF assms]
    by (auto simp: calc_body_def Let_def simp del: not_None_eq split: bind_splits option.splits)
qed

lemma calc_tseg_last_nonzero:
  assumes "btc_ok btc" shows "calc_tseg_last btc \<noteq> 0" "calc_tseg_last btc \<le> calc_tseg_first btc"
proof -
  let ?m1 = "unat (btc_tseg1_min btc)" and ?m2 = "unat (btc_tseg2_min btc)"
  have m: "1 \<le> ?m1" "?m1 \<le> unat (btc_tseg1_max btc)" "?m2 \<le> unat (btc_tseg2_max btc)"
    "unat (btc_tseg2_max btc) < unat (btc_tseg1_max btc)" "unat (btc_tseg1_max btc) \<le> 1000"
    using assms by (auto simp: btc_ok_def word_le_nat_alt word_less_nat_alt)
  have l: "unat (calc_tseg_last btc) = (?m1 + ?m2) * 2"
    using m by (simp add: calc_tseg_last_def unat_word_ariths)
  then show "calc_tseg_last btc \<noteq> 0"
    using m(1) by (auto dest: arg_cong [of _ _ unat])
  have "unat (calc_tseg_first btc) = (unat (btc_tseg1_max btc) + unat (btc_tseg2_max btc)) * 2 + 1"
    using m by (simp add: calc_tseg_first_def unat_word_ariths)
  then show "calc_tseg_last btc \<le> calc_tseg_first btc"
    using l m by (simp add: word_le_nat_alt)
qed

lemma calc_loop_no_trap:
  assumes "btc_ok btc" and "rate \<noteq> 0" "rate \<le> 1000000" and "tseg \<le> calc_tseg_first btc"
  shows "calc_loop freq btc rate nominal tseg c \<noteq> Some SigFPE"
  using assms(4)
proof (induction "unat tseg" arbitrary: tseg c rule: less_induct)
  case less
  obtain brk c' where b: "calc_body freq btc rate nominal tseg c = Some (brk, c')"
    using calc_body_defined [OF assms(1) less.prems assms(2,3)] by fastforce
  show ?case
  proof (cases "tseg < calc_tseg_last btc")
    case True
    then show ?thesis by (subst calc_loop.simps) simp
  next
    case False
    then have pos: "tseg \<noteq> 0"
      using calc_tseg_last_nonzero(1) [OF assms(1)] by (auto simp: word_gt_0)
    have "tseg - 1 \<le> calc_tseg_first btc"
      using pos less.prems by (simp add: word_le_nat_alt unat_minus_one)
    from less.hyps [OF measure_unat [OF pos] this] show ?thesis
      using False b by (subst calc_loop.simps) simp
  qed
qed

text \<open>The state after the search, for a request in range.\<close>

lemma calc_loop_result:
  assumes "btc_ok btc" and "rate \<noteq> 0" "rate \<le> 1000000"
  obtains c where "calc_loop freq btc rate nominal (calc_tseg_first btc) calc_init = Some (Ret c)"
    and "calc_inv freq btc rate nominal {calc_tseg_last btc..calc_tseg_first btc} c"
proof -
  let ?hi = "calc_tseg_first btc"
  have "calc_inv freq btc rate nominal {t. calc_tseg_last btc \<le> t \<and> ?hi < t \<and> t \<le> ?hi} calc_init"
    by (auto simp: calc_inv_def calc_init_def)
  from calc_loop_ends [OF calc_tseg_last_nonzero(1) [OF assms(1)] this]
  obtain r where r: "calc_loop freq btc rate nominal ?hi calc_init = Some r"
    "\<forall>c'. r = Ret c' \<longrightarrow> calc_inv freq btc rate nominal {calc_tseg_last btc..?hi} c'"
    by auto
  then show ?thesis
    using calc_loop_no_trap [OF assms order_refl] that by (cases r) auto
qed

section \<open>After the search\<close>

lemma can_sjw_set_default_frame [simp]:
  "bt_prop_seg (can_sjw_set_default bt) = bt_prop_seg bt"
  "bt_phase_seg1 (can_sjw_set_default bt) = bt_phase_seg1 bt"
  "bt_phase_seg2 (can_sjw_set_default bt) = bt_phase_seg2 bt"
  "bt_brp (can_sjw_set_default bt) = bt_brp bt"
  by (simp_all add: can_sjw_set_default_def)

lemma can_sjw_set_default_pos: "1 \<le> bt_sjw (can_sjw_set_default bt)"
proof (cases "bt_sjw bt = 0")
  case True
  then show ?thesis by (simp only: can_sjw_set_default_def) simp
next
  case False
  then show ?thesis
    using unat_gt_0 [of "bt_sjw bt"] by (simp add: can_sjw_set_default_def word_le_nat_alt Suc_le_eq)
qed

lemma can_sjw_check_ok:
  "can_sjw_check bt btc = EOK \<longleftrightarrow>
     bt_sjw bt \<le> btc_sjw_max btc \<and> bt_sjw bt \<le> bt_phase_seg1 bt \<and> bt_sjw bt \<le> bt_phase_seg2 bt"
  by (auto simp: can_sjw_check_def not_less)

lemma uint_abs32_diff:
  assumes "unat a < 2 ^ 31" and "unat b < 2 ^ 31"
  shows "uint (abs32 (a - b)) = \<bar>uint a - uint b\<bar>"
proof -
  have "int (if m \<le> n then n - m else m - n) = \<bar>int n - int m\<bar>" for m n :: nat
    by simp
  then show ?thesis
    unfolding uint_nat unat_abs32_diff [OF assms] by blast
qed

lemma uint_percent: "unat a * 1000 < 51 * unat b \<longleftrightarrow> uint a * 1000 < 51 * uint b"
  unfolding uint_nat by linarith

text \<open>What a controller needs of the timing it is programmed with.\<close>

definition timing_in_range :: "can_bittiming_const \<Rightarrow> can_bittiming \<Rightarrow> bool" where
  "timing_in_range btc bt \<longleftrightarrow>
     btc_brp_min btc \<le> bt_brp bt \<and> bt_brp bt \<le> btc_brp_max btc \<and>
     1 \<le> bt_sjw bt \<and> bt_sjw bt \<le> btc_sjw_max btc \<and>
     bt_sjw bt \<le> bt_phase_seg1 bt \<and> bt_sjw bt \<le> bt_phase_seg2 bt \<and>
     btc_tseg1_min btc \<le> bt_prop_seg bt + bt_phase_seg1 bt \<and>
     bt_prop_seg bt + bt_phase_seg1 bt \<le> btc_tseg1_max btc \<and>
     btc_tseg2_min btc \<le> bt_phase_seg2 bt \<and> bt_phase_seg2 bt \<le> btc_tseg2_max btc"

text \<open>The segments the search ended with, read back by the final call.\<close>

lemma best_segments:
  assumes ok: "btc_ok btc" and off: "offers freq btc rate nominal tseg brp err"
    and hi: "tseg \<le> calc_tseg_first btc" and nom: "nominal \<le> 1000"
  obtains sb where "\<And>t1 t2. can_update_sample_point btc nominal (tseg div 2) t1 t2 = Some sb"
    and "sb_tseg1 sb + sb_tseg2 sb = tseg div 2" and "sb_tseg1 sb \<le> btc_tseg1_max btc"
    and "btc_tseg2_min btc \<le> sb_tseg2 sb" and "sb_tseg2 sb \<le> btc_tseg2_max btc"
proof -
  obtain sb where sb: "can_update_sample_point btc nominal (tseg div 2) 0 0 = Some sb" "sb_error sb \<noteq> UINT_MAX"
    using off by (auto simp: offers_def)
  obtain i where i: "sample_round btc nominal (tseg div 2) i = Some (sb_tseg1 sb, sb_tseg2 sb, sb_point sb)"
    "sb_point sb \<le> nominal"
    using can_update_sample_point_found [OF sb] .
  note r = sample_round_accepted [OF ok i nom tseg_half_bound(2) [OF ok hi]]
  have "unat (sb_tseg1 sb + sb_tseg2 sb) = unat (tseg div 2)"
    using r(1) unat_less_32 [of "tseg div 2"] by (simp add: unat_plus_if_size word_size)
  then have "sb_tseg1 sb + sb_tseg2 sb = tseg div 2"
    by (simp add: word_unat_eq_iff)
  with r that can_update_sample_point_indep [OF sb] show ?thesis by blast
qed

lemma UINT_MAX_percent:
  assumes "1000 \<le> rate" "rate \<le> (1000000 :: u32)"
  shows "50 < (ucast (ucast UINT_MAX * 1000 div (ucast rate :: u64)) :: u32)"
proof (rule ccontr)
  assume "\<not> ?thesis"
  then have "unat UINT_MAX * 1000 < 51 * unat rate"
    using error_percent [OF assms refl] by (simp add: not_less)
  moreover have "unat rate \<le> 1000000" using assms by (simp add: word_le_nat_alt)
  moreover have "unat UINT_MAX = 4294967295" by (simp add: unsigned_minus_1_eq_mask mask_eq_exp_minus_1)
  ultimately show False by linarith
qed

lemma calc_fill_segments:
  "bt_prop_seg (calc_fill bt tq sb) + bt_phase_seg1 (calc_fill bt tq sb) = sb_tseg1 sb"
  "bt_phase_seg2 (calc_fill bt tq sb) = sb_tseg2 sb"
  by (simp_all add: calc_fill_def)

lemma calc_fill_in_range:
  assumes "can_sjw_check (calc_fill bt tq sb) btc = EOK" and "btc_tseg1_min btc = 1"
    and "sb_tseg1 sb \<le> btc_tseg1_max btc"
    and "btc_tseg2_min btc \<le> sb_tseg2 sb" "sb_tseg2 sb \<le> btc_tseg2_max btc"
    and "btc_brp_min btc \<le> brp" "brp \<le> btc_brp_max btc"
  shows "timing_in_range btc (calc_fill bt tq sb\<lparr>bt_brp := brp, bt_bitrate := r\<rparr>)"
proof -
  let ?bt = "calc_fill bt tq sb"
  have seg1: "bt_prop_seg ?bt + bt_phase_seg1 ?bt = sb_tseg1 sb" "bt_phase_seg2 ?bt = sb_tseg2 sb"
    "bt_phase_seg1 ?bt = sb_tseg1 sb - sb_tseg1 sb div 2"
    using calc_fill_segments by (auto simp: calc_fill_def)
  have sjw: "1 \<le> bt_sjw ?bt" "bt_sjw ?bt \<le> btc_sjw_max btc" "bt_sjw ?bt \<le> bt_phase_seg1 ?bt"
      "bt_sjw ?bt \<le> bt_phase_seg2 ?bt"
    using assms(1) can_sjw_set_default_pos by (auto simp: can_sjw_check_ok calc_fill_def)
  have "bt_phase_seg1 ?bt \<noteq> 0"
    using order_trans [OF sjw(1,3)] by auto
  then have "1 \<le> sb_tseg1 sb"
    using seg1(3) by (auto simp: word_one_le_iff)
  then show ?thesis
    using assms sjw seg1 by (simp add: timing_in_range_def)
qed

lemma calc_finish_found:
  assumes freq: "freq \<noteq> 0" and rate: "bt_bitrate bt \<noteq> 0"
    and sb: "can_update_sample_point btc (nominal_sample_point bt) (best_tseg c) (c_tseg1 c) (c_tseg2 c) = Some sb"
    and seg: "sb_tseg1 sb + sb_tseg2 sb = best_tseg c"
    and brp: "best_brp c * (1 + best_tseg c) \<noteq> 0"
  shows "calc_finish freq btc bt c =
    (let bt1 = calc_fill bt (ucast (ucast (best_brp c) * 1000 * 1000 * 1000 div (ucast freq :: u64))) sb;
         e = ucast (best_bitrate_error c) * 1000 div (ucast (bt_bitrate bt) :: u64) in
     if 50 < (ucast e :: u32) then Some (Err EINVAL, bt)
     else if can_sjw_check bt1 btc \<noteq> EOK then Some (can_sjw_check bt1 btc, bt1)
     else Some (EOK, bt1\<lparr>bt_brp := best_brp c,
                         bt_bitrate := freq div (best_brp c * (1 + best_tseg c))\<rparr>))"
proof -
  have bits: "can_bit_time (calc_fill bt tq sb\<lparr>bt_brp := b\<rparr>) = 1 + best_tseg c" for tq b
    using seg calc_fill_segments [of bt tq sb] by (simp add: can_bit_time_def add.assoc [symmetric])
  show ?thesis
    using freq rate brp
    by (simp add: calc_finish_def sb udiv_def ucast_up_0_iff CAN_CALC_MAX_ERROR_def Let_def bits)
qed

lemma calc_finish_spec:
  assumes ok: "btc_ok btc" and req: "request_ok freq bt"
    and inv: "calc_inv freq btc (bt_bitrate bt) (nominal_sample_point bt) {calc_tseg_last btc..calc_tseg_first btc} c"
  obtains r bt' where "calc_finish freq btc bt c = Some (r, bt')"
    and "r = EOK \<Longrightarrow> (btc_tseg1_min btc = 1 \<longrightarrow> timing_in_range btc bt') \<and>
      bt_bitrate bt' = freq div (bt_brp bt' * can_bit_time bt') \<and>
      best_bitrate_error c = abs32 (bt_bitrate bt - bt_bitrate bt') \<and>
      unat (best_bitrate_error c) * 1000 < 51 * unat (bt_bitrate bt)"
proof (cases "best_bitrate_error c = UINT_MAX")
  case True
  have rate: "1000 \<le> bt_bitrate bt" "bt_bitrate bt \<le> 1000000" "bt_bitrate bt \<noteq> 0"
    using req by (auto simp: request_ok_def)
  have "calc_finish freq btc bt c = Some (Err EINVAL, bt)"
    using UINT_MAX_percent [OF rate(1,2)] True rate(3)
    by (simp add: calc_finish_def udiv_def ucast_up_0_iff CAN_CALC_MAX_ERROR_def)
  then show ?thesis using that by blast
next
  case False
  define rate where "rate = bt_bitrate bt"
  have rate: "1000 \<le> rate" "rate \<le> 1000000" "rate \<noteq> 0" "bt_bitrate bt \<noteq> 0" and freq: "freq \<noteq> 0"
    and nom: "nominal_sample_point bt \<le> 1000"
    using req by (auto simp: request_ok_def nominal_sample_point_def rate_def)
  obtain tseg where tseg: "tseg \<le> calc_tseg_first btc" "best_tseg c = tseg div 2"
    and off: "offers freq btc rate (nominal_sample_point bt) tseg (best_brp c) (best_bitrate_error c)"
    using inv False by (auto simp: calc_inv_def rate_def)
  obtain sb where sb: "\<And>t1 t2. can_update_sample_point btc (nominal_sample_point bt) (tseg div 2) t1 t2 = Some sb"
    and seg: "sb_tseg1 sb + sb_tseg2 sb = tseg div 2" "sb_tseg1 sb \<le> btc_tseg1_max btc"
      "btc_tseg2_min btc \<le> sb_tseg2 sb" "sb_tseg2 sb \<le> btc_tseg2_max btc"
    by (rule best_segments [OF ok off tseg(1) nom]) blast
  obtain bitrate where cand: "calc_candidate freq btc rate tseg = Some (Some (best_brp c, bitrate))"
    and err: "best_bitrate_error c = abs32 (rate - bitrate)"
    using off by (auto simp: offers_def)
  note brp = calc_candidate_defined(2) [OF ok tseg(1) rate(3,2) cand]
  define bt1 where "bt1 = calc_fill bt (ucast (ucast (best_brp c) * 1000 * 1000 * 1000 div (ucast freq :: u64))) sb"
  have fin: "calc_finish freq btc bt c =
     (if 50 < (ucast (ucast (best_bitrate_error c) * 1000 div (ucast rate :: u64)) :: u32) then Some (Err EINVAL, bt)
      else if can_sjw_check bt1 btc \<noteq> EOK then Some (can_sjw_check bt1 btc, bt1)
      else Some (EOK, bt1\<lparr>bt_brp := best_brp c, bt_bitrate := bitrate\<rparr>))"
    using calc_finish_found [of freq bt btc c sb] freq rate(4) sb seg(1) brp tseg(2)
    by (simp add: bt1_def rate_def Let_def)
  let ?bt' = "bt1\<lparr>bt_brp := best_brp c, bt_bitrate := bitrate\<rparr>"
  have range: "timing_in_range btc ?bt'" if "can_sjw_check bt1 btc = EOK" "btc_tseg1_min btc = 1"
    using calc_fill_in_range that seg(2-4) brp by (simp add: bt1_def)
  have bits: "can_bit_time ?bt' = 1 + tseg div 2"
    using seg(1) calc_fill_segments by (simp add: can_bit_time_def bt1_def add.assoc [symmetric])
  show ?thesis
  proof (cases "50 < (ucast (ucast (best_bitrate_error c) * 1000 div (ucast rate :: u64)) :: u32)")
    case True
    then show ?thesis using fin that by simp
  next
    case big: False
    then have "unat (best_bitrate_error c) * 1000 < 51 * unat rate"
      using error_percent [OF rate(1,2) refl] by (simp add: not_less)
    then show ?thesis
      using fin big range brp bits err that [of "can_sjw_check bt1 btc" "if can_sjw_check bt1 btc = EOK then ?bt' else bt1"]
      by (cases "can_sjw_check bt1 btc") (auto simp: rate_def)
  qed
qed

lemma can_calc_bittiming_spec:
  assumes "btc_ok btc" and "request_ok freq bt" and one: "btc_tseg1_min btc = 1"
  shows "\<exists>r bt'. can_calc_bittiming freq bt btc = Some (Ret (r, bt')) \<and>
    (r = EOK \<longrightarrow> timing_in_range btc bt' \<and>
      bt_bitrate bt' = freq div (bt_brp bt' * can_bit_time bt') \<and>
      \<bar>uint (bt_bitrate bt) - uint (bt_bitrate bt')\<bar> * 1000 < 51 * uint (bt_bitrate bt))"
proof -
  have rate: "bt_bitrate bt \<noteq> 0" "bt_bitrate bt \<le> 1000000" and freq: "unat freq < 2 ^ 31"
    using assms(2) by (auto simp: request_ok_def word_less_nat_alt)
  obtain c where loop: "calc_loop freq btc (bt_bitrate bt) (nominal_sample_point bt)
      (calc_tseg_first btc) calc_init = Some (Ret c)"
    and inv: "calc_inv freq btc (bt_bitrate bt) (nominal_sample_point bt)
      {calc_tseg_last btc..calc_tseg_first btc} c"
    by (rule calc_loop_result [OF assms(1) rate])
  obtain r bt' where fin: "calc_finish freq btc bt c = Some (r, bt')"
    and res: "r = EOK \<Longrightarrow> (btc_tseg1_min btc = 1 \<longrightarrow> timing_in_range btc bt') \<and>
      bt_bitrate bt' = freq div (bt_brp bt' * can_bit_time bt') \<and>
      best_bitrate_error c = abs32 (bt_bitrate bt - bt_bitrate bt') \<and>
      unat (best_bitrate_error c) * 1000 < 51 * unat (bt_bitrate bt)"
    by (rule calc_finish_spec [OF assms(1,2) inv]) blast
  have "\<bar>uint (bt_bitrate bt) - uint (bt_bitrate bt')\<bar> * 1000 < 51 * uint (bt_bitrate bt)"
    if "r = EOK"
  proof -
    have "unat (bt_bitrate bt') \<le> unat freq"
      using res [OF that] by (simp add: unat_div)
    moreover have "unat (bt_bitrate bt) < 2 ^ 31"
      using rate(2) by (simp add: word_le_nat_alt)
    ultimately have "uint (best_bitrate_error c) = \<bar>uint (bt_bitrate bt) - uint (bt_bitrate bt')\<bar>"
      using res [OF that] freq uint_abs32_diff [of "bt_bitrate bt" "bt_bitrate bt'"] by simp
    moreover have "uint (best_bitrate_error c) * 1000 < 51 * uint (bt_bitrate bt)"
      using res [OF that] uint_percent by blast
    ultimately show ?thesis
      by simp
  qed
  then show ?thesis
    using loop fin res one by (auto simp: can_calc_bittiming_def)
qed

text \<open>
  C4: \<^verbatim>\<open>can_calc_bittiming\<close> on a request in the CAN range (1 kbit/s to 1 Mbit/s, a clock
  below 2 GHz, a sample point of at most 100 percent) always returns, for every controller with
  sane limits whose first segment may be a single quantum, as that of the SJA1000. When it
  succeeds, prescaler, both segments and jump width lie between the minimum and the maximum of
  the controller, the bit rate reported is the one these settings produce, and it differs from
  the requested rate by less than 5.1 percent.
\<close>

theorem can_calc_bittiming_correct:
  assumes "btc_ok btc" and "request_ok freq bt" and "btc_tseg1_min btc = 1"
  shows "\<exists>r bt'. can_calc_bittiming freq bt btc = Some (Ret (r, bt')) \<and>
    (r = EOK \<longrightarrow> timing_in_range btc bt' \<and>
      bt_bitrate bt' = freq div (bt_brp bt' * can_bit_time bt') \<and>
      \<bar>uint (bt_bitrate bt) - uint (bt_bitrate bt')\<bar> * 1000 < 51 * uint (bt_bitrate bt))"
  using assms by (rule can_calc_bittiming_spec)

lemma sja1000_btc_ok: "btc_ok sja1000_bittiming_const"
  by (simp add: btc_ok_def sja1000_bittiming_const_def)

text \<open>A request that gives the bit rate only, as \<^verbatim>\<open>create_user_dev_setup\<close> builds it.\<close>

definition bitrate_request :: "u32 \<Rightarrow> can_bittiming" where
  "bitrate_request rate = \<lparr>bt_bitrate = rate, bt_sample_point = 0, bt_tq = 0, bt_prop_seg = 0,
     bt_phase_seg1 = 0, bt_phase_seg2 = 0, bt_sjw = 0, bt_brp = 0\<rparr>"

lemma bitrate_request_ok: "request_ok 8000000 (bitrate_request 250000)"
  by (simp add: request_ok_def bitrate_request_def)

lemma sja1000_tseg1_min: "btc_tseg1_min sja1000_bittiming_const = 1"
  by (simp add: sja1000_bittiming_const_def)

declare calc_loop.simps [code]

definition timing_250k :: can_bittiming where
  "timing_250k = \<lparr>bt_bitrate = 250000, bt_sample_point = 875, bt_tq = 250, bt_prop_seg = 6,
     bt_phase_seg1 = 7, bt_phase_seg2 = 2, bt_sjw = 1, bt_brp = 2\<rparr>"

lemma calc_250k:
  "can_calc_bittiming 8000000 (bitrate_request 250000) sja1000_bittiming_const = Some (Ret (EOK, timing_250k))"
  by code_simp

theorem can_calc_bittiming_correct_witness:
  "can_calc_bittiming 8000000 (bitrate_request 250000) sja1000_bittiming_const = Some (Ret (EOK, timing_250k)) \<and>
     timing_in_range sja1000_bittiming_const timing_250k \<and>
     bt_bitrate timing_250k = 8000000 div (bt_brp timing_250k * can_bit_time timing_250k)"
  using can_calc_bittiming_correct [OF sja1000_btc_ok bitrate_request_ok sja1000_tseg1_min] calc_250k by auto

text \<open>
  The search never looks at the minimum of the first segment: a controller that needs five quanta
  there gets three for an early sample point.
\<close>

lemma calc_below_tseg1_min:
  "\<exists>bt'. can_calc_bittiming 10000000 ((bitrate_request 250000)\<lparr>bt_sample_point := 300\<rparr>)
       (sja1000_bittiming_const\<lparr>btc_tseg1_min := 5\<rparr>) = Some (Ret (EOK, bt')) \<and>
     bt_prop_seg bt' + bt_phase_seg1 bt' < 5"
proof -
  let ?c = "can_calc_bittiming 10000000 ((bitrate_request 250000)\<lparr>bt_sample_point := 300\<rparr>)
      (sja1000_bittiming_const\<lparr>btc_tseg1_min := 5\<rparr>)"
  have "(case ?c of Some (Ret (r, bt')) \<Rightarrow> r = EOK \<and> bt_prop_seg bt' + bt_phase_seg1 bt' < 5 | _ \<Rightarrow> False)"
    by code_simp
  then show ?thesis
    by (cases ?c rule: option.exhaust; simp split: exec.splits prod.splits)
qed

text \<open>
  C9: the search is optimal in the bit rate: when \<^verbatim>\<open>can_calc_bittiming\<close> succeeds, no
  iteration of its loop, that is no total segment length between the minimum and the maximum
  of the controller with either rounding of the prescaler, offers a setting with a usable
  sample point whose bit rate is closer to the requested one than the rate returned.
\<close>

theorem can_calc_bittiming_optimal:
  assumes "btc_ok btc" and "request_ok freq bt"
    and "can_calc_bittiming freq bt btc = Some (Ret (EOK, bt'))"
    and "calc_tseg_last btc \<le> tseg" and "tseg \<le> calc_tseg_first btc"
    and "offers freq btc (bt_bitrate bt) (nominal_sample_point bt) tseg brp err"
  shows "abs32 (bt_bitrate bt - bt_bitrate bt') \<le> err"
proof -
  have rate: "bt_bitrate bt \<noteq> 0" "bt_bitrate bt \<le> 1000000"
    using assms(2) by (auto simp: request_ok_def)
  obtain c where loop: "calc_loop freq btc (bt_bitrate bt) (nominal_sample_point bt)
      (calc_tseg_first btc) calc_init = Some (Ret c)"
    and inv: "calc_inv freq btc (bt_bitrate bt) (nominal_sample_point bt)
      {calc_tseg_last btc..calc_tseg_first btc} c"
    by (rule calc_loop_result [OF assms(1) rate])
  have "calc_finish freq btc bt c = Some (EOK, bt')"
    using assms(3) loop by (auto simp: can_calc_bittiming_def split: option.splits)
  then have "best_bitrate_error c = abs32 (bt_bitrate bt - bt_bitrate bt')"
    by - (rule calc_finish_spec [OF assms(1,2) inv], auto)
  then show ?thesis
    using inv assms(4-6) by (auto simp: calc_inv_def)
qed

lemma offers_250k: "offers 8000000 sja1000_bittiming_const 250000 875 33 2 14706"
proof -
  have "calc_candidate 8000000 sja1000_bittiming_const 250000 33 = Some (Some (2, 235294))"
    and "14706 = abs32 (250000 - 235294)"
    by code_simp+
  moreover have "map_option sb_error (can_update_sample_point sja1000_bittiming_const 875 (33 div 2) 0 0) = Some 52"
    by code_simp
  ultimately show ?thesis
    by (auto simp: offers_def)
qed

theorem can_calc_bittiming_optimal_witness:
  "offers 8000000 sja1000_bittiming_const 250000 875 33 2 14706 \<and>
   abs32 (bt_bitrate (bitrate_request 250000) - bt_bitrate timing_250k) \<le> 14706"
proof -
  have rng: "calc_tseg_last sja1000_bittiming_const \<le> 33" "33 \<le> calc_tseg_first sja1000_bittiming_const"
    by code_simp+
  have "offers 8000000 sja1000_bittiming_const (bt_bitrate (bitrate_request 250000))
      (nominal_sample_point (bitrate_request 250000)) 33 2 14706"
    using offers_250k by (simp add: bitrate_request_def nominal_sample_point_def)
  from can_calc_bittiming_optimal [OF sja1000_btc_ok bitrate_request_ok calc_250k rng this]
  show ?thesis
    using offers_250k by simp
qed

text \<open>
  \<^verbatim>\<open>can_calc_bittiming\<close> does not guard the product \<^verbatim>\<open>tsegall * bt->bitrate\<close>: a
  requested rate of 2 to the 28th makes the 32-bit product of the 16-quanta iteration zero, and
  the driver divides by zero.
\<close>

lemma can_calc_bittiming_divides_by_zero:
  "can_calc_bittiming 8000000 (bitrate_request 0x10000000) sja1000_bittiming_const = Some SigFPE"
  by code_simp

section \<open>Given segments\<close>

text \<open>
  The prescaler for a quantum of \<open>tq\<close> nanoseconds: with the step of the controller, the number of
  steps nearest to the clock times the quantum. The products fit into 64 bits, and the result into
  32, for a clock below 2 GHz and quanta of less than two seconds.
\<close>

lemma fixup_brp64_value:
  fixes bt :: can_bittiming
  assumes freq: "freq \<le> 900000000" and inc: "1 \<le> btc_brp_inc btc" "btc_brp_inc btc \<le> 100000"
  defines "b \<equiv> (uint freq * uint (bt_tq bt) div uint (btc_brp_inc btc) + 499999999) div 10 ^ 9 * uint (btc_brp_inc btc)"
  shows "uint (fixup_brp64 freq bt btc) = b" and "0 \<le> b" and "b < 2 ^ 32"
proof -
  define i where "i = uint (btc_brp_inc btc)"
  define x where "x = uint freq * uint (bt_tq bt)"
  define k where "k = (x div i + 499999999) div 10 ^ 9"
  have i: "1 \<le> i" "i \<le> 100000" using inc by (simp_all add: i_def word_le_def)
  have f: "0 \<le> uint freq" "uint freq \<le> 900000000" using freq by (simp_all add: word_le_def)
  have t: "0 \<le> uint (bt_tq bt)" "uint (bt_tq bt) \<le> 4294967295" using uint_lt2p [of "bt_tq bt"] by simp_all
  have x: "0 \<le> x" "x \<le> 900000000 * 4294967295" using f t mult_mono [of "uint freq" 900000000 "uint (bt_tq bt)" 4294967295] by (simp_all add: x_def)
  have xi: "0 \<le> x div i" "x div i \<le> 900000000 * 4294967295" "x div i * i \<le> x"
    using i x zdiv_mono2 [of x 1 i] by (simp_all add: pos_imp_zdiv_nonneg_iff minus_mod_eq_div_mult [symmetric])
  have k0: "0 \<le> k" using xi by (simp add: k_def)
  have "k * 10 ^ 9 \<le> x div i + 499999999"
    unfolding k_def by (simp add: minus_mod_eq_div_mult [symmetric])
  then have "k * i * 10 ^ 9 \<le> (x div i + 499999999) * i"
    using i mult_right_mono [of "k * 10 ^ 9" "x div i + 499999999" i] by (simp add: algebra_simps)
  also have "\<dots> \<le> 4 * 10 ^ 18" using xi(3) x i by (simp add: algebra_simps)
  finally have ki: "k * i < 2 ^ 32" by (simp add: mult.commute)
  have x64: "uint (ucast freq * ucast (bt_tq bt) :: u64) = x"
    using x by (simp add: x_def uint_word_ariths uint_up_ucast is_up)
  have i64: "uint (ucast (btc_brp_inc btc) :: u64) = i" by (simp add: i_def uint_up_ucast is_up)
  have one: "\<not> 1 < btc_brp_inc btc \<Longrightarrow> i = 1" using inc by (simp add: i_def word_less_def word_le_def)
  have r1: "uint ((if 1 < btc_brp_inc btc then (ucast freq * ucast (bt_tq bt) :: u64) div ucast (btc_brp_inc btc)
      else ucast freq * ucast (bt_tq bt))) = x div i" (is "uint ?b1 = _")
    using one by (simp add: uint_div x64 i64)
  have r2: "uint ((?b1 + (500000000 - 1)) div 1000000000) = k" (is "uint ?b2 = _")
    using r1 xi by (simp add: uint_div uint_word_ariths k_def)
  have "uint (if 1 < btc_brp_inc btc then ?b2 * ucast (btc_brp_inc btc) else ?b2) = k * i"
    using r2 i64 ki k0 i one by (cases "1 < btc_brp_inc btc") (simp_all add: uint_word_ariths)
  then have "uint (fixup_brp64 freq bt btc) = k * i" by (simp only: fixup_brp64_def Let_def)
  then show "uint (fixup_brp64 freq bt btc) = b" and "0 \<le> b" and "b < 2 ^ 32"
    using ki k0 i by (simp_all add: b_def k_def x_def i_def)
qed

text \<open>The decision of \<^verbatim>\<open>can_fixup_bittiming\<close>, and what it stores when it accepts.\<close>

definition fixup_accepts :: "u32 \<Rightarrow> can_bittiming \<Rightarrow> can_bittiming_const \<Rightarrow> bool" where
  "fixup_accepts brp bt btc \<longleftrightarrow>
     btc_tseg1_min btc \<le> bt_prop_seg bt + bt_phase_seg1 bt \<and>
     bt_prop_seg bt + bt_phase_seg1 bt \<le> btc_tseg1_max btc \<and>
     btc_tseg2_min btc \<le> bt_phase_seg2 bt \<and> bt_phase_seg2 bt \<le> btc_tseg2_max btc \<and>
     can_sjw_check (can_sjw_set_default bt) btc = EOK \<and> btc_brp_min btc \<le> brp \<and> brp \<le> btc_brp_max btc"

lemma fixup_brp64_sjw [simp]: "fixup_brp64 freq (can_sjw_set_default bt) btc = fixup_brp64 freq bt btc"
  by (simp add: fixup_brp64_def can_sjw_set_default_def)

lemma fixup_rejected:
  assumes "\<not> fixup_accepts (ucast (fixup_brp64 freq bt btc)) bt btc"
  shows "\<exists>bt'. can_fixup_bittiming freq bt btc = Ret (Err EINVAL, bt')"
proof -
  have "can_sjw_check (can_sjw_set_default bt) btc = EOK \<or> can_sjw_check (can_sjw_set_default bt) btc = Err EINVAL"
    by (simp add: can_sjw_check_def)
  then show ?thesis
    using assms by (auto simp: can_fixup_bittiming_def fixup_accepts_def Let_def not_less)
qed

lemma fixup_accepted:
  assumes ok: "btc_ok btc" and freq: "freq \<noteq> 0"
    and acc: "fixup_accepts (ucast (fixup_brp64 freq bt btc)) bt btc"
  shows "\<exists>bt'. can_fixup_bittiming freq bt btc = Ret (EOK, bt') \<and> timing_in_range btc bt' \<and>
    bt_brp bt' = ucast (fixup_brp64 freq bt btc) \<and> bt_prop_seg bt' = bt_prop_seg bt \<and>
    bt_phase_seg1 bt' = bt_phase_seg1 bt \<and> bt_phase_seg2 bt' = bt_phase_seg2 bt \<and>
    bt_bitrate bt' = freq div (bt_brp bt' * can_bit_time bt') \<and>
    bt_sample_point bt' = (CAN_SYNC_SEG + (bt_prop_seg bt + bt_phase_seg1 bt)) * 1000 div can_bit_time bt'"
proof -
  define bt1 where "bt1 = can_sjw_set_default bt"
  define bt2 where "bt2 = bt1\<lparr>bt_brp := ucast (fixup_brp64 freq bt1 btc)\<rparr>"
  let ?t1 = "bt_prop_seg bt + bt_phase_seg1 bt"
  have same: "fixup_brp64 freq bt1 btc = fixup_brp64 freq bt btc"
    by (simp add: bt1_def)
  have small: "unat ?t1 \<le> 1000" "unat (bt_phase_seg2 bt) \<le> 1000" "unat (bt_brp bt2) \<le> 100000"
    "unat (bt_brp bt2) \<noteq> 0"
    using acc ok by (auto simp: fixup_accepts_def btc_ok_def word_le_nat_alt word_less_nat_alt bt2_def same)
  have "can_bit_time bt2 = 1 + (?t1 + bt_phase_seg2 bt)"
    by (simp add: can_bit_time_def bt2_def bt1_def)
  then have bits: "unat (can_bit_time bt2) = 1 + unat ?t1 + unat (bt_phase_seg2 bt)"
    using small by (simp add: unat_word_ariths(1))
  then have "unat (bt_brp bt2 * can_bit_time bt2) = unat (bt_brp bt2) * unat (can_bit_time bt2)"
    using small by (intro unat_mult_small [where m = 100000 and n = 2001]) auto
  then have "unat (bt_brp bt2 * can_bit_time bt2) \<noteq> 0" "unat (can_bit_time bt2) \<noteq> 0"
    using small bits by simp_all
  then have nz: "can_bit_time bt2 \<noteq> 0" "bt_brp bt2 * can_bit_time bt2 \<noteq> 0"
    by (metis unat_0)+
  have "\<exists>tq. can_fixup_bittiming freq bt btc = Ret (EOK,
      bt2\<lparr>bt_bitrate := freq div (bt_brp bt2 * can_bit_time bt2),
        bt_sample_point := (CAN_SYNC_SEG + ?t1) * 1000 div can_bit_time bt2, bt_tq := tq\<rparr>)"
    using acc nz freq
    by (simp add: can_fixup_bittiming_def fixup_accepts_def udiv_def ucast_up_0_iff not_less Let_def bt2_def same
        flip: bt1_def) blast
  moreover have "timing_in_range btc (bt2\<lparr>bt_bitrate := r, bt_sample_point := sp, bt_tq := tq\<rparr>)" for r sp tq
    using acc ok can_sjw_set_default_pos [of bt]
    by (auto simp: timing_in_range_def fixup_accepts_def bt2_def bt1_def can_sjw_check_ok btc_ok_def)
  moreover have "can_bit_time (bt2\<lparr>bt_bitrate := r, bt_sample_point := sp, bt_tq := tq\<rparr>) = can_bit_time bt2" for r sp tq
    by (simp add: can_bit_time_def)
  ultimately show ?thesis
    by (auto simp: bt2_def bt1_def)
qed

lemma can_fixup_bittiming_spec:
  assumes "btc_ok btc" and "freq \<noteq> 0"
  shows "\<exists>r bt'. can_fixup_bittiming freq bt btc = Ret (r, bt') \<and> (r = EOK \<longrightarrow> timing_in_range btc bt')"
  using fixup_accepted [OF assms] fixup_rejected by (metis rc.distinct(1))

text \<open>
  C10: \<^verbatim>\<open>can_fixup_bittiming\<close> on user-given segments and a quantum of \<open>tq\<close> nanoseconds, with sane
  controller limits and a clock of at most 900 MHz, never divides by zero. It looks for the
  prescaler that gives this quantum: \<open>k\<close> steps of the controller, where \<open>k\<close> is the integer nearest
  to \<open>freq * tq / 10 ^ 9\<close> divided by the step (half way rounds down). It accepts exactly when the
  segments, the jump width and this prescaler are within the limits of the controller, and answers
  \<^verbatim>\<open>EINVAL\<close> otherwise.
  When it accepts, it keeps the segments, stores this prescaler, and the bit rate and sample point
  stored are the ones these settings produce.
\<close>

theorem can_fixup_bittiming_correct:
  assumes ok: "btc_ok btc" and freq: "freq \<noteq> 0" "freq \<le> 900000000" and inc: "btc_brp_inc btc \<le> btc_brp_max btc"
  shows "\<exists>r bt' k. can_fixup_bittiming freq bt btc = Ret (r, bt') \<and>
    k * 10 ^ 9 - 5 * 10 ^ 8 < uint freq * uint (bt_tq bt) div uint (btc_brp_inc btc) \<and>
    uint freq * uint (bt_tq bt) div uint (btc_brp_inc btc) \<le> k * 10 ^ 9 + 5 * 10 ^ 8 \<and>
    (r = EOK \<longleftrightarrow>
       btc_tseg1_min btc \<le> bt_prop_seg bt + bt_phase_seg1 bt \<and>
       bt_prop_seg bt + bt_phase_seg1 bt \<le> btc_tseg1_max btc \<and>
       btc_tseg2_min btc \<le> bt_phase_seg2 bt \<and> bt_phase_seg2 bt \<le> btc_tseg2_max btc \<and>
       can_sjw_check (can_sjw_set_default bt) btc = EOK \<and>
       uint (btc_brp_min btc) \<le> k * uint (btc_brp_inc btc) \<and>
       k * uint (btc_brp_inc btc) \<le> uint (btc_brp_max btc)) \<and>
    (r \<noteq> EOK \<longrightarrow> r = Err EINVAL) \<and>
    (r = EOK \<longrightarrow> timing_in_range btc bt' \<and> uint (bt_brp bt') = k * uint (btc_brp_inc btc) \<and>
       bt_prop_seg bt' = bt_prop_seg bt \<and> bt_phase_seg1 bt' = bt_phase_seg1 bt \<and>
       bt_phase_seg2 bt' = bt_phase_seg2 bt \<and>
       bt_bitrate bt' = freq div (bt_brp bt' * can_bit_time bt') \<and>
       bt_sample_point bt' = (1 + bt_prop_seg bt + bt_phase_seg1 bt) * 1000 div can_bit_time bt')"
proof -
  define y where "y = uint freq * uint (bt_tq bt) div uint (btc_brp_inc btc)"
  define k where "k = (y + 499999999) div 10 ^ 9"
  define brp :: u32 where "brp = ucast (fixup_brp64 freq bt btc)"
  have i: "1 \<le> btc_brp_inc btc" "btc_brp_inc btc \<le> 100000"
    using ok inc by (auto simp: btc_ok_def)
  note v = fixup_brp64_value [OF freq(2) i, of bt, folded y_def, folded k_def]
  have brp: "uint brp = k * uint (btc_brp_inc btc)"
    using v by (simp add: brp_def unsigned_ucast_eq take_bit_int_eq_self)
  have near: "k * 10 ^ 9 - 5 * 10 ^ 8 < y" "y \<le> k * 10 ^ 9 + 5 * 10 ^ 8"
    unfolding k_def by (simp_all add: minus_mod_eq_div_mult [symmetric])
  show ?thesis
  proof (cases "fixup_accepts brp bt btc")
    case True
    obtain bt' where "can_fixup_bittiming freq bt btc = Ret (EOK, bt')" "timing_in_range btc bt'"
        "bt_brp bt' = brp" "bt_prop_seg bt' = bt_prop_seg bt"
        "bt_phase_seg1 bt' = bt_phase_seg1 bt" "bt_phase_seg2 bt' = bt_phase_seg2 bt"
        "bt_bitrate bt' = freq div (bt_brp bt' * can_bit_time bt')"
        "bt_sample_point bt' = (CAN_SYNC_SEG + (bt_prop_seg bt + bt_phase_seg1 bt)) * 1000 div can_bit_time bt'"
      using fixup_accepted [OF ok freq(1)] True unfolding brp_def by blast
    then show ?thesis
      using True brp near unfolding y_def [symmetric]
      by (intro exI [of _ EOK] exI [of _ bt'] exI [of _ k])
        (simp add: fixup_accepts_def word_le_def add.assoc)
  next
    case False
    obtain bt' where "can_fixup_bittiming freq bt btc = Ret (Err EINVAL, bt')"
      using fixup_rejected False unfolding brp_def by blast
    then show ?thesis
      using False brp near unfolding y_def [symmetric]
      by (intro exI [of _ "Err EINVAL"] exI [of _ bt'] exI [of _ k])
        (auto simp: fixup_accepts_def word_le_def)
  qed
qed

lemma fixup_250k:
  "can_fixup_bittiming 8000000 (timing_250k\<lparr>bt_bitrate := 0, bt_brp := 0\<rparr>) sja1000_bittiming_const = Ret (EOK, timing_250k)"
  by code_simp

theorem can_fixup_bittiming_correct_witness:
  "can_fixup_bittiming 8000000 (timing_250k\<lparr>bt_bitrate := 0, bt_brp := 0\<rparr>) sja1000_bittiming_const = Ret (EOK, timing_250k) \<and>
     timing_in_range sja1000_bittiming_const timing_250k \<and> uint (bt_brp timing_250k) = 2"
  using can_fixup_bittiming_correct [OF sja1000_btc_ok, of 8000000 "timing_250k\<lparr>bt_bitrate := 0, bt_brp := 0\<rparr>"]
    fixup_250k by (simp add: sja1000_bittiming_const_def timing_250k_def)

end
