(* ===== verification/Driver_State.thy ===== *)
theory Driver_State
  imports Can_Frame Fixed_Pool Msg_Queue Bittiming
begin

unbundle bit_operations_syntax

text \<open>
  The state one SJA1000 device of the driver works on: \<^verbatim>\<open>struct net_device\<close>,
  \<^verbatim>\<open>struct net_device_stats\<close>, \<^verbatim>\<open>struct can_priv\<close> and \<^verbatim>\<open>struct sja1000_priv\<close>, the block
  pool, the session queues reached from the device, and the options of the driver that the
  packet path reads. The chip and the clock are the type parameter \<open>'h\<close>: register access
  goes through the function pointers \<^verbatim>\<open>read_reg\<close> and \<^verbatim>\<open>write_reg\<close> of the device, as in
  the source. The small operations of \<^verbatim>\<open>netif.c\<close> and \<^verbatim>\<open>linux/can/dev.h\<close> on this state
  follow.
\<close>

section \<open>Types\<close>

datatype can_state =
    CAN_STATE_ERROR_ACTIVE | CAN_STATE_ERROR_WARNING | CAN_STATE_ERROR_PASSIVE
  | CAN_STATE_BUS_OFF | CAN_STATE_STOPPED | CAN_STATE_SLEEPING

text \<open>The numeric value of the enumeration; the code compares and takes maxima.\<close>

fun state_num :: "can_state \<Rightarrow> nat" where
  "state_num CAN_STATE_ERROR_ACTIVE = 0"
| "state_num CAN_STATE_ERROR_WARNING = 1"
| "state_num CAN_STATE_ERROR_PASSIVE = 2"
| "state_num CAN_STATE_BUS_OFF = 3"
| "state_num CAN_STATE_STOPPED = 4"
| "state_num CAN_STATE_SLEEPING = 5"

instantiation can_state :: linorder
begin

definition less_eq_can_state :: "can_state \<Rightarrow> can_state \<Rightarrow> bool" where
  "less_eq_can_state a b \<longleftrightarrow> state_num a \<le> state_num b"

definition less_can_state :: "can_state \<Rightarrow> can_state \<Rightarrow> bool" where
  "less_can_state a b \<longleftrightarrow> state_num a < state_num b"

instance
proof
  have inj: "state_num a = state_num b \<Longrightarrow> a = b" for a b
    by (cases a; cases b) simp_all
  fix a b c :: can_state
  show "a < b \<longleftrightarrow> a \<le> b \<and> \<not> b \<le> a" "a \<le> a" "a \<le> b \<or> b \<le> a"
    "a \<le> b \<Longrightarrow> b \<le> c \<Longrightarrow> a \<le> c"
    by (auto simp: less_eq_can_state_def less_can_state_def)
  show "a \<le> b \<Longrightarrow> b \<le> a \<Longrightarrow> a = b"
    by (auto simp: less_eq_can_state_def intro: inj)
qed

end

record net_device_stats =
  rx_packets :: u64
  tx_packets :: u64
  rx_bytes :: u64
  tx_bytes :: u64
  rx_errors :: u64
  tx_errors :: u64
  rx_dropped :: u64
  tx_dropped :: u64
  rx_over_errors :: u64
  tx_aborted_errors :: u64

record can_device_stats =
  bus_error :: u32
  error_warning :: u32
  error_passive :: u32
  bus_off :: u32
  arbitration_lost :: u32
  restarts :: u32

record can_tdc =
  tdcv :: u32
  tdco :: u32
  tdcf :: u32

text \<open>A client session as the packet path sees it: its filter and its receive queue.\<close>

record client =
  mfilter :: u32
  rx_queue :: queue

text \<open>
  The device. \<open>do_set_mode\<close>, \<open>do_set_bittiming\<close> and \<open>do_set_btr\<close> say whether the callback
  is installed; the only functions the source installs there are \<^verbatim>\<open>sja1000_set_mode\<close>,
  \<^verbatim>\<open>sja1000_set_bittiming\<close> and \<^verbatim>\<open>sja1000_set_btr\<close>. The callbacks for the data bit timing and
  for the termination are installed nowhere and have no field. \<open>restart_pending\<close> is the state of the
  restart timer (the delay it was armed with).
\<close>

record 'h net_device =
  hw :: 'h
  read_reg :: "'h \<Rightarrow> nat \<Rightarrow> u8 \<times> 'h"
  write_reg :: "'h \<Rightarrow> nat \<Rightarrow> u8 \<Rightarrow> 'h"
  pre_irq :: "('h \<Rightarrow> 'h) option"
  post_irq :: "('h \<Rightarrow> 'h) option"
  clock_ms :: "'h \<Rightarrow> u32 \<times> 'h"
  reg_base :: bool
  priv_flags :: u16
  ocr :: u8
  cdr :: u8
  dev_state :: u32
  dev_flags :: u32
  dev_mtu :: nat
  dev_irq :: nat
  stats :: net_device_stats
  can_stats :: can_device_stats
  can_state :: can_state
  ctrlmode :: u32
  ctrlmode_supported :: u32
  restart_ms :: int
  restart_pending :: "int option"
  clock_freq :: u32
  bittiming :: can_bittiming
  data_bittiming :: can_bittiming
  bittiming_const :: "can_bittiming_const option"
  bitrate_const :: "u32 list option"
  bitrate_max :: u32
  data_bittiming_const :: "can_bittiming_const option"
  data_bitrate_const :: "u32 list option"
  tdc_const :: "can_tdc_const option"
  tdc :: can_tdc
  do_set_bittiming :: bool
  do_set_btr :: bool
  do_set_mode :: bool
  echo_skb :: "sk_buff option list"
  pool :: fixed_pool
  tx_queue :: queue
  clients :: "client list"
  optE :: bool
  optt :: bool
  optR_error_count :: int
  user_timestamp :: u32
  user_timestamp_time :: u32

section \<open>Register access\<close>

definition rd :: "nat \<Rightarrow> 'h net_device \<Rightarrow> u8 \<times> 'h net_device" where
  "rd reg d = (let (v, h) = read_reg d (hw d) reg in (v, d\<lparr>hw := h\<rparr>))"

definition wr :: "nat \<Rightarrow> u8 \<Rightarrow> 'h net_device \<Rightarrow> 'h net_device" where
  "wr reg v d = d\<lparr>hw := write_reg d (hw d) reg v\<rparr>"

text \<open>\<^verbatim>\<open>get_clock_time_us()/1000\<close>, stored in a 32-bit variable.\<close>

definition now_ms :: "'h net_device \<Rightarrow> u32 \<times> 'h net_device" where
  "now_ms d = (let (t, h) = clock_ms d (hw d) in (t, d\<lparr>hw := h\<rparr>))"

section \<open>Link and queue state\<close>

definition IFF_UP :: u32 where "IFF_UP = 1"
definition IFF_NOARP :: u32 where "IFF_NOARP = 0x80"
definition IFF_ECHO :: u32 where "IFF_ECHO = 0x40000"

lemmas [flag_defs] = IFF_UP_def IFF_NOARP_def IFF_ECHO_def

definition netif_carrier_ok :: "'h net_device \<Rightarrow> bool" where
  "netif_carrier_ok d \<longleftrightarrow> \<not> bit (dev_state d) 2"

definition netif_carrier_on :: "'h net_device \<Rightarrow> 'h net_device" where
  "netif_carrier_on d = d\<lparr>dev_state := dev_state d AND NOT (push_bit 2 1)\<rparr>"

definition netif_carrier_off :: "'h net_device \<Rightarrow> 'h net_device" where
  "netif_carrier_off d = d\<lparr>dev_state := dev_state d OR push_bit 2 1\<rparr>"

definition netif_queue_stopped :: "'h net_device \<Rightarrow> bool" where
  "netif_queue_stopped d = queue_is_stopped (tx_queue d)"

definition netif_wake_queue :: "'h net_device \<Rightarrow> 'h net_device" where
  "netif_wake_queue d = d\<lparr>tx_queue := queue_wake_up (tx_queue d)\<rparr>"

definition netif_stop_queue :: "'h net_device \<Rightarrow> 'h net_device" where
  "netif_stop_queue d = d\<lparr>tx_queue := queue_stop (tx_queue d)\<rparr>"

lemma netif_carrier_cases [simp]:
  "netif_carrier_ok (netif_carrier_on d)" "\<not> netif_carrier_ok (netif_carrier_off d)"
  by (simp_all add: netif_carrier_ok_def netif_carrier_on_def netif_carrier_off_def bit_simps)

end
