(* ===== verification/Skb.thy ===== *)
theory Skb
  imports Driver_State
begin

unbundle bit_operations_syntax

text \<open>
  Socket buffers over the block pool: \<^verbatim>\<open>kfree_skb\<close> of \<^verbatim>\<open>linux/skbuff.h\<close>, the
  allocation and echo operations of \<^verbatim>\<open>dev/skb.c\<close> and \<^verbatim>\<open>can_dev_dropped_skb\<close> of
  \<^verbatim>\<open>linux/can/dev.h\<close>. An operation that may store outside the block array returns an
  option, \<open>None\<close> being that store. The invariant \<open>owns\<close> says which blocks of the pool the
  device holds (the buffer in the echo slot) and which are held elsewhere; every operation
  keeps it, so no buffer is lost or freed twice.
\<close>

section \<open>Operations\<close>

definition kfree_skb :: "sk_buff \<Rightarrow> 'h net_device \<Rightarrow> 'h net_device option" where
  "kfree_skb skb d = do {
     p1 \<leftarrow> fixed_free (skb_head skb) (pool d);
     p2 \<leftarrow> fixed_free (skb_addr skb) p1;
     Some (d\<lparr>pool := p2\<rparr>) }"

definition alloc_can_skb :: "'h net_device \<Rightarrow> sk_buff option \<times> 'h net_device" where
  "alloc_can_skb d =
     (case fixed_malloc (pool d) of
        (None, p1) \<Rightarrow> (None, d\<lparr>pool := p1\<rparr>)
      | (Some a, p1) \<Rightarrow>
          (case fixed_malloc p1 of
             (None, p2) \<Rightarrow> (None, d\<lparr>pool := p2\<rparr>)
           | (Some b, p2) \<Rightarrow>
               (Some \<lparr>skb_addr = a, skb_head = b, skb_len = 0, is_echo = False,
                      skb_frame_len = 0, frame = zero_frame\<rparr>, d\<lparr>pool := p2\<rparr>)))"

definition alloc_can_err_skb :: "'h net_device \<Rightarrow> sk_buff option \<times> 'h net_device" where
  "alloc_can_err_skb d =
     (let (r, d') = alloc_can_skb d
      in (map_option (\<lambda>skb. skb\<lparr>frame := (frame skb)\<lparr>can_id := CAN_ERR_FLAG, cf_len := CAN_ERR_DLC\<rparr>\<rparr>) r, d'))"

definition count_tx_aborted :: "'h net_device \<Rightarrow> 'h net_device" where
  "count_tx_aborted d =
     d\<lparr>stats := (stats d)\<lparr>tx_dropped := tx_dropped (stats d) + 1,
                          tx_aborted_errors := tx_aborted_errors (stats d) + 1\<rparr>\<rparr>"

text \<open>The loop of \<^verbatim>\<open>can_flush_echo_skb\<close> over the slots from \<open>i\<close> on.\<close>

fun can_flush_echo_loop :: "nat \<Rightarrow> nat \<Rightarrow> 'h net_device \<Rightarrow> 'h net_device option" where
  "can_flush_echo_loop i 0 d = Some d"
| "can_flush_echo_loop i (Suc n) d =
     (case echo_skb d ! i of
        None \<Rightarrow> can_flush_echo_loop (Suc i) n d
      | Some skb \<Rightarrow> do {
          d1 \<leftarrow> kfree_skb skb d;
          can_flush_echo_loop (Suc i) n
            (count_tx_aborted (d1\<lparr>echo_skb := (echo_skb d1)[i := None]\<rparr>)) })"

definition can_flush_echo_skb :: "'h net_device \<Rightarrow> 'h net_device option" where
  "can_flush_echo_skb d = can_flush_echo_loop 0 (length (echo_skb d)) d"

definition can_put_echo_skb ::
  "sk_buff \<Rightarrow> nat \<Rightarrow> nat \<Rightarrow> 'h net_device \<Rightarrow> (rc \<times> 'h net_device) option" where
  "can_put_echo_skb skb idx frame_len d =
     (if length (echo_skb d) \<le> idx
      then do { d1 \<leftarrow> kfree_skb skb d; Some (Err EINVAL, d1) }
      else if \<not> has_flag (dev_flags d) IFF_ECHO
      then do { d1 \<leftarrow> kfree_skb skb d; Some (EOK, d1) }
      else case echo_skb d ! idx of
             None \<Rightarrow>
               (let skb1 = (can_create_echo_skb skb)\<lparr>skb_frame_len := frame_len\<rparr>
                in Some (EOK, d\<lparr>echo_skb := (echo_skb d)[idx := Some skb1]\<rparr>))
           | Some _ \<Rightarrow> do { d1 \<leftarrow> kfree_skb skb d; Some (Err EBUSY, d1) })"

text \<open>
  \<^verbatim>\<open>__can_get_echo_skb\<close>: the buffer and its payload length, the slot emptied.
\<close>

definition take_echo_skb :: "nat \<Rightarrow> 'h net_device \<Rightarrow> (sk_buff \<times> nat) option \<times> 'h net_device" where
  "take_echo_skb idx d =
     (if length (echo_skb d) \<le> idx then (None, d)
      else case echo_skb d ! idx of
             None \<Rightarrow> (None, d)
           | Some skb \<Rightarrow>
               (Some (skb, can_skb_get_data_len skb), d\<lparr>echo_skb := (echo_skb d)[idx := None]\<rparr>))"

definition can_free_echo_skb :: "nat \<Rightarrow> 'h net_device \<Rightarrow> 'h net_device option" where
  "can_free_echo_skb idx d =
     (if length (echo_skb d) \<le> idx then Some d
      else case echo_skb d ! idx of
             None \<Rightarrow> Some d
           | Some skb \<Rightarrow> do {
               d1 \<leftarrow> kfree_skb skb d;
               Some (d1\<lparr>echo_skb := (echo_skb d1)[idx := None]\<rparr>) })"

definition count_tx_dropped :: "'h net_device \<Rightarrow> 'h net_device" where
  "count_tx_dropped d = d\<lparr>stats := (stats d)\<lparr>tx_dropped := tx_dropped (stats d) + 1\<rparr>\<rparr>"

definition can_dropped_invalid_skb :: "sk_buff \<Rightarrow> 'h net_device \<Rightarrow> (bool \<times> 'h net_device) option" where
  "can_dropped_invalid_skb skb d =
     (if can_is_can_skb skb then Some (False, d)
      else do { d1 \<leftarrow> kfree_skb skb d; Some (True, count_tx_dropped d1) })"

definition can_dev_dropped_skb :: "sk_buff \<Rightarrow> 'h net_device \<Rightarrow> (bool \<times> 'h net_device) option" where
  "can_dev_dropped_skb skb d =
     (if has_flag (ctrlmode d) CAN_CTRLMODE_LISTENONLY
      then do { d1 \<leftarrow> kfree_skb skb d; Some (True, count_tx_dropped d1) }
      else can_dropped_invalid_skb skb d)"

section \<open>Ownership\<close>

definition skb_blocks :: "sk_buff \<Rightarrow> addr set" where
  "skb_blocks skb = {skb_addr skb, skb_head skb}"

definition echo_blocks :: "'h net_device \<Rightarrow> addr set" where
  "echo_blocks d = (\<Union>skb \<in> {s. Some s \<in> set (echo_skb d)}. skb_blocks skb)"

text \<open>
  \<open>owns blocks rest d\<close>: of the pool \<open>blocks\<close> exactly the blocks in \<open>rest\<close> and those of the
  buffer in the single echo slot are handed out, without overlap; the number of blocks
  handed out is even.
\<close>

definition owns :: "addr set \<Rightarrow> addr set \<Rightarrow> 'h net_device \<Rightarrow> bool" where
  "owns blocks rest d \<longleftrightarrow>
     length (echo_skb d) = 1 \<and>
     pool_inv blocks (rest \<union> echo_blocks d) (pool d) \<and> rest \<inter> echo_blocks d = {} \<and>
     (\<forall>skb. Some skb \<in> set (echo_skb d) \<longrightarrow> skb_addr skb \<noteq> skb_head skb \<and> is_echo skb) \<and>
     even (card rest)"

definition live_skb :: "addr set \<Rightarrow> sk_buff \<Rightarrow> bool" where
  "live_skb rest skb \<longleftrightarrow> skb_addr skb \<noteq> skb_head skb \<and> skb_blocks skb \<subseteq> rest"

lemma pool_inv_finite: "pool_inv blocks used p \<Longrightarrow> finite used"
  by (auto simp: pool_inv_def intro: finite_subset)

lemma owns_cong:
  assumes "pool d' = pool d" and "echo_skb d' = echo_skb d"
  shows "owns blocks rest d' = owns blocks rest d"
  using assms by (simp add: owns_def echo_blocks_def)

lemma echo_slot:
  assumes "owns blocks rest d"
  obtains (empty) "echo_skb d = [None]" "echo_blocks d = {}"
  | (full) skb where "echo_skb d = [Some skb]" "echo_blocks d = skb_blocks skb"
      "skb_addr skb \<noteq> skb_head skb" "is_echo skb"
proof -
  obtain e where e: "echo_skb d = [e]"
    using assms by (cases "echo_skb d") (auto simp: owns_def)
  show thesis
  proof (cases e)
    case None
    then show thesis using e empty by (simp add: echo_blocks_def)
  next
    case (Some skb)
    then show thesis using assms e full by (simp add: echo_blocks_def owns_def)
  qed
qed

lemma card_skb_blocks: "skb_addr skb \<noteq> skb_head skb \<Longrightarrow> card (skb_blocks skb) = 2"
  by (simp add: skb_blocks_def)

lemma finite_skb_blocks [simp]: "finite (skb_blocks skb)"
  by (simp add: skb_blocks_def)

lemma owns_finite: "owns blocks rest d \<Longrightarrow> finite rest \<and> finite blocks \<and> rest \<subseteq> blocks"
  by (auto simp: owns_def pool_inv_def intro: finite_subset)

lemma owns_even:
  assumes "owns blocks rest d"
  shows "even (card (rest \<union> echo_blocks d))"
proof (rule echo_slot [OF assms])
  assume "echo_blocks d = {}"
  then show ?thesis using assms by (simp add: owns_def)
next
  fix skb
  assume skb: "echo_blocks d = skb_blocks skb" "skb_addr skb \<noteq> skb_head skb"
  have "card (rest \<union> skb_blocks skb) = card rest + card (skb_blocks skb)"
    using assms skb(1) owns_finite [OF assms] by (intro card_Un_disjoint) (auto simp: owns_def)
  then show ?thesis using assms skb by (simp add: owns_def card_skb_blocks)
qed

text \<open>Taking blocks out of the pool and putting them back.\<close>

lemma owns_add:
  assumes o: "owns blocks rest d" and p: "pool_inv blocks (insert b (insert a (rest \<union> echo_blocks d))) p'"
    and ab: "a \<noteq> b" "{a, b} \<inter> (rest \<union> echo_blocks d) = {}"
  shows "owns blocks (insert a (insert b rest)) (d\<lparr>pool := p'\<rparr>)"
proof -
  have "card (insert a (insert b rest)) = card rest + 2"
    using ab owns_finite [OF o] by auto
  moreover have "insert b (insert a (rest \<union> echo_blocks d)) = insert a (insert b rest) \<union> echo_blocks d"
    by auto
  ultimately show ?thesis
    using o p ab by (auto simp: owns_def echo_blocks_def)
qed

lemma owns_alloc:
  assumes o: "owns blocks rest d" and a: "alloc_can_skb d = (r, d')"
  shows "case r of
      None \<Rightarrow> d' = d \<and> rest \<union> echo_blocks d = blocks
    | Some skb \<Rightarrow> owns blocks (rest \<union> skb_blocks skb) d' \<and> live_skb (rest \<union> skb_blocks skb) skb \<and>
        skb_blocks skb \<inter> rest = {} \<and> frame skb = zero_frame \<and> \<not> is_echo skb \<and> skb_len skb = 0 \<and>
        d' = d\<lparr>pool := pool d'\<rparr>"
proof -
  let ?used = "rest \<union> echo_blocks d"
  have inv: "pool_inv blocks ?used (pool d)"
    using o by (simp add: owns_def)
  obtain ra p1 where ma: "fixed_malloc (pool d) = (ra, p1)" by fastforce
  show ?thesis
  proof (cases ra)
    case None
    then have "?used = blocks \<and> p1 = pool d"
      using can_pool.alloc_None [OF inv] ma by blast
    then show ?thesis using None ma a by (auto simp: alloc_can_skb_def)
  next
    case (Some x)
    have x: "x \<in> blocks - ?used" "pool_inv blocks (insert x ?used) p1"
      using can_pool.alloc_Some [OF inv] ma Some by auto
    obtain rb p2 where mb: "fixed_malloc p1 = (rb, p2)" by fastforce
    have "rb \<noteq> None"
    proof
      assume "rb = None"
      then have full: "insert x ?used = blocks"
        using can_pool.alloc_None [OF x(2)] mb by blast
      have "card (insert x ?used) = card ?used + 1"
        using x(1) pool_inv_finite [OF inv] by simp
      then have "card ?used + 1 = 256"
        unfolding full using inv by (simp add: pool_inv_def FIXED_MAX_NUM_BLOCKS_def)
      moreover have "odd (card ?used + 1)" using owns_even [OF o] by simp
      ultimately show False by simp
    qed
    then obtain y where y: "rb = Some y" by auto
    note two = can_pool.alloc_two [OF inv ma [unfolded Some] mb [unfolded y]]
    then have "owns blocks (rest \<union> {x, y}) (d\<lparr>pool := p2\<rparr>)"
      using owns_add [OF o] by auto
    moreover have "r = Some \<lparr>skb_addr = x, skb_head = y, skb_len = 0, is_echo = False,
        skb_frame_len = 0, frame = zero_frame\<rparr>" "d' = d\<lparr>pool := p2\<rparr>"
      using a ma mb Some y by (simp_all add: alloc_can_skb_def)
    ultimately show ?thesis
      using two by (simp add: live_skb_def skb_blocks_def)
  qed
qed

lemma owns_kfree:
  assumes o: "owns blocks rest d" and live: "live_skb rest skb"
  obtains p' where "kfree_skb skb d = Some (d\<lparr>pool := p'\<rparr>)"
    and "owns blocks (rest - skb_blocks skb) (d\<lparr>pool := p'\<rparr>)"
proof -
  let ?used = "rest \<union> echo_blocks d"
  have inv: "pool_inv blocks ?used (pool d)"
    using o by (simp add: owns_def)
  have mem: "skb_head skb \<in> ?used" "skb_addr skb \<in> ?used - {skb_head skb}" "skb_addr skb \<noteq> skb_head skb"
    using live by (auto simp: live_skb_def skb_blocks_def)
  obtain p1 where p1: "fixed_free (skb_head skb) (pool d) = Some p1" "pool_inv blocks (?used - {skb_head skb}) p1"
    using can_pool.release_ok [OF inv mem(1)] by blast
  obtain p2 where p2: "fixed_free (skb_addr skb) p1 = Some p2"
    "pool_inv blocks (?used - {skb_head skb} - {skb_addr skb}) p2"
    using can_pool.release_ok [OF p1(2) mem(2)] by blast
  have "?used - {skb_head skb} - {skb_addr skb} = (rest - skb_blocks skb) \<union> echo_blocks d"
    using live o by (auto simp: live_skb_def skb_blocks_def owns_def)
  moreover have "even (card (rest - skb_blocks skb))"
    using live o owns_finite [OF o] card_Diff_subset [of "skb_blocks skb" rest]
    by (auto simp: live_skb_def owns_def card_skb_blocks)
  ultimately have "owns blocks (rest - skb_blocks skb) (d\<lparr>pool := p2\<rparr>)"
    using o p2(2) by (auto simp: owns_def echo_blocks_def)
  moreover have "kfree_skb skb d = Some (d\<lparr>pool := p2\<rparr>)"
    using p1(1) p2(1) by (simp add: kfree_skb_def)
  ultimately show ?thesis using that by blast
qed

lemma live_skb_split: "live_skb rest skb \<Longrightarrow> rest - skb_blocks skb \<union> skb_blocks skb = rest"
  by (auto simp: live_skb_def)

lemma owns_put_echo:
  assumes o: "owns blocks rest d" and live: "live_skb rest skb"
  obtains r d' where "can_put_echo_skb skb 0 n d = Some (r, d')"
    and "owns blocks (rest - skb_blocks skb) d'"
    and "d' = d\<lparr>pool := pool d', echo_skb := echo_skb d'\<rparr>"
    and "has_flag (dev_flags d) IFF_ECHO \<Longrightarrow> echo_skb d = [None] \<Longrightarrow>
      r = EOK \<and> echo_skb d' = [Some (skb\<lparr>is_echo := True, skb_frame_len := n\<rparr>)]"
    and "echo_skb d' = echo_skb d \<or> echo_skb d' = [Some (skb\<lparr>is_echo := True, skb_frame_len := n\<rparr>)]"
proof -
  have len: "length (echo_skb d) = 1" using o by (simp add: owns_def)
  obtain p' where free: "kfree_skb skb d = Some (d\<lparr>pool := p'\<rparr>)"
    "owns blocks (rest - skb_blocks skb) (d\<lparr>pool := p'\<rparr>)"
    by (rule owns_kfree [OF o live]) blast
  show ?thesis
  proof (cases "has_flag (dev_flags d) IFF_ECHO \<and> echo_skb d = [None]")
    case True
    let ?d = "d\<lparr>echo_skb := [Some (skb\<lparr>is_echo := True, skb_frame_len := n\<rparr>)]\<rparr>"
    have "even (card (rest - skb_blocks skb))"
      using live o owns_finite [OF o] card_Diff_subset [of "skb_blocks skb" rest]
      by (auto simp: live_skb_def owns_def card_skb_blocks)
    moreover have "echo_blocks ?d = skb_blocks skb" "echo_blocks d = {}"
      using True by (auto simp: echo_blocks_def skb_blocks_def)
    ultimately have "owns blocks (rest - skb_blocks skb) ?d"
      using o live True live_skb_split [OF live] by (auto simp: owns_def live_skb_def)
    then show ?thesis
      using True that [of EOK ?d] by (simp add: can_put_echo_skb_def can_create_echo_skb_def)
  next
    case False
    then have "\<exists>r. can_put_echo_skb skb 0 n d = Some (r, d\<lparr>pool := p'\<rparr>)"
      using len free(1)
      by (cases "echo_skb d") (auto simp: can_put_echo_skb_def split: option.splits)
    then show ?thesis
      using that [of _ "d\<lparr>pool := p'\<rparr>"] free(2) False by auto
  qed
qed

lemma owns_take_echo:
  assumes o: "owns blocks rest d" and t: "take_echo_skb 0 d = (r, d')"
  shows "case r of
      None \<Rightarrow> d' = d \<and> echo_skb d = [None]
    | Some (skb, n) \<Rightarrow> echo_skb d = [Some skb] \<and> n = can_skb_get_data_len skb \<and> is_echo skb \<and>
        owns blocks (rest \<union> skb_blocks skb) d' \<and> live_skb (rest \<union> skb_blocks skb) skb \<and>
        skb_blocks skb \<inter> rest = {} \<and> d' = d\<lparr>echo_skb := [None]\<rparr>"
proof (rule echo_slot [OF o])
  assume "echo_skb d = [None]"
  then show ?thesis using t by (auto simp: take_echo_skb_def)
next
  fix skb
  assume skb: "echo_skb d = [Some skb]" "echo_blocks d = skb_blocks skb"
    "skb_addr skb \<noteq> skb_head skb" "is_echo skb"
  have "even (card (rest \<union> skb_blocks skb))"
    using owns_even [OF o] skb(2) by simp
  then have "owns blocks (rest \<union> skb_blocks skb) (d\<lparr>echo_skb := [None]\<rparr>)"
    using o skb by (auto simp: owns_def echo_blocks_def)
  then show ?thesis
    using t skb o by (auto simp: take_echo_skb_def live_skb_def owns_def)
qed

lemma owns_free_echo:
  assumes o: "owns blocks rest d"
  obtains p' where "can_free_echo_skb 0 d = Some (d\<lparr>pool := p', echo_skb := [None]\<rparr>)"
    and "owns blocks rest (d\<lparr>pool := p', echo_skb := [None]\<rparr>)"
proof (rule echo_slot [OF o])
  assume e: "echo_skb d = [None]"
  then have "owns blocks rest (d\<lparr>echo_skb := [None]\<rparr>)"
    using o by (simp add: owns_def echo_blocks_def)
  then show ?thesis using that [of "pool d"] e by (simp add: can_free_echo_skb_def)
next
  fix skb
  assume skb: "echo_skb d = [Some skb]" "echo_blocks d = skb_blocks skb"
    "skb_addr skb \<noteq> skb_head skb" "is_echo skb"
  let ?r = "rest \<union> skb_blocks skb"
  have t: "owns blocks ?r (d\<lparr>echo_skb := [None]\<rparr>)" "live_skb ?r skb" "skb_blocks skb \<inter> rest = {}"
    using owns_take_echo [OF o, of _ "d\<lparr>echo_skb := [None]\<rparr>"] skb
    by (auto simp: take_echo_skb_def split: option.splits prod.splits)
  obtain p' where p': "kfree_skb skb (d\<lparr>echo_skb := [None]\<rparr>) = Some (d\<lparr>echo_skb := [None], pool := p'\<rparr>)"
    "owns blocks (?r - skb_blocks skb) (d\<lparr>echo_skb := [None], pool := p'\<rparr>)"
    by (rule owns_kfree [OF t(1,2)]) simp
  have "kfree_skb skb d = Some (d\<lparr>pool := p'\<rparr>)"
    using p'(1) by (auto simp: kfree_skb_def split: bind_splits dest: arg_cong [of _ _ pool])
  moreover have "?r - skb_blocks skb = rest" using t(3) by auto
  then have "owns blocks rest (d\<lparr>pool := p', echo_skb := [None]\<rparr>)"
    using p'(2) owns_cong [of "d\<lparr>pool := p', echo_skb := [None]\<rparr>" "d\<lparr>echo_skb := [None], pool := p'\<rparr>"]
    by simp
  ultimately show ?thesis
    using that [of p'] skb(1) by (simp add: can_free_echo_skb_def)
qed

lemma owns_flush_echo:
  assumes o: "owns blocks rest d"
  obtains d' where "can_flush_echo_skb d = Some d'" and "owns blocks rest d'"
    and "echo_skb d' = [None]"
    and "d' = d\<lparr>pool := pool d', echo_skb := [None], stats := stats d'\<rparr>"
proof (rule echo_slot [OF o])
  assume e: "echo_skb d = [None]"
  then show ?thesis using o that [of d] by (simp add: can_flush_echo_skb_def)
next
  fix skb
  assume skb: "echo_skb d = [Some skb]"
  obtain p' where f: "can_free_echo_skb 0 d = Some (d\<lparr>pool := p', echo_skb := [None]\<rparr>)"
    "owns blocks rest (d\<lparr>pool := p', echo_skb := [None]\<rparr>)"
    by (rule owns_free_echo [OF o])
  let ?d = "count_tx_aborted (d\<lparr>pool := p', echo_skb := [None]\<rparr>)"
  have "can_flush_echo_skb d = Some ?d"
    using f(1) skb
    by (auto simp: can_flush_echo_skb_def can_free_echo_skb_def split: bind_splits)
  moreover have "owns blocks rest ?d"
    using f(2) by (subst owns_cong [of _ "d\<lparr>pool := p', echo_skb := [None]\<rparr>"]) (simp_all add: count_tx_aborted_def)
  ultimately show ?thesis
    using that [of ?d] by (simp add: count_tx_aborted_def)
qed

end
