(* ===== verification/Sja1000.thy ===== *)
theory Sja1000
  imports Skb
begin

unbundle bit_operations_syntax

text \<open>
  The chip side of \<^verbatim>\<open>sja1000/sja1000.c\<close>: register map, reset and normal mode, chip
  initialisation, bit timing registers, transmission. Reading and writing a register is an
  effect on the chip \<open>'h\<close>, so register reads return a new device too. Also the register
  file of \<^verbatim>\<open>sja1000/vcan.c\<close>, which is plain memory.
\<close>

section \<open>Registers and bits\<close>

definition SJA1000_MOD :: nat where "SJA1000_MOD = 0x00"
definition SJA1000_CMR :: nat where "SJA1000_CMR = 0x01"
definition SJA1000_SR :: nat where "SJA1000_SR = 0x02"
definition SJA1000_IR :: nat where "SJA1000_IR = 0x03"
definition SJA1000_IER :: nat where "SJA1000_IER = 0x04"
definition SJA1000_BTR0 :: nat where "SJA1000_BTR0 = 0x06"
definition SJA1000_BTR1 :: nat where "SJA1000_BTR1 = 0x07"
definition SJA1000_OCR :: nat where "SJA1000_OCR = 0x08"
definition SJA1000_ALC :: nat where "SJA1000_ALC = 0x0B"
definition SJA1000_ECC :: nat where "SJA1000_ECC = 0x0C"
definition SJA1000_RXERR :: nat where "SJA1000_RXERR = 0x0E"
definition SJA1000_TXERR :: nat where "SJA1000_TXERR = 0x0F"
definition SJA1000_ACCC0 :: nat where "SJA1000_ACCC0 = 0x10"
definition SJA1000_ACCM0 :: nat where "SJA1000_ACCM0 = 0x14"
definition SJA1000_FI :: nat where "SJA1000_FI = 0x10"
definition SJA1000_ID1 :: nat where "SJA1000_ID1 = 0x11"
definition SJA1000_ID2 :: nat where "SJA1000_ID2 = 0x12"
definition SJA1000_ID3 :: nat where "SJA1000_ID3 = 0x13"
definition SJA1000_ID4 :: nat where "SJA1000_ID4 = 0x14"
definition SJA1000_SFF_BUF :: u8 where "SJA1000_SFF_BUF = 0x13"
definition SJA1000_EFF_BUF :: u8 where "SJA1000_EFF_BUF = 0x15"
definition SJA1000_CDR :: nat where "SJA1000_CDR = 0x1F"

definition SJA1000_FI_FF :: u8 where "SJA1000_FI_FF = 0x80"
definition SJA1000_FI_RTR :: u8 where "SJA1000_FI_RTR = 0x40"
definition MOD_RM :: u8 where "MOD_RM = 0x01"
definition MOD_LOM :: u8 where "MOD_LOM = 0x02"
definition MOD_STM :: u8 where "MOD_STM = 0x04"
definition CMD_SRR :: u8 where "CMD_SRR = 0x10"
definition CMD_CDO :: u8 where "CMD_CDO = 0x08"
definition CMD_RRB :: u8 where "CMD_RRB = 0x04"
definition CMD_AT :: u8 where "CMD_AT = 0x02"
definition CMD_TR :: u8 where "CMD_TR = 0x01"
definition IRQ_BEI :: u8 where "IRQ_BEI = 0x80"
definition IRQ_ALI :: u8 where "IRQ_ALI = 0x40"
definition IRQ_EPI :: u8 where "IRQ_EPI = 0x20"
definition IRQ_DOI :: u8 where "IRQ_DOI = 0x08"
definition IRQ_EI :: u8 where "IRQ_EI = 0x04"
definition IRQ_TI :: u8 where "IRQ_TI = 0x02"
definition IRQ_RI :: u8 where "IRQ_RI = 0x01"
definition IRQ_ALL :: u8 where "IRQ_ALL = 0xFF"
definition IRQ_OFF :: u8 where "IRQ_OFF = 0x00"
definition SR_BS :: u8 where "SR_BS = 0x80"
definition SR_ES :: u8 where "SR_ES = 0x40"
definition SR_TCS :: u8 where "SR_TCS = 0x08"
definition SR_RBS :: u8 where "SR_RBS = 0x01"
definition ECC_SEG :: u8 where "ECC_SEG = 0x1F"
definition ECC_DIR :: u8 where "ECC_DIR = 0x20"
definition ECC_BIT :: u8 where "ECC_BIT = 0x00"
definition ECC_FORM :: u8 where "ECC_FORM = 0x40"
definition ECC_STUFF :: u8 where "ECC_STUFF = 0x80"
definition ECC_MASK :: u8 where "ECC_MASK = 0xC0"
definition CDR_PELICAN :: u8 where "CDR_PELICAN = 0x80"
definition OCR_MODE_NORMAL :: u8 where "OCR_MODE_NORMAL = 0x02"

definition SJA1000_MAX_IRQ :: nat where "SJA1000_MAX_IRQ = 20"
definition SJA1000_CUSTOM_IRQ_HANDLER :: u16 where "SJA1000_CUSTOM_IRQ_HANDLER = 1"
definition SJA1000_QUIRK_NO_CDR_REG :: u16 where "SJA1000_QUIRK_NO_CDR_REG = 2"
definition SJA1000_QUIRK_RESET_ON_OVERRUN :: u16 where "SJA1000_QUIRK_RESET_ON_OVERRUN = 4"

lemmas [reg_defs] =
  SJA1000_MOD_def SJA1000_CMR_def SJA1000_SR_def SJA1000_IR_def SJA1000_IER_def
  SJA1000_BTR0_def SJA1000_BTR1_def SJA1000_OCR_def SJA1000_ALC_def SJA1000_ECC_def
  SJA1000_RXERR_def SJA1000_TXERR_def SJA1000_ACCC0_def SJA1000_ACCM0_def SJA1000_FI_def
  SJA1000_ID1_def SJA1000_ID2_def SJA1000_ID3_def SJA1000_ID4_def SJA1000_SFF_BUF_def
  SJA1000_EFF_BUF_def SJA1000_CDR_def SJA1000_FI_FF_def SJA1000_FI_RTR_def MOD_RM_def
  MOD_LOM_def MOD_STM_def CMD_SRR_def CMD_CDO_def CMD_RRB_def CMD_AT_def CMD_TR_def
  IRQ_BEI_def IRQ_ALI_def IRQ_EPI_def IRQ_DOI_def IRQ_EI_def IRQ_TI_def IRQ_RI_def
  IRQ_ALL_def IRQ_OFF_def SR_BS_def SR_ES_def SR_TCS_def SR_RBS_def ECC_SEG_def ECC_DIR_def
  ECC_BIT_def ECC_FORM_def ECC_STUFF_def ECC_MASK_def CDR_PELICAN_def OCR_MODE_NORMAL_def
  SJA1000_MAX_IRQ_def SJA1000_CUSTOM_IRQ_HANDLER_def SJA1000_QUIRK_NO_CDR_REG_def
  SJA1000_QUIRK_RESET_ON_OVERRUN_def

section \<open>The virtual chip\<close>

text \<open>\<^verbatim>\<open>vcan_read_reg\<close> and \<^verbatim>\<open>vcan_write_reg\<close>: the register file is memory.\<close>

definition vcan_read_reg :: "(nat \<Rightarrow> u8) \<Rightarrow> nat \<Rightarrow> u8 \<times> (nat \<Rightarrow> u8)" where
  "vcan_read_reg h port = (h port, h)"

definition vcan_write_reg :: "(nat \<Rightarrow> u8) \<Rightarrow> nat \<Rightarrow> u8 \<Rightarrow> (nat \<Rightarrow> u8)" where
  "vcan_write_reg h port v = h(port := v)"

section \<open>Modes\<close>

definition sja1000_write_cmdreg :: "u8 \<Rightarrow> 'h net_device \<Rightarrow> 'h net_device" where
  "sja1000_write_cmdreg v d = snd (rd SJA1000_SR (wr SJA1000_CMR v d))"

definition sja1000_is_absent :: "'h net_device \<Rightarrow> bool \<times> 'h net_device" where
  "sja1000_is_absent d = (let (v, d') = rd SJA1000_MOD d in (v = 0xFF, d'))"

text \<open>\<^verbatim>\<open>sja1000_probe_chip\<close>; the result is whether it returned nonzero (chip found).\<close>

definition sja1000_probe_chip :: "'h net_device \<Rightarrow> bool \<times> 'h net_device" where
  "sja1000_probe_chip d =
     (if reg_base d then (let (absent, d') = sja1000_is_absent d in (\<not> absent, d')) else (True, d))"

fun reset_loop :: "nat \<Rightarrow> u8 \<Rightarrow> 'h net_device \<Rightarrow> 'h net_device" where
  "reset_loop 0 status d = d"
| "reset_loop (Suc n) status d =
     (if has_flag status MOD_RM then d\<lparr>can_state := CAN_STATE_STOPPED\<rparr>
      else let (status', d') = rd SJA1000_MOD (wr SJA1000_MOD MOD_RM d)
           in reset_loop n status' d')"

definition set_reset_mode :: "'h net_device \<Rightarrow> 'h net_device" where
  "set_reset_mode d =
     (let (status, d1) = rd SJA1000_MOD d
      in reset_loop 100 status (wr SJA1000_IER IRQ_OFF d1))"

text \<open>
  The mode register value of one round of \<^verbatim>\<open>set_normal_mode\<close>; \<open>m\<close> is the value of the
  round before.
\<close>

definition normal_mod_reg :: "u32 \<Rightarrow> u8 \<Rightarrow> u8" where
  "normal_mod_reg mode m =
     (let m1 = (if has_flag mode CAN_CTRLMODE_LISTENONLY then m OR MOD_LOM else m)
      in if has_flag mode CAN_CTRLMODE_PRESUME_ACK then m1 OR MOD_STM else m1)"

fun normal_loop :: "nat \<Rightarrow> u8 \<Rightarrow> u8 \<Rightarrow> 'h net_device \<Rightarrow> 'h net_device" where
  "normal_loop 0 m status d = d"
| "normal_loop (Suc n) m status d =
     (if \<not> has_flag status MOD_RM
      then (let d1 = d\<lparr>can_state := CAN_STATE_ERROR_ACTIVE\<rparr>
            in if has_flag (ctrlmode d1) CAN_CTRLMODE_BERR_REPORTING
               then wr SJA1000_IER IRQ_ALL d1
               else wr SJA1000_IER (IRQ_ALL AND NOT IRQ_BEI) d1)
      else let m' = normal_mod_reg (ctrlmode d) m;
               (status', d') = rd SJA1000_MOD (wr SJA1000_MOD m' d)
           in normal_loop n m' status' d')"

definition set_normal_mode :: "'h net_device \<Rightarrow> 'h net_device" where
  "set_normal_mode d = (let (status, d1) = rd SJA1000_MOD d in normal_loop 100 0 status d1)"

definition chipset_init :: "'h net_device \<Rightarrow> 'h net_device" where
  "chipset_init d =
     (let d0 = (if has_flag (priv_flags d) SJA1000_QUIRK_NO_CDR_REG then d
                else wr SJA1000_CDR (cdr d OR CDR_PELICAN) d);
          d1 = wr (SJA1000_ACCC0 + 3) 0 (wr (SJA1000_ACCC0 + 2) 0
                 (wr (SJA1000_ACCC0 + 1) 0 (wr SJA1000_ACCC0 0 d0)));
          d2 = wr (SJA1000_ACCM0 + 3) 0xFF (wr (SJA1000_ACCM0 + 2) 0xFF
                 (wr (SJA1000_ACCM0 + 1) 0xFF (wr SJA1000_ACCM0 0xFF d1)))
      in wr SJA1000_OCR (ocr d OR OCR_MODE_NORMAL) d2)"

definition sja1000_start :: "'h net_device \<Rightarrow> 'h net_device" where
  "sja1000_start d =
     (let d1 = (if can_state d \<noteq> CAN_STATE_STOPPED then set_reset_mode d else d);
          d2 = (if has_flag (priv_flags d1) SJA1000_QUIRK_NO_CDR_REG then d1
                else let (v, d') = rd SJA1000_CDR d1
                     in if has_flag v CDR_PELICAN then d' else chipset_init d');
          d3 = wr SJA1000_RXERR 0 (wr SJA1000_TXERR 0 d2);
          d4 = snd (rd SJA1000_ECC d3);
          d5 = snd (rd SJA1000_IR d4)
      in set_normal_mode d5)"

datatype can_mode = CAN_MODE_STOP | CAN_MODE_START | CAN_MODE_SLEEP

definition sja1000_set_mode :: "can_mode \<Rightarrow> 'h net_device \<Rightarrow> rc \<times> 'h net_device" where
  "sja1000_set_mode mode d =
     (case mode of
        CAN_MODE_START \<Rightarrow>
          (let d1 = sja1000_start d
           in (EOK, if netif_queue_stopped d1 then netif_wake_queue d1 else d1))
      | _ \<Rightarrow> (Err EOPNOTSUPP, d))"

section \<open>Bit timing\<close>

definition sja1000_btr0 :: "can_bittiming \<Rightarrow> u8" where
  "sja1000_btr0 bt =
     ucast (((bt_brp bt - 1) AND 0x3F) OR push_bit 6 ((bt_sjw bt - 1) AND 0x3))"

definition sja1000_btr1 :: "u32 \<Rightarrow> can_bittiming \<Rightarrow> u8" where
  "sja1000_btr1 mode bt =
     (let b = ucast (((bt_prop_seg bt + bt_phase_seg1 bt - 1) AND 0xF) OR
                     push_bit 4 ((bt_phase_seg2 bt - 1) AND 0x7))
      in if has_flag mode CAN_CTRLMODE_3_SAMPLES then b OR 0x80 else b)"

definition sja1000_set_btr :: "u8 \<Rightarrow> u8 \<Rightarrow> 'h net_device \<Rightarrow> 'h net_device" where
  "sja1000_set_btr btr0 btr1 d = wr SJA1000_BTR1 btr1 (wr SJA1000_BTR0 btr0 d)"

definition sja1000_set_bittiming :: "'h net_device \<Rightarrow> 'h net_device" where
  "sja1000_set_bittiming d =
     sja1000_set_btr (sja1000_btr0 (bittiming d)) (sja1000_btr1 (ctrlmode d) (bittiming d)) d"

definition sja1000_get_berr_counter :: "'h net_device \<Rightarrow> (u16 \<times> u16) \<times> 'h net_device" where
  "sja1000_get_berr_counter d =
     (let (tx, d1) = rd SJA1000_TXERR d; (rx, d2) = rd SJA1000_RXERR d1
      in ((ucast tx, ucast rx), d2))"

section \<open>Transmission\<close>

text \<open>
  The frame information byte, the identifier registers and the data loop of
  \<^verbatim>\<open>sja1000_start_xmit\<close>; \<open>dreg\<close> is an 8-bit counter as in the source.
\<close>

definition xmit_fi :: "u32 \<Rightarrow> can_frame \<Rightarrow> u8" where
  "xmit_fi mode cf =
     (let fi = can_get_cc_dlc cf mode;
          fi1 = (if has_flag (can_id cf) CAN_RTR_FLAG then fi OR SJA1000_FI_RTR else fi)
      in if has_flag (can_id cf) CAN_EFF_FLAG then fi1 OR SJA1000_FI_FF else fi1)"

definition xmit_header :: "u32 \<Rightarrow> can_frame \<Rightarrow> 'h net_device \<Rightarrow> u8 \<times> 'h net_device" where
  "xmit_header mode cf d =
     (let id = can_id cf; d1 = wr SJA1000_FI (xmit_fi mode cf) d in
      if has_flag id CAN_EFF_FLAG
      then (SJA1000_EFF_BUF,
            wr SJA1000_ID4 (ucast (push_bit 3 (id AND 0x1F)))
             (wr SJA1000_ID3 (ucast (drop_bit 5 (id AND 0x1FE0)))
               (wr SJA1000_ID2 (ucast (drop_bit 13 (id AND 0x1FE000)))
                 (wr SJA1000_ID1 (ucast (drop_bit 21 (id AND 0x1FE00000))) d1))))
      else (SJA1000_SFF_BUF,
            wr SJA1000_ID2 (ucast (push_bit 5 (id AND 0x7)))
             (wr SJA1000_ID1 (ucast (drop_bit 3 (id AND 0x7F8))) d1)))"

fun xmit_data :: "u8 \<Rightarrow> u8 list \<Rightarrow> 'h net_device \<Rightarrow> 'h net_device" where
  "xmit_data dreg [] d = d"
| "xmit_data dreg (b # bs) d = xmit_data (dreg + 1) bs (wr (unat dreg) b d)"

definition xmit_command :: "u32 \<Rightarrow> u8" where
  "xmit_command mode =
     (if has_flag mode CAN_CTRLMODE_ONE_SHOT then CMD_AT else 0) OR
     (if has_flag mode CAN_CTRLMODE_LOOPBACK then CMD_SRR else CMD_TR)"

text \<open>
  The data loop runs \<^verbatim>\<open>cf->len\<close> times; after the validity check that is at most eight, the
  size of the payload array.
\<close>

definition sja1000_start_xmit :: "sk_buff \<Rightarrow> 'h net_device \<Rightarrow> 'h net_device option" where
  "sja1000_start_xmit skb d = do {
     (dropped, d1) \<leftarrow> can_dev_dropped_skb skb d;
     if dropped then Some d1
     else do {
       let cf = frame skb;
       let d2 = netif_stop_queue d1;
       let (dreg, d3) = xmit_header (ctrlmode d2) cf d2;
       let d4 = xmit_data dreg (take (unat (cf_len cf)) (cf_data cf)) d3;
       (r, d5) \<leftarrow> can_put_echo_skb skb 0 0 d4;
       Some (sja1000_write_cmdreg (xmit_command (ctrlmode d5)) d5) } }"

section \<open>What register access leaves alone\<close>

text \<open>
  \<open>hw_only d d'\<close>: only the chip has changed; \<open>chip_only d d'\<close>: only the chip and the recorded
  controller state have.
\<close>

definition hw_only :: "'h net_device \<Rightarrow> 'h net_device \<Rightarrow> bool" where
  "hw_only d d' \<longleftrightarrow> (\<exists>h. d' = d\<lparr>hw := h\<rparr>)"

definition chip_only :: "'h net_device \<Rightarrow> 'h net_device \<Rightarrow> bool" where
  "chip_only d d' \<longleftrightarrow> (\<exists>h s. d' = d\<lparr>hw := h, can_state := s\<rparr>)"

lemma hw_only_refl [simp, frame_rules]: "hw_only d d"
  by (auto simp: hw_only_def intro: exI [of _ "hw d"])

lemma chip_only_refl [simp, frame_rules]: "chip_only d d"
  by (auto simp: chip_only_def intro!: exI [of _ "hw d"] exI [of _ "can_state d"])

lemma hw_only_trans: "hw_only d d1 \<Longrightarrow> hw_only d1 d2 \<Longrightarrow> hw_only d d2"
  by (auto simp: hw_only_def)

lemma chip_onlyI: "d' = d\<lparr>hw := h, can_state := s\<rparr> \<Longrightarrow> chip_only d d'"
  unfolding chip_only_def by blast

lemma chip_onlyE: "chip_only d d' \<Longrightarrow> (\<And>h s. d' = d\<lparr>hw := h, can_state := s\<rparr> \<Longrightarrow> P) \<Longrightarrow> P"
  unfolding chip_only_def by blast

lemma chip_only_trans: "chip_only d d1 \<Longrightarrow> chip_only d1 d2 \<Longrightarrow> chip_only d d2"
  by (elim chip_onlyE) (rule chip_onlyI, simp)

lemma hw_imp_chip_only: "hw_only d d' \<Longrightarrow> chip_only d d'"
  by (auto simp: hw_only_def chip_only_def intro!: exI [of _ "can_state d"])

lemma hw_only_rd: "rd r d = (v, d') \<Longrightarrow> hw_only d d'"
  by (auto simp: rd_def hw_only_def split: prod.splits)

lemma hw_only_snd_rd [simp]: "hw_only d (snd (rd r d))"
  by (rule hw_only_rd [of r d "fst (rd r d)"]) simp

lemma hw_only_wr [simp]: "hw_only d (wr r v d)"
  by (auto simp: wr_def hw_only_def)

lemma hw_only_wr_trans: "hw_only d d' \<Longrightarrow> hw_only d (wr r v d')"
  using hw_only_trans hw_only_wr by blast

lemma hw_only_rd_trans: "hw_only d d' \<Longrightarrow> rd r d' = (v, d'') \<Longrightarrow> hw_only d d''"
  using hw_only_trans hw_only_rd by blast

lemma hw_only_cmdreg [simp]: "hw_only d (sja1000_write_cmdreg v d)"
  unfolding sja1000_write_cmdreg_def
  by (rule hw_only_trans [OF hw_only_wr hw_only_snd_rd])

lemma hw_only_absent: "sja1000_is_absent d = (b, d') \<Longrightarrow> hw_only d d'"
  by (auto simp: sja1000_is_absent_def dest: hw_only_rd split: prod.splits)

lemma hw_only_xmit_data: "hw_only d (xmit_data r bs d)"
  by (induction r bs d rule: xmit_data.induct) (auto intro: hw_only_trans [OF hw_only_wr])

lemma hw_only_xmit_header: "xmit_header m cf d = (r, d') \<Longrightarrow> hw_only d d'"
  by (auto simp: xmit_header_def Let_def intro!: hw_only_wr_trans split: if_splits)

lemma hw_only_chipset_init: "hw_only d (chipset_init d)"
  by (auto simp: chipset_init_def Let_def intro!: hw_only_wr_trans)

lemma chip_only_set_state: "chip_only d d' \<Longrightarrow> chip_only d (d'\<lparr>can_state := s\<rparr>)"
  by (elim chip_onlyE) (rule chip_onlyI, simp)

lemma chip_only_wr: "chip_only d d' \<Longrightarrow> chip_only d (wr r v d')"
  using chip_only_trans hw_imp_chip_only hw_only_wr by blast

lemma chip_only_rd: "chip_only d d' \<Longrightarrow> rd r d' = (v, d'') \<Longrightarrow> chip_only d d''"
  using chip_only_trans hw_imp_chip_only hw_only_rd by blast

lemma chip_only_reset_loop: "chip_only d (reset_loop n status d)"
proof (induction n status d rule: reset_loop.induct)
  case (2 n status d)
  obtain v d' where r: "rd SJA1000_MOD (wr SJA1000_MOD MOD_RM d) = (v, d')" by fastforce
  have "chip_only d d'"
    using chip_only_rd [OF chip_only_wr [OF chip_only_refl] r] .
  then show ?case
    using 2 [OF _ r [symmetric] refl] r chip_only_trans by (auto intro: chip_only_set_state)
qed simp

lemma chip_only_normal_loop: "chip_only d (normal_loop n m status d)"
proof (induction n m status d rule: normal_loop.induct)
  case (2 n m status d)
  let ?m = "normal_mod_reg (ctrlmode d) m"
  obtain v d' where r: "rd SJA1000_MOD (wr SJA1000_MOD ?m d) = (v, d')" by fastforce
  have "chip_only d d'"
    using chip_only_rd [OF chip_only_wr [OF chip_only_refl] r] .
  then show ?case
    using 2 [OF _ refl r [symmetric] refl] r chip_only_trans
    by (auto simp: Let_def intro!: chip_only_wr chip_only_set_state)
qed simp

lemma chip_only_set_reset_mode: "chip_only d (set_reset_mode d)"
proof -
  obtain v d1 where r: "rd SJA1000_MOD d = (v, d1)" by fastforce
  then have "chip_only d (wr SJA1000_IER IRQ_OFF d1)"
    by (intro chip_only_wr chip_only_rd [OF chip_only_refl r])
  then show ?thesis
    using r chip_only_trans chip_only_reset_loop by (fastforce simp: set_reset_mode_def)
qed

lemma chip_only_set_normal_mode: "chip_only d (set_normal_mode d)"
proof -
  obtain v d1 where r: "rd SJA1000_MOD d = (v, d1)" by fastforce
  then show ?thesis
    using chip_only_trans [OF chip_only_rd [OF chip_only_refl r] chip_only_normal_loop]
    by (simp add: set_normal_mode_def)
qed

lemma chip_only_chipset_init: "chip_only d d' \<Longrightarrow> chip_only d (chipset_init d')"
  by (rule chip_only_trans [OF _ hw_imp_chip_only [OF hw_only_chipset_init]])

lemma chip_only_snd_rd: "chip_only d d' \<Longrightarrow> chip_only d (snd (rd r d'))"
  by (rule chip_only_trans [OF _ hw_imp_chip_only [OF hw_only_snd_rd]])

lemma sja1000_start_split: "\<exists>d'. chip_only d d' \<and> sja1000_start d = set_normal_mode d'"
proof -
  define d1 where "d1 = (if can_state d \<noteq> CAN_STATE_STOPPED then set_reset_mode d else d)"
  define d2 where "d2 = (if has_flag (priv_flags d1) SJA1000_QUIRK_NO_CDR_REG then d1
                else let (v, d') = rd SJA1000_CDR d1
                     in if has_flag v CDR_PELICAN then d' else chipset_init d')"
  have 1: "chip_only d d1"
    by (simp add: d1_def chip_only_set_reset_mode)
  obtain v d' where r: "rd SJA1000_CDR d1 = (v, d')" by fastforce
  have "chip_only d d'"
    using chip_only_rd [OF 1 r] .
  then have 2: "chip_only d d2"
    using 1 r by (simp add: d2_def chip_only_chipset_init)
  have "chip_only d (snd (rd SJA1000_IR (snd (rd SJA1000_ECC (wr SJA1000_RXERR 0 (wr SJA1000_TXERR 0 d2))))))"
    using 2 by (intro chip_only_snd_rd chip_only_wr)
  then show ?thesis
    by (intro exI conjI) (auto simp: sja1000_start_def Let_def d1_def [symmetric] d2_def [symmetric])
qed

lemma chip_only_sja1000_start: "chip_only d (sja1000_start d)"
  using sja1000_start_split [of d] chip_only_trans [OF _ chip_only_set_normal_mode] by metis

section \<open>Bit timing registers\<close>

lemma low_masks:
  "(0x3F :: 'a::len word) = mask 6" "(0x3 :: 'a word) = mask 2"
  "(0xF :: 'a word) = mask 4" "(0x7 :: 'a word) = mask 3"
  by (simp_all add: mask_eq_exp_minus_1)

lemma unat_less_take_bit: "unat (a :: 'a::len word) < 2 ^ k \<Longrightarrow> take_bit k a = a"
  by (simp add: word_unat_eq_iff unsigned_take_bit_eq take_bit_nat_eq_self)

text \<open>Two small fields packed into a byte and read back.\<close>

lemma pack_fields:
  fixes a b :: u32
  assumes "unat a < 2 ^ k" and "unat b < 2 ^ l" and "k + l \<le> 8"
  shows "unat ((ucast ((a AND mask k) OR push_bit k (b AND mask l)) :: u8) AND mask k) = unat a" (is ?A)
    and "unat (drop_bit k (ucast ((a AND mask k) OR push_bit k (b AND mask l)) :: u8)) = unat b" (is ?B)
proof -
  let ?w = "ucast ((a AND mask k) OR push_bit k (b AND mask l)) :: u8"
  have bits: "bit a n \<Longrightarrow> n < k" "bit b n \<Longrightarrow> n < l" for n
    using unat_less_take_bit [OF assms(1)] unat_less_take_bit [OF assms(2)]
    by (metis bit_take_bit_iff)+
  have "unat a < 2 ^ 8" "unat b < 2 ^ 8"
    using assms power_increasing [of k 8 "2::nat"] power_increasing [of l 8 "2::nat"] by auto
  then have cast: "unat (ucast a :: u8) = unat a" "unat (ucast b :: u8) = unat b"
    by (simp_all add: unsigned_ucast_eq take_bit_nat_eq_self)
  have "?w AND mask k = ucast a"
    by (rule bit_word_eqI) (use assms(3) in \<open>auto simp: bit_simps dest: bits\<close>)
  then show ?A using cast by simp
  have "drop_bit k ?w = ucast b"
    by (rule bit_word_eqI) (use assms(3) in \<open>auto simp: bit_simps dest: bits\<close>)
  then show ?B using cast by simp
qed

lemma bit_0x80: "bit (0x80 :: u8) n \<longleftrightarrow> n = 7"
  using bit_exp_iff [where ?'a = u8, of 7 n] by auto

lemma top_bit_or:
  fixes b :: u8
  assumes "\<And>n. bit b n \<Longrightarrow> n < 7"
  shows "(b OR 0x80) AND mask 4 = b AND mask 4" "drop_bit 4 (b OR 0x80) AND mask 3 = drop_bit 4 b"
    "drop_bit 4 b AND mask 3 = drop_bit 4 b" "\<not> bit b 7" "bit (b OR 0x80) 7"
proof -
  show "(b OR 0x80) AND mask 4 = b AND mask 4"
    by (rule bit_word_eqI) (auto simp only: bit_and_iff bit_or_iff bit_mask_iff bit_0x80)
  show "drop_bit 4 (b OR 0x80) AND mask 3 = drop_bit 4 b"
    by (rule bit_word_eqI) (auto simp only: bit_and_iff bit_or_iff bit_drop_bit_eq bit_mask_iff comp_apply bit_0x80 possible_bit_word dest: assms)
  show "drop_bit 4 b AND mask 3 = drop_bit 4 b"
    by (rule bit_word_eqI) (auto simp: bit_simps dest: assms)
  show "\<not> bit b 7" "bit (b OR 0x80) 7"
    using assms by (auto simp: bit_or_iff bit_0x80)
qed

lemma unat_pred:
  assumes "1 \<le> x" and "x \<le> (of_nat n :: u32)" and "n < 2 ^ 32"
  shows "unat (x - 1) = unat x - 1" and "unat x \<le> n" and "1 \<le> unat x"
proof -
  show "1 \<le> unat x" using assms(1) by (simp add: word_le_nat_alt)
  then have "x \<noteq> 0" by auto
  then show "unat (x - 1) = unat x - 1" by (rule unat_minus_one)
  show "unat x \<le> n"
    using assms(2,3) by (simp add: word_le_nat_alt unat_of_nat)
qed

lemma btr_fields:
  assumes "timing_in_range sja1000_bittiming_const bt"
  shows "unat (sja1000_btr0 bt AND 0x3F) + 1 = unat (bt_brp bt) \<and>
    unat (drop_bit 6 (sja1000_btr0 bt)) + 1 = unat (bt_sjw bt) \<and>
    unat (sja1000_btr1 mode bt AND 0xF) + 1 = unat (bt_prop_seg bt + bt_phase_seg1 bt) \<and>
    unat (drop_bit 4 (sja1000_btr1 mode bt) AND 0x7) + 1 = unat (bt_phase_seg2 bt) \<and>
    bit (sja1000_btr1 mode bt) 7 = has_flag mode CAN_CTRLMODE_3_SAMPLES"
proof -
  have r: "1 \<le> bt_brp bt" "bt_brp bt \<le> of_nat 64" "1 \<le> bt_sjw bt" "bt_sjw bt \<le> of_nat 4"
    "1 \<le> bt_prop_seg bt + bt_phase_seg1 bt" "bt_prop_seg bt + bt_phase_seg1 bt \<le> of_nat 16"
    "1 \<le> bt_phase_seg2 bt" "bt_phase_seg2 bt \<le> of_nat 8"
    using assms by (simp_all add: timing_in_range_def sja1000_bittiming_const_def)
  note p = unat_pred [OF r(1,2)] unat_pred [OF r(3,4)] unat_pred [OF r(5,6)] unat_pred [OF r(7,8)]
  have b0: "unat (sja1000_btr0 bt AND mask 6) = unat (bt_brp bt - 1)"
    "unat (drop_bit 6 (sja1000_btr0 bt)) = unat (bt_sjw bt - 1)"
    unfolding sja1000_btr0_def low_masks by (rule pack_fields; use p in simp)+
  let ?b = "ucast (((bt_prop_seg bt + bt_phase_seg1 bt - 1) AND mask 4) OR
                     push_bit 4 ((bt_phase_seg2 bt - 1) AND mask 3)) :: u8"
  have b1: "unat (?b AND mask 4) = unat (bt_prop_seg bt + bt_phase_seg1 bt - 1)"
    "unat (drop_bit 4 ?b) = unat (bt_phase_seg2 bt - 1)"
    by (rule pack_fields; use p in simp)+
  have low: "bit ?b n \<Longrightarrow> n < 7" for n
    by (auto simp: bit_simps)
  note rest = top_bit_or [of ?b, OF low]
  have "unat (sja1000_btr1 mode bt AND mask 4) = unat (bt_prop_seg bt + bt_phase_seg1 bt - 1)"
    "unat (drop_bit 4 (sja1000_btr1 mode bt) AND mask 3) = unat (bt_phase_seg2 bt - 1)"
    "bit (sja1000_btr1 mode bt) 7 = has_flag mode CAN_CTRLMODE_3_SAMPLES"
    unfolding sja1000_btr1_def Let_def low_masks using b1 rest by auto
  then show ?thesis
    unfolding low_masks using b0 p by simp
qed

text \<open>
  C11: the two bit timing registers hold the timing: for settings in the range of the SJA1000,
  reading \<^verbatim>\<open>BTR0\<close> and \<^verbatim>\<open>BTR1\<close> back field by field gives the prescaler, the jump width
  and both segments, and bit 7 of \<^verbatim>\<open>BTR1\<close> is set exactly in triple sampling mode.
\<close>

theorem btr_round_trip:
  assumes "timing_in_range sja1000_bittiming_const bt"
  shows "unat (sja1000_btr0 bt AND 0x3F) + 1 = unat (bt_brp bt) \<and>
    unat (drop_bit 6 (sja1000_btr0 bt)) + 1 = unat (bt_sjw bt) \<and>
    unat (sja1000_btr1 mode bt AND 0xF) + 1 = unat (bt_prop_seg bt + bt_phase_seg1 bt) \<and>
    unat (drop_bit 4 (sja1000_btr1 mode bt) AND 0x7) + 1 = unat (bt_phase_seg2 bt) \<and>
    bit (sja1000_btr1 mode bt) 7 = has_flag mode CAN_CTRLMODE_3_SAMPLES"
  using assms by (rule btr_fields)

theorem btr_round_trip_witness:
  "unat (sja1000_btr0 timing_250k AND 0x3F) = 1 \<and> unat (sja1000_btr1 0 timing_250k AND 0xF) = 12"
proof -
  have "timing_in_range sja1000_bittiming_const timing_250k"
    by (simp add: timing_in_range_def timing_250k_def sja1000_bittiming_const_def)
  from btr_round_trip [OF this, of 0] show ?thesis
    by (simp add: timing_250k_def)
qed

section \<open>Mode changes\<close>

text \<open>
  What the data sheet promises of the mode register: the reset mode bit reads back as
  written.
\<close>

definition mod_reads_back :: "'h net_device \<Rightarrow> bool" where
  "mod_reads_back d \<longleftrightarrow>
     (\<forall>h v. has_flag (fst (read_reg d (write_reg d h SJA1000_MOD v) SJA1000_MOD)) MOD_RM = has_flag v MOD_RM)"

lemma fst_rd: "fst (rd r d) = fst (read_reg d (hw d) r)"
  by (simp add: rd_def split: prod.splits)

lemma chip_only_access:
  assumes "chip_only d d'"
  shows "read_reg d' = read_reg d" "write_reg d' = write_reg d" "ctrlmode d' = ctrlmode d"
    "priv_flags d' = priv_flags d"
  using assms by (auto elim: chip_onlyE)

lemma mod_after_wr:
  assumes "mod_reads_back d"
  shows "has_flag (fst (rd SJA1000_MOD (wr SJA1000_MOD v d))) MOD_RM = has_flag v MOD_RM"
  using assms by (simp add: mod_reads_back_def fst_rd wr_def)

lemma normal_mod_reg_no_reset: "\<not> has_flag m MOD_RM \<Longrightarrow> \<not> has_flag (normal_mod_reg mode m) MOD_RM"
  by (simp add: normal_mod_reg_def reg_defs Let_def bit.conj_disj_distrib2)

lemma reset_loop_stops:
  assumes "mod_reads_back d"
  shows "can_state (reset_loop (Suc (Suc n)) status d) = CAN_STATE_STOPPED"
proof -
  obtain v d' where r: "rd SJA1000_MOD (wr SJA1000_MOD MOD_RM d) = (v, d')" by fastforce
  have "has_flag v MOD_RM"
    using mod_after_wr [OF assms, of MOD_RM] r by (simp add: reg_defs)
  then show ?thesis using r by simp
qed

lemma normal_loop_stops:
  assumes "mod_reads_back d"
  shows "can_state (normal_loop (Suc (Suc n)) 0 status d) = CAN_STATE_ERROR_ACTIVE"
proof -
  let ?m = "normal_mod_reg (ctrlmode d) 0"
  obtain v d' where r: "rd SJA1000_MOD (wr SJA1000_MOD ?m d) = (v, d')" by fastforce
  have "\<not> has_flag v MOD_RM"
    using mod_after_wr [OF assms, of ?m] r normal_mod_reg_no_reset [of 0] by simp
  then show ?thesis using r by (simp add: Let_def wr_def)
qed

lemma mod_reads_back_chip_only: "chip_only d d' \<Longrightarrow> mod_reads_back d' = mod_reads_back d"
  by (simp add: mod_reads_back_def chip_only_access)

lemma set_reset_mode_stops:
  assumes "mod_reads_back d"
  shows "can_state (set_reset_mode d) = CAN_STATE_STOPPED"
proof -
  obtain v d1 where r: "rd SJA1000_MOD d = (v, d1)" by fastforce
  have "chip_only d (wr SJA1000_IER IRQ_OFF d1)"
    by (intro chip_only_wr chip_only_rd [OF chip_only_refl r])
  then have "mod_reads_back (wr SJA1000_IER IRQ_OFF d1)"
    using assms by (simp add: mod_reads_back_chip_only)
  from reset_loop_stops [OF this, of 98 v] show ?thesis
    using r by (simp add: set_reset_mode_def)
qed

lemma set_normal_mode_active:
  assumes "mod_reads_back d"
  shows "can_state (set_normal_mode d) = CAN_STATE_ERROR_ACTIVE"
proof -
  obtain v d1 where r: "rd SJA1000_MOD d = (v, d1)" by fastforce
  then have "mod_reads_back d1"
    using assms chip_only_rd [OF chip_only_refl r] by (simp add: mod_reads_back_chip_only)
  from normal_loop_stops [OF this, of 98 v] show ?thesis
    using r by (simp add: set_normal_mode_def)
qed

lemma reset_loop_stuck:
  assumes "\<forall>h. \<not> has_flag (fst (read_reg d h SJA1000_MOD)) MOD_RM" and "\<not> has_flag status MOD_RM"
  shows "can_state (reset_loop n status d) = can_state d"
  using assms
proof (induction n status d rule: reset_loop.induct)
  case (2 n status d)
  obtain v d' where r: "rd SJA1000_MOD (wr SJA1000_MOD MOD_RM d) = (v, d')" by fastforce
  have d': "read_reg d' = read_reg d" "can_state d' = can_state d"
    using r by (auto simp: rd_def wr_def split: prod.splits)
  have v: "\<not> has_flag v MOD_RM"
    using 2(2) fst_rd [of SJA1000_MOD "wr SJA1000_MOD MOD_RM d"] r by (simp add: wr_def)
  show ?case
    using 2(1) [OF 2(3) r [symmetric] refl] 2(2,3) d' v r by simp
qed simp

text \<open>
  C12: on a chip whose reset mode bit reads back as written, \<^verbatim>\<open>set_reset_mode\<close> ends in the
  state \<^verbatim>\<open>CAN_STATE_STOPPED\<close> and \<^verbatim>\<open>sja1000_start\<close>, from any state, in
  \<^verbatim>\<open>CAN_STATE_ERROR_ACTIVE\<close>; neither touches anything but the chip and that state. A chip
  that never shows the bit makes \<^verbatim>\<open>set_reset_mode\<close> give up with the recorded state as it
  was.
\<close>

theorem mode_changes:
  shows "(mod_reads_back d \<longrightarrow>
      can_state (set_reset_mode d) = CAN_STATE_STOPPED \<and>
      can_state (sja1000_start d) = CAN_STATE_ERROR_ACTIVE) \<and>
    ((\<forall>h. \<not> has_flag (fst (read_reg d h SJA1000_MOD)) MOD_RM) \<longrightarrow>
      can_state (set_reset_mode d) = can_state d) \<and>
    chip_only d (set_reset_mode d) \<and> chip_only d (sja1000_start d)"
proof (intro conjI impI)
  show "chip_only d (set_reset_mode d)" "chip_only d (sja1000_start d)"
    by (rule chip_only_set_reset_mode, rule chip_only_sja1000_start)
next
  assume ok: "mod_reads_back d"
  show "can_state (set_reset_mode d) = CAN_STATE_STOPPED"
    by (rule set_reset_mode_stops [OF ok])
  show "can_state (sja1000_start d) = CAN_STATE_ERROR_ACTIVE"
    using sja1000_start_split [of d] ok
    by (auto simp: mod_reads_back_chip_only set_normal_mode_active)
next
  assume stuck: "\<forall>h. \<not> has_flag (fst (read_reg d h SJA1000_MOD)) MOD_RM"
  obtain v d1 where r: "rd SJA1000_MOD d = (v, d1)" by fastforce
  have "\<not> has_flag v MOD_RM"
    using stuck fst_rd [of SJA1000_MOD d] r by simp
  moreover have "read_reg d1 = read_reg d" "can_state d1 = can_state d"
    using r by (auto simp: rd_def split: prod.splits)
  ultimately show "can_state (set_reset_mode d) = can_state d"
    using r stuck reset_loop_stuck [of "wr SJA1000_IER IRQ_OFF d1" v 100]
    by (simp add: set_reset_mode_def wr_def)
qed

section \<open>A register file that is memory\<close>

definition memory_chip :: "(nat \<Rightarrow> u8) net_device \<Rightarrow> bool" where
  "memory_chip d \<longleftrightarrow> read_reg d = vcan_read_reg \<and> write_reg d = vcan_write_reg"

lemma memory_rd: "memory_chip d \<Longrightarrow> rd r d = (hw d r, d)"
  by (simp add: memory_chip_def rd_def vcan_read_reg_def)

lemma memory_wr: "memory_chip d \<Longrightarrow> wr r v d = d\<lparr>hw := (hw d)(r := v)\<rparr>"
  by (simp add: memory_chip_def wr_def vcan_write_reg_def)

lemma memory_chip_update [simp]: "memory_chip (d\<lparr>hw := h\<rparr>) = memory_chip d"
  by (simp add: memory_chip_def)

text \<open>
  A device on the virtual chip as the driver sets it up: empty echo slot, fresh pool and
  transmit queue, one client that accepts every identifier.
\<close>

definition zero_timing :: can_bittiming where
  "zero_timing = bitrate_request 0"

definition vcan_dev :: "(nat \<Rightarrow> u8) net_device" where
  "vcan_dev = \<lparr>hw = (\<lambda>_. 0), read_reg = vcan_read_reg, write_reg = vcan_write_reg,
     pre_irq = None, post_irq = None, clock_ms = (\<lambda>h. (7, h)), reg_base = True,
     priv_flags = 0, ocr = 0, cdr = 0, dev_state = 0, dev_flags = IFF_ECHO, dev_mtu = CAN_MTU,
     dev_irq = 5, stats = \<lparr>rx_packets = 0, tx_packets = 0, rx_bytes = 0, tx_bytes = 0, rx_errors = 0,
       tx_errors = 0, rx_dropped = 0, tx_dropped = 0, rx_over_errors = 0, tx_aborted_errors = 0\<rparr>,
     can_stats = \<lparr>bus_error = 0, error_warning = 0, error_passive = 0, bus_off = 0,
       arbitration_lost = 0, restarts = 0\<rparr>,
     can_state = CAN_STATE_STOPPED, ctrlmode = 0, ctrlmode_supported = 0x15F, restart_ms = 0,
     restart_pending = None, clock_freq = 8000000, bittiming = timing_250k,
     data_bittiming = zero_timing, bittiming_const = Some sja1000_bittiming_const,
     bitrate_const = None, bitrate_max = 0, data_bittiming_const = None, data_bitrate_const = None,
     tdc_const = None, tdc = \<lparr>tdcv = 0, tdco = 0, tdcf = 0\<rparr>, do_set_bittiming = True, do_set_btr = True,
     do_set_mode = True, echo_skb = [None],
     pool = fst (snd (fixed_memory_init Some)), tx_queue = fresh_queue 15,
     clients = [\<lparr>mfilter = 0xFFFFFFFF, rx_queue = fresh_queue 1024\<rparr>],
     optE = False, optt = False, optR_error_count = 0, user_timestamp = 0, user_timestamp_time = 0\<rparr>"

lemma vcan_mod_reads_back:
  "read_reg d = vcan_read_reg \<Longrightarrow> write_reg d = vcan_write_reg \<Longrightarrow> mod_reads_back d"
  by (simp add: mod_reads_back_def vcan_read_reg_def vcan_write_reg_def)

lemma vcan_dev_pool: "pool_inv {..<256} {} (pool vcan_dev)"
proof -
  have "(the \<circ> Some) ` {..<FIXED_MAX_NUM_BLOCKS} = {..<256}"
    by (simp add: FIXED_MAX_NUM_BLOCKS_def)
  then show ?thesis
    using fixed_memory_init_ok(2) [of Some] by (simp add: vcan_dev_def)
qed

lemma vcan_dev_owns: "owns {..<256} {} vcan_dev"
  using vcan_dev_pool by (simp add: owns_def echo_blocks_def) (simp add: vcan_dev_def)

theorem mode_changes_witness:
  "mod_reads_back vcan_dev \<and> can_state (sja1000_start vcan_dev) = CAN_STATE_ERROR_ACTIVE"
proof -
  have "mod_reads_back vcan_dev"
    by (rule vcan_mod_reads_back) (simp_all add: vcan_dev_def)
  then show ?thesis
    using mode_changes [of vcan_dev] by blast
qed

end
