(* ===== verification/Netif.thy ===== *)
theory Netif
  imports Sja1000
begin

unbundle bit_operations_syntax

text \<open>
  Delivery to the clients: \<^verbatim>\<open>netif_rx\<close> of \<^verbatim>\<open>netif.c\<close> with the restart of
  \<^verbatim>\<open>dev/dev.c\<close> (\<^verbatim>\<open>can_restart\<close>, \<^verbatim>\<open>can_restart_now\<close>, \<^verbatim>\<open>can_bus_off\<close>), which call each
  other. The recursion goes through a new socket buffer each time, so the pool bounds it; the
  model takes fuel and the fuel needed is shown to be one more than the number of buffers
  left in the pool. \<open>None\<close> is a store outside the block array, or fuel that ran out.
  Also \<^verbatim>\<open>netif_tx\<close>, which turns a client's message into a frame.
\<close>

section \<open>Messages and frames\<close>

definition CAN_MSG_DATA_MAX :: nat where
  "CAN_MSG_DATA_MAX = 8"

text \<open>The client message \<^verbatim>\<open>netif_rx\<close> builds; \<open>t\<close> is the timestamp.\<close>

definition rx_canmsg :: "u32 \<Rightarrow> sk_buff \<Rightarrow> can_msg" where
  "rx_canmsg t skb =
     (let cf = frame skb;
          mid = can_id cf AND CAN_ERR_MASK;
          ext = has_flag (can_id cf) CAN_EFF_FLAG
      in \<lparr>m_dat = map (\<lambda>i. cf_data cf ! i) [0..<CAN_MSG_DATA_MAX], m_len = unat (cf_len cf),
          m_mid = (if ext then mid else push_bit 18 mid), m_timestamp = t,
          m_is_extended_mid = ext, m_is_remote_frame = \<not> is_echo skb\<rparr>)"

definition rx_timestamp :: "'h net_device \<Rightarrow> u32 \<times> 'h net_device" where
  "rx_timestamp d =
     (if optt d then (user_timestamp d, d)
      else if user_timestamp_time d \<noteq> 0
      then (let (t, d') = now_ms d in (user_timestamp d + t - user_timestamp_time d, d'))
      else now_ms d)"

text \<open>
  The loop over the client sessions, and the count of dropped packets the queue's callback
  \<^verbatim>\<open>increment_dropped_packet\<close> keeps in \<^verbatim>\<open>stats.rx_dropped\<close>.
\<close>

definition client_accepts :: "can_msg \<Rightarrow> client \<Rightarrow> bool" where
  "client_accepts m c \<longleftrightarrow> m_mid m AND mfilter c = m_mid m"

definition client_deliver :: "can_msg \<Rightarrow> client \<Rightarrow> nat \<times> client" where
  "client_deliver m c =
     (if client_accepts m c
      then (case enqueue_at (rx_queue c) m of
              (r, dropped, q) \<Rightarrow> (if dropped then 1 else 0, c\<lparr>rx_queue := q\<rparr>))
      else (0, c))"

definition deliver_all :: "can_msg \<Rightarrow> 'h net_device \<Rightarrow> 'h net_device" where
  "deliver_all m d =
     (let rs = map (client_deliver m) (clients d)
      in d\<lparr>clients := map snd rs,
           stats := (stats d)\<lparr>rx_dropped := rx_dropped (stats d) + of_nat (sum_list (map fst rs))\<rparr>\<rparr>)"

section \<open>Restart and reception\<close>

text \<open>
  \<^verbatim>\<open>can_restart\<close> and \<^verbatim>\<open>can_restart_now\<close>; \<open>rx\<close> is \<^verbatim>\<open>netif_rx\<close>. Cancelling the restart
  work clears \<open>restart_pending\<close>.
\<close>

definition count_restart :: "'h net_device \<Rightarrow> 'h net_device" where
  "count_restart d = d\<lparr>can_stats := (can_stats d)\<lparr>restarts := restarts (can_stats d) + 1\<rparr>\<rparr>"

definition can_restart ::
  "(sk_buff \<Rightarrow> 'h net_device \<Rightarrow> 'h net_device option) \<Rightarrow> 'h net_device \<Rightarrow> (rc \<times> 'h net_device) option" where
  "can_restart rx d =
     (if \<not> do_set_mode d then Some (Err EOPNOTSUPP, d)
      else do {
        d1 \<leftarrow> can_flush_echo_skb d;
        let (r, d2) = alloc_can_err_skb d1;
        d3 \<leftarrow> (case r of
                None \<Rightarrow> Some d2
              | Some skb \<Rightarrow>
                  rx (skb\<lparr>frame := (frame skb)\<lparr>can_id := can_id (frame skb) OR CAN_ERR_RESTARTED\<rparr>\<rparr>) d2);
        let d4 = netif_carrier_on d3;
        let (e, d5) = sja1000_set_mode CAN_MODE_START d4;
        if e \<noteq> EOK then Some (e, netif_carrier_off d5)
        else Some (EOK, count_restart d5) })"

definition can_restart_now ::
  "(sk_buff \<Rightarrow> 'h net_device \<Rightarrow> 'h net_device option) \<Rightarrow> 'h net_device \<Rightarrow> (rc \<times> 'h net_device) option" where
  "can_restart_now rx d =
     (if restart_ms d \<noteq> 0 then Some (Err EINVAL, d)
      else if can_state d \<noteq> CAN_STATE_BUS_OFF then Some (Err EBUSY, d)
      else can_restart rx (d\<lparr>restart_pending := None\<rparr>))"

text \<open>The condition of \<^verbatim>\<open>netif_rx\<close> for an immediate restart on an error frame.\<close>

definition restart_trigger :: "int \<Rightarrow> can_state \<Rightarrow> bool" where
  "restart_trigger n s =
     (n \<noteq> 0 \<and>
      (case s of
         CAN_STATE_ERROR_ACTIVE \<Rightarrow> n < 96
       | CAN_STATE_ERROR_WARNING \<Rightarrow> n < 128
       | CAN_STATE_ERROR_PASSIVE \<Rightarrow> n < 256
       | CAN_STATE_BUS_OFF \<Rightarrow> 256 \<le> n
       | CAN_STATE_STOPPED \<Rightarrow> True
       | CAN_STATE_SLEEPING \<Rightarrow> True))"

text \<open>The path of \<^verbatim>\<open>netif_rx\<close> for frames that carry no error flag.\<close>

definition rx_data :: "sk_buff \<Rightarrow> 'h net_device \<Rightarrow> 'h net_device option" where
  "rx_data skb d =
     (if has_flag (can_id (frame skb)) CAN_RTR_FLAG
      then (if is_echo skb then Some d else kfree_skb skb d)
      else if \<not> optE d \<and> is_echo skb then Some d
      else let (t, d1) = rx_timestamp d; d2 = deliver_all (rx_canmsg t skb) d1
           in if is_echo skb then Some d2 else kfree_skb skb d2)"

primrec netif_rx :: "nat \<Rightarrow> sk_buff \<Rightarrow> 'h net_device \<Rightarrow> 'h net_device option" where
  "netif_rx 0 = (\<lambda>skb d. None)"
| "netif_rx (Suc n) = (\<lambda>skb d.
     if has_flag (can_id (frame skb)) CAN_ERR_FLAG
     then do {
       d1 \<leftarrow> (if restart_trigger (optR_error_count d) (can_state d)
              then do {
                (e, d2) \<leftarrow> can_restart_now (netif_rx n) (d\<lparr>restart_ms := 0, can_state := CAN_STATE_BUS_OFF\<rparr>);
                Some (d2\<lparr>restart_ms := restart_ms d\<rparr>) }
              else Some d);
       kfree_skb skb d1 }
     else rx_data skb d)"

definition can_bus_off :: "'h net_device \<Rightarrow> 'h net_device" where
  "can_bus_off d =
     (let d1 = netif_carrier_off d
      in if restart_ms d1 \<noteq> 0 then d1\<lparr>restart_pending := Some (restart_ms d1)\<rparr> else d1)"

text \<open>
  The fuel the driver model runs with: the pool has 256 blocks, a socket buffer takes two, so
  at most 128 buffers can exist.
\<close>

definition RX_FUEL :: nat where
  "RX_FUEL = 130"

definition can_get_echo_skb :: "nat \<Rightarrow> 'h net_device \<Rightarrow> (nat \<times> 'h net_device) option" where
  "can_get_echo_skb idx d =
     (case take_echo_skb idx d of
        (None, d1) \<Rightarrow> Some (0, d1)
      | (Some (skb, len), d1) \<Rightarrow> do {
          d2 \<leftarrow> netif_rx RX_FUEL skb d1;
          d3 \<leftarrow> kfree_skb skb d2;
          Some (len, d3) })"

section \<open>Transmission\<close>

text \<open>
  The frame \<^verbatim>\<open>netif_tx\<close> builds from a client's message. The copy loop runs
  \<^verbatim>\<open>canmsg->len\<close> times into the eight-byte array: a longer message writes past it, the model
  answers \<open>None\<close>.
\<close>

definition tx_frame :: "can_msg \<Rightarrow> can_frame option" where
  "tx_frame m =
     (if CAN_MSG_DATA_MAX < m_len m then None
      else Some \<lparr>can_id = (if m_is_extended_mid m then m_mid m OR CAN_EFF_FLAG else drop_bit 18 (m_mid m)),
                 cf_len = of_nat (m_len m), cf_len8_dlc = 0,
                 cf_data = take (m_len m) (m_dat m) @ drop (m_len m) (cf_data zero_frame)\<rparr>)"

text \<open>
  One turn of the loop of \<^verbatim>\<open>netif_tx\<close> after \<^verbatim>\<open>dequeue\<close> returned a message: whether the
  thread goes on, and the device.
\<close>

definition netif_tx_msg :: "can_msg \<Rightarrow> 'h net_device \<Rightarrow> (bool \<times> 'h net_device) option" where
  "netif_tx_msg m d =
     (if dev_irq d = 0 then Some (True, deliver_all m d)
      else case alloc_can_skb d of
             (None, d1) \<Rightarrow> Some (False, d1)
           | (Some skb, d1) \<Rightarrow> do {
               cf \<leftarrow> tx_frame m;
               d2 \<leftarrow> sja1000_start_xmit (skb\<lparr>skb_len := CAN_MTU, frame := cf\<rparr>) d1;
               Some (True, d2) })"

end
