(* ===== verification/Netif_Rx.thy ===== *)
theory Netif_Rx
  imports Netif
begin

unbundle bit_operations_syntax

text \<open>
  Proofs about the receive path. Ownership of the blocks through \<^verbatim>\<open>netif_rx\<close> and
  \<^verbatim>\<open>can_restart\<close>: the locale \<open>err_receiver\<close> is what the restart needs of its receiver,
  \<^verbatim>\<open>netif_rx\<close> provides it at every depth. Then the properties: no buffer is lost or freed
  twice, delivery to exactly the accepting clients, the number of restarts.
\<close>

section \<open>Ownership on the receive path\<close>

text \<open>Updates that touch neither the pool nor the echo slot.\<close>

lemma owns_update [simp]:
  "owns blocks rest (d\<lparr>restart_ms := n\<rparr>) = owns blocks rest d"
  "owns blocks rest (d\<lparr>restart_pending := w\<rparr>) = owns blocks rest d"
  "owns blocks rest (d\<lparr>can_state := s\<rparr>) = owns blocks rest d"
  "owns blocks rest (d\<lparr>stats := t\<rparr>) = owns blocks rest d"
  "owns blocks rest (d\<lparr>can_stats := u\<rparr>) = owns blocks rest d"
  "owns blocks rest (d\<lparr>clients := c\<rparr>) = owns blocks rest d"
  "owns blocks rest (d\<lparr>dev_state := l\<rparr>) = owns blocks rest d"
  "owns blocks rest (d\<lparr>tx_queue := q\<rparr>) = owns blocks rest d"
  "owns blocks rest (d\<lparr>hw := h\<rparr>) = owns blocks rest d"
  by (rule owns_cong; simp)+

lemma owns_chip_only: "chip_only d d' \<Longrightarrow> owns blocks rest d' = owns blocks rest d"
  by (elim chip_onlyE) simp

lemma owns_hw_only: "hw_only d d' \<Longrightarrow> owns blocks rest d' = owns blocks rest d"
  by (rule owns_chip_only [OF hw_imp_chip_only])

lemma owns_device_ops [simp]:
  "owns blocks rest (netif_carrier_on d) = owns blocks rest d"
  "owns blocks rest (netif_carrier_off d) = owns blocks rest d"
  "owns blocks rest (netif_wake_queue d) = owns blocks rest d"
  "owns blocks rest (netif_stop_queue d) = owns blocks rest d"
  "owns blocks rest (count_restart d) = owns blocks rest d"
  "owns blocks rest (can_bus_off d) = owns blocks rest d"
  "owns blocks rest (deliver_all m d) = owns blocks rest d"
  "owns blocks rest (sja1000_start d) = owns blocks rest d"
  "owns blocks rest (snd (rx_timestamp d)) = owns blocks rest d"
  by (simp_all add: netif_carrier_on_def netif_carrier_off_def netif_wake_queue_def
        netif_stop_queue_def count_restart_def can_bus_off_def Let_def deliver_all_def
        owns_chip_only [OF chip_only_sja1000_start] rx_timestamp_def now_ms_def split: prod.splits)

lemma owns_set_mode [simp]: "owns blocks rest (snd (sja1000_set_mode m d)) = owns blocks rest d"
  by (cases m) (simp_all add: sja1000_set_mode_def Let_def)

lemma owns_alloc_err:
  assumes o: "owns blocks rest d" and a: "alloc_can_err_skb d = (r, d')"
  shows "case r of
      None \<Rightarrow> d' = d \<and> rest \<union> echo_blocks d = blocks
    | Some skb \<Rightarrow> owns blocks (rest \<union> skb_blocks skb) d' \<and> live_skb (rest \<union> skb_blocks skb) skb \<and>
        skb_blocks skb \<inter> rest = {} \<and> frame skb = zero_frame\<lparr>can_id := CAN_ERR_FLAG, cf_len := CAN_ERR_DLC\<rparr> \<and>
        \<not> is_echo skb \<and> d' = d\<lparr>pool := pool d'\<rparr>"
proof -
  obtain r0 d0 where a0: "alloc_can_skb d = (r0, d0)" by fastforce
  then show ?thesis
    using owns_alloc [OF o a0] a
    by (cases r0) (auto simp: alloc_can_err_skb_def live_skb_def skb_blocks_def)
qed

lemma live_skb_frame [simp]:
  "live_skb rest (skb\<lparr>frame := f\<rparr>) = live_skb rest skb"
  "skb_blocks (skb\<lparr>frame := f\<rparr>) = skb_blocks skb"
  by (simp_all add: live_skb_def skb_blocks_def)

lemma has_flag_or: "has_flag a f \<Longrightarrow> has_flag (a OR b) f"
proof -
  assume "has_flag a f"
  then obtain i where "bit (a AND f) i"
    using bit_eq_iff [of "a AND f" 0] by auto
  then have "bit ((a OR b) AND f) i"
    by (simp add: bit_simps)
  then show ?thesis by auto
qed

text \<open>
  \<open>same_config d d'\<close>: the callbacks, options and settings of the device are as before; only
  the chip, the link and controller state, the counters, the buffers and the queues may have
  changed.
\<close>

definition same_config :: "'h net_device \<Rightarrow> 'h net_device \<Rightarrow> bool" where
  "same_config d d' \<longleftrightarrow>
     read_reg d' = read_reg d \<and> write_reg d' = write_reg d \<and> pre_irq d' = pre_irq d \<and>
     post_irq d' = post_irq d \<and> clock_ms d' = clock_ms d \<and> reg_base d' = reg_base d \<and>
     priv_flags d' = priv_flags d \<and> ocr d' = ocr d \<and> cdr d' = cdr d \<and>
     dev_flags d' = dev_flags d \<and> dev_mtu d' = dev_mtu d \<and> dev_irq d' = dev_irq d \<and>
     ctrlmode d' = ctrlmode d \<and> ctrlmode_supported d' = ctrlmode_supported d \<and>
     restart_ms d' = restart_ms d \<and> clock_freq d' = clock_freq d \<and>
     bittiming d' = bittiming d \<and> data_bittiming d' = data_bittiming d \<and>
     bittiming_const d' = bittiming_const d \<and> bitrate_const d' = bitrate_const d \<and>
     bitrate_max d' = bitrate_max d \<and> data_bittiming_const d' = data_bittiming_const d \<and>
     data_bitrate_const d' = data_bitrate_const d \<and> tdc_const d' = tdc_const d \<and> tdc d' = tdc d \<and>
     do_set_bittiming d' = do_set_bittiming d \<and> do_set_btr d' = do_set_btr d \<and>
     do_set_mode d' = do_set_mode d \<and> optE d' = optE d \<and>
     optt d' = optt d \<and> optR_error_count d' = optR_error_count d \<and>
     user_timestamp d' = user_timestamp d \<and> user_timestamp_time d' = user_timestamp_time d"

lemma same_config_refl [simp]: "same_config d d"
  by (simp add: same_config_def)

lemma same_config_trans: "same_config d d1 \<Longrightarrow> same_config d1 d2 \<Longrightarrow> same_config d d2"
  by (simp add: same_config_def)

lemma same_config_update [simp]:
  "same_config d (d'\<lparr>hw := h\<rparr>) = same_config d d'" "same_config d (d'\<lparr>dev_state := l\<rparr>) = same_config d d'"
  "same_config d (d'\<lparr>stats := t\<rparr>) = same_config d d'" "same_config d (d'\<lparr>can_stats := u\<rparr>) = same_config d d'"
  "same_config d (d'\<lparr>can_state := s\<rparr>) = same_config d d'"
  "same_config d (d'\<lparr>restart_pending := w\<rparr>) = same_config d d'"
  "same_config d (d'\<lparr>echo_skb := e\<rparr>) = same_config d d'" "same_config d (d'\<lparr>pool := p\<rparr>) = same_config d d'"
  "same_config d (d'\<lparr>tx_queue := q\<rparr>) = same_config d d'" "same_config d (d'\<lparr>clients := c\<rparr>) = same_config d d'"
  by (simp_all add: same_config_def)

lemma same_config_chip_only: "chip_only d1 d2 \<Longrightarrow> same_config d d2 = same_config d d1"
  by (elim chip_onlyE) simp

lemma same_config_ops [simp]:
  "same_config d (netif_carrier_on d') = same_config d d'"
  "same_config d (netif_carrier_off d') = same_config d d'"
  "same_config d (netif_wake_queue d') = same_config d d'"
  "same_config d (netif_stop_queue d') = same_config d d'"
  "same_config d (count_restart d') = same_config d d'"
  "same_config d (can_bus_off d') = same_config d d'"
  "same_config d (deliver_all m d') = same_config d d'"
  "same_config d (sja1000_start d') = same_config d d'"
  "same_config d (snd (rx_timestamp d')) = same_config d d'"
  by (simp_all add: netif_carrier_on_def netif_carrier_off_def netif_wake_queue_def
        netif_stop_queue_def count_restart_def can_bus_off_def Let_def deliver_all_def
        same_config_chip_only [OF chip_only_sja1000_start] rx_timestamp_def now_ms_def split: prod.splits)

lemma same_config_set_mode [simp]: "same_config d (snd (sja1000_set_mode m d')) = same_config d d'"
  by (cases m) (simp_all add: sja1000_set_mode_def Let_def)

text \<open>The echo slot is as before or has been emptied.\<close>

definition echo_kept :: "'h net_device \<Rightarrow> 'h net_device \<Rightarrow> bool" where
  "echo_kept d d' \<longleftrightarrow> echo_skb d' = echo_skb d \<or> echo_skb d' = [None]"

lemma echo_skb_chip_only: "chip_only d d' \<Longrightarrow> echo_skb d' = echo_skb d"
  by (elim chip_onlyE) simp

lemma echo_skb_ops [simp]:
  "echo_skb (netif_carrier_on d) = echo_skb d" "echo_skb (netif_carrier_off d) = echo_skb d"
  "echo_skb (netif_wake_queue d) = echo_skb d" "echo_skb (netif_stop_queue d) = echo_skb d"
  "echo_skb (count_restart d) = echo_skb d" "echo_skb (can_bus_off d) = echo_skb d"
  "echo_skb (deliver_all m d) = echo_skb d" "echo_skb (sja1000_start d) = echo_skb d"
  "echo_skb (snd (rx_timestamp d)) = echo_skb d"
  by (simp_all add: netif_carrier_on_def netif_carrier_off_def netif_wake_queue_def
        netif_stop_queue_def count_restart_def can_bus_off_def Let_def deliver_all_def
        echo_skb_chip_only [OF chip_only_sja1000_start] rx_timestamp_def now_ms_def split: prod.splits)

lemma echo_skb_set_mode [simp]: "echo_skb (snd (sja1000_set_mode m d)) = echo_skb d"
  by (cases m) (simp_all add: sja1000_set_mode_def Let_def)

text \<open>
  The buffers a pool with \<open>rest\<close> handed out can still give; the depth of the nested calls of
  \<^verbatim>\<open>netif_rx\<close> is bounded by it.
\<close>

definition skbs_left :: "addr set \<Rightarrow> nat" where
  "skbs_left rest = (FIXED_MAX_NUM_BLOCKS - card rest) div 2"

lemma skbs_left_Un:
  assumes "owns blocks (rest \<union> skb_blocks skb) d" and "skb_blocks skb \<inter> rest = {}"
    and "live_skb (rest \<union> skb_blocks skb) skb"
  shows "skbs_left rest = Suc (skbs_left (rest \<union> skb_blocks skb))"
proof -
  have fin: "finite rest" "rest \<union> skb_blocks skb \<subseteq> blocks" "finite blocks"
    using owns_finite [OF assms(1)] by auto
  have "card (rest \<union> skb_blocks skb) = card rest + 2"
    using fin assms(2,3) card_Un_disjoint [of rest "skb_blocks skb"]
    by (auto simp: live_skb_def card_skb_blocks)
  moreover have "card (rest \<union> skb_blocks skb) \<le> FIXED_MAX_NUM_BLOCKS"
    using card_mono [OF fin(3,2)] assms(1) by (simp add: owns_def pool_inv_def)
  ultimately show ?thesis
    by (simp add: skbs_left_def FIXED_MAX_NUM_BLOCKS_def)
qed

text \<open>
  What \<^verbatim>\<open>can_restart\<close> relies on: the receiver takes over an error frame and gives its
  blocks back, as long as no more than \<open>depth\<close> buffers are left.
\<close>

locale err_receiver =
  fixes rx :: "sk_buff \<Rightarrow> 'h net_device \<Rightarrow> 'h net_device option" and depth :: nat
  assumes consumes: "owns blocks rest d \<Longrightarrow> live_skb rest skb \<Longrightarrow>
    has_flag (can_id (frame skb)) CAN_ERR_FLAG \<Longrightarrow> skbs_left rest < depth \<Longrightarrow>
    \<exists>d'. rx skb d = Some d' \<and> owns blocks (rest - skb_blocks skb) d' \<and> same_config d d' \<and> echo_kept d d'"
begin

lemma can_restart_owns:
  assumes o: "owns blocks rest d" and fuel: "skbs_left rest \<le> depth"
  obtains r d' where "can_restart rx d = Some (r, d')" "owns blocks rest d'" "same_config d d'"
    "echo_kept d d'"
proof (cases "do_set_mode d")
  case True
  obtain d1 where d1: "can_flush_echo_skb d = Some d1" "owns blocks rest d1"
    "d1 = d\<lparr>pool := pool d1, echo_skb := [None], stats := stats d1\<rparr>" "echo_skb d1 = [None]"
    by (rule owns_flush_echo [OF o]) blast
  have c1: "same_config d d1" by (subst d1(3)) simp
  obtain r d2 where a: "alloc_can_err_skb d1 = (r, d2)" by fastforce
  note al = owns_alloc_err [OF d1(2) a]
  define send where "send = (case r of
                None \<Rightarrow> Some d2
              | Some skb \<Rightarrow>
                  rx (skb\<lparr>frame := (frame skb)\<lparr>can_id := can_id (frame skb) OR CAN_ERR_RESTARTED\<rparr>\<rparr>) d2)"
  have "\<exists>d3. send = Some d3 \<and> owns blocks rest d3 \<and> same_config d d3 \<and> echo_skb d3 = [None]"
  proof (cases r)
    case None
    then show ?thesis using al d1(2,4) c1 by (simp add: send_def)
  next
    case (Some skb)
    let ?skb = "skb\<lparr>frame := (frame skb)\<lparr>can_id := can_id (frame skb) OR CAN_ERR_RESTARTED\<rparr>\<rparr>"
    have flag: "has_flag (can_id (frame ?skb)) CAN_ERR_FLAG"
      using al Some by (simp add: flag_defs)
    have d2: "d2 = d1\<lparr>pool := pool d2\<rparr>" using al Some by simp
    have c2: "same_config d d2" "echo_skb d2 = [None]" by (subst d2, simp add: c1 d1(4))+
    have "skbs_left (rest \<union> skb_blocks skb) < depth"
      using skbs_left_Un [of blocks rest skb d2] fuel al Some by simp
    then obtain d3 where "rx ?skb d2 = Some d3" "owns blocks (rest \<union> skb_blocks skb - skb_blocks skb) d3"
      "same_config d2 d3" "echo_kept d2 d3"
      using consumes [of blocks "rest \<union> skb_blocks skb" d2 ?skb] al Some flag by auto
    moreover have "rest \<union> skb_blocks skb - skb_blocks skb = rest"
      using al Some by auto
    ultimately show ?thesis
      using Some same_config_trans [OF c2(1)] c2(2) by (simp add: send_def echo_kept_def)
  qed
  then obtain d3 where d3: "send = Some d3" "owns blocks rest d3" "same_config d d3" "echo_skb d3 = [None]"
    by blast
  obtain e d5 where m: "sja1000_set_mode CAN_MODE_START (netif_carrier_on d3) = (e, d5)" by fastforce
  have "owns blocks rest d5" "same_config d d5" "echo_skb d5 = [None]"
    using d3(2,3,4) echo_skb_set_mode [of CAN_MODE_START "netif_carrier_on d3"] owns_set_mode [of blocks rest CAN_MODE_START "netif_carrier_on d3"]
      same_config_set_mode [of d CAN_MODE_START "netif_carrier_on d3"] m by simp_all
  then show ?thesis
    using that True d1(1) a d3(1) m
    by (cases "e = EOK") (auto simp: can_restart_def send_def [symmetric] echo_kept_def)
qed (use that o in \<open>simp add: can_restart_def echo_kept_def\<close>)

lemma can_restart_now_owns:
  assumes "owns blocks rest d" and "skbs_left rest \<le> depth"
  obtains r d' where "can_restart_now rx d = Some (r, d')" "owns blocks rest d'" "same_config d d'"
    "echo_kept d d'"
proof -
  let ?d = "d\<lparr>restart_pending := None\<rparr>"
  obtain r d' where "can_restart rx ?d = Some (r, d')" "owns blocks rest d'" "same_config ?d d'"
    "echo_kept ?d d'"
    by (rule can_restart_owns [of blocks rest ?d]) (use assms in auto)
  moreover have "same_config d ?d" by simp
  ultimately show ?thesis
    using assms(1) that same_config_trans [of d ?d d']
    by (cases "restart_ms d = 0"; cases "can_state d = CAN_STATE_BUS_OFF")
      (simp_all add: can_restart_now_def echo_kept_def)
qed

end

text \<open>The two paths of \<^verbatim>\<open>netif_rx\<close>.\<close>

lemma owns_rx_data:
  assumes o: "owns blocks rest d" and live: "live_skb rest skb"
  obtains d' where "rx_data skb d = Some d'" "same_config d d'" "echo_skb d' = echo_skb d"
    "owns blocks (if is_echo skb then rest else rest - skb_blocks skb) d'"
proof -
  obtain t d1 where t: "rx_timestamp d = (t, d1)" by fastforce
  then have "owns blocks rest d1" "same_config d d1" "echo_skb d1 = echo_skb d"
    using o owns_device_ops(9) [of blocks rest d] same_config_ops(9) [of d d] echo_skb_ops(9) [of d]
    by simp_all
  then have o2: "owns blocks rest (deliver_all (rx_canmsg t skb) d1)"
    "same_config d (deliver_all (rx_canmsg t skb) d1)"
    "echo_skb (deliver_all (rx_canmsg t skb) d1) = echo_skb d" by simp_all
  obtain p1 p2 where p:
    "kfree_skb skb d = Some (d\<lparr>pool := p1\<rparr>)" "owns blocks (rest - skb_blocks skb) (d\<lparr>pool := p1\<rparr>)"
    "kfree_skb skb (deliver_all (rx_canmsg t skb) d1) = Some ((deliver_all (rx_canmsg t skb) d1)\<lparr>pool := p2\<rparr>)"
    "owns blocks (rest - skb_blocks skb) ((deliver_all (rx_canmsg t skb) d1)\<lparr>pool := p2\<rparr>)"
    by (rule owns_kfree [OF o live], rule owns_kfree [OF o2(1) live]) blast
  show ?thesis
    using that o o2 p t
    by (cases "is_echo skb"; cases "has_flag (can_id (frame skb)) CAN_RTR_FLAG"; cases "optE d")
      (simp_all add: rx_data_def)
qed

text \<open>One turn of \<^verbatim>\<open>netif_rx\<close> on an error frame, up to the final \<^verbatim>\<open>kfree_skb\<close>.\<close>

lemma err_turn_owns:
  assumes rcv: "err_receiver rx n" and o: "owns blocks rest d" and left: "skbs_left rest \<le> n"
  obtains d1 where "(if restart_trigger (optR_error_count d) (can_state d)
      then do {
        (e, d2) \<leftarrow> can_restart_now rx (d\<lparr>restart_ms := 0, can_state := CAN_STATE_BUS_OFF\<rparr>);
        Some (d2\<lparr>restart_ms := restart_ms d\<rparr>) }
      else Some d) = Some d1" "owns blocks rest d1" "same_config d d1" "echo_kept d d1"
proof (cases "restart_trigger (optR_error_count d) (can_state d)")
  case True
  let ?b = "d\<lparr>restart_ms := 0, can_state := CAN_STATE_BUS_OFF\<rparr>"
  have "owns blocks rest ?b" using o by simp
  from err_receiver.can_restart_now_owns [OF rcv this left]
  obtain r d2 where d2: "can_restart_now rx ?b = Some (r, d2)" "owns blocks rest d2" "same_config ?b d2"
    "echo_kept ?b d2"
    by blast
  from d2(3) have "same_config d (d2\<lparr>restart_ms := restart_ms d\<rparr>)" by (simp add: same_config_def)
  then show ?thesis using that [of "d2\<lparr>restart_ms := restart_ms d\<rparr>"] d2 True by (simp add: echo_kept_def)
qed (use that o in \<open>simp add: echo_kept_def\<close>)

lemma netif_rx_err:
  assumes "owns blocks rest d" and "live_skb rest skb"
    and "has_flag (can_id (frame skb)) CAN_ERR_FLAG" and "skbs_left rest < n"
  shows "\<exists>d'. netif_rx n skb d = Some d' \<and> owns blocks (rest - skb_blocks skb) d' \<and> same_config d d' \<and>
    echo_kept d d'"
  using assms
proof (induction n arbitrary: blocks rest d skb)
  case (Suc n)
  have rcv: "err_receiver (netif_rx n :: sk_buff \<Rightarrow> 'a net_device \<Rightarrow> 'a net_device option) n"
    by unfold_locales (rule Suc.IH)
  have left: "skbs_left rest \<le> n" using Suc.prems(4) by simp
  obtain d1 where d1: "(if restart_trigger (optR_error_count d) (can_state d)
      then do {
        (e, d2) \<leftarrow> can_restart_now (netif_rx n) (d\<lparr>restart_ms := 0, can_state := CAN_STATE_BUS_OFF\<rparr>);
        Some (d2\<lparr>restart_ms := restart_ms d\<rparr>) }
      else Some d) = Some d1" "owns blocks rest d1" "same_config d d1" "echo_kept d d1"
    by (rule err_turn_owns [OF rcv Suc.prems(1) left])
  show ?case
    by (rule owns_kfree [OF d1(2) Suc.prems(2)]) (use Suc.prems(3) d1(1,3,4) in \<open>simp add: echo_kept_def\<close>)
qed simp

interpretation receiver: err_receiver "netif_rx n" n for n
  by unfold_locales (rule netif_rx_err)

lemma netif_rx_owns:
  assumes o: "owns blocks rest d" and live: "live_skb rest skb" and fuel: "skbs_left rest < n"
  obtains d' where "netif_rx n skb d = Some d'" "same_config d d'" "echo_kept d d'"
    "owns blocks (if is_echo skb \<and> \<not> has_flag (can_id (frame skb)) CAN_ERR_FLAG
                  then rest else rest - skb_blocks skb) d'"
proof (cases "has_flag (can_id (frame skb)) CAN_ERR_FLAG")
  case True
  then show ?thesis using receiver.consumes [OF o live True fuel] that by auto
next
  case False
  moreover obtain k where "n = Suc k" using fuel by (cases n) auto
  ultimately show ?thesis
    using owns_rx_data [OF o live] that by (simp add: echo_kept_def, metis)
qed

lemma skbs_left_RX_FUEL [simp]: "skbs_left rest < RX_FUEL"
  by (simp add: skbs_left_def RX_FUEL_def FIXED_MAX_NUM_BLOCKS_def)

lemma can_get_echo_owns:
  assumes o: "owns blocks rest d"
    and clean: "\<forall>skb. Some skb \<in> set (echo_skb d) \<longrightarrow> \<not> has_flag (can_id (frame skb)) CAN_ERR_FLAG"
  obtains n d' where "can_get_echo_skb 0 d = Some (n, d')" "owns blocks rest d'" "same_config d d'"
    "echo_kept d d'"
proof -
  obtain r d1 where t: "take_echo_skb 0 d = (r, d1)" by fastforce
  note tk = owns_take_echo [OF o t]
  show ?thesis
  proof (cases r)
    case None
    then show ?thesis using that [of 0 d] tk t o by (simp add: can_get_echo_skb_def echo_kept_def)
  next
    case (Some p)
    obtain skb n where p: "p = (skb, n)" by fastforce
    have r: "owns blocks (rest \<union> skb_blocks skb) d1" "live_skb (rest \<union> skb_blocks skb) skb"
      "skb_blocks skb \<inter> rest = {}" "d1 = d\<lparr>echo_skb := [None]\<rparr>" "echo_skb d = [Some skb]" "is_echo skb"
      using tk Some p by auto
    have nf: "\<not> has_flag (can_id (frame skb)) CAN_ERR_FLAG"
      using clean r(5) by simp
    obtain d2 where d2: "netif_rx RX_FUEL skb d1 = Some d2" "same_config d1 d2" "echo_kept d1 d2"
      "owns blocks (rest \<union> skb_blocks skb) d2"
      by (rule netif_rx_owns [OF r(1,2) skbs_left_RX_FUEL]) (use nf r(6) in auto)
    obtain p' where p': "kfree_skb skb d2 = Some (d2\<lparr>pool := p'\<rparr>)"
      "owns blocks (rest \<union> skb_blocks skb - skb_blocks skb) (d2\<lparr>pool := p'\<rparr>)"
      by (rule owns_kfree [OF d2(4) r(2)])
    have "rest \<union> skb_blocks skb - skb_blocks skb = rest" using r(3) by auto
    moreover have "same_config d d2" using d2(2) r(4) by (simp add: same_config_def)
    ultimately show ?thesis
      using that [of n "d2\<lparr>pool := p'\<rparr>"] t Some p d2 p' r(4)
      by (simp add: can_get_echo_skb_def echo_kept_def)
  qed
qed

section \<open>Properties\<close>

text \<open>
  C14: \<^verbatim>\<open>netif_rx\<close> always comes back, however deep its recursion through
  \<^verbatim>\<open>can_restart_now\<close> goes, and the blocks of the buffer are accounted for: an error frame
  or a received frame is freed exactly once, an echo frame stays with its caller. It never
  stores outside the block array and leaves the device's settings alone.
\<close>

theorem netif_rx_returns_buffer:
  assumes "owns blocks rest d" and "live_skb rest skb"
  shows "\<exists>d'. netif_rx RX_FUEL skb d = Some d' \<and> same_config d d' \<and>
    owns blocks (if is_echo skb \<and> \<not> has_flag (can_id (frame skb)) CAN_ERR_FLAG
                 then rest else rest - skb_blocks skb) d'"
  by (rule netif_rx_owns [OF assms skbs_left_RX_FUEL]) blast

text \<open>A buffer of the sample device with an identifier of choice.\<close>

definition vcan_skb :: "u32 \<Rightarrow> sk_buff" where
  "vcan_skb cid = (the (fst (alloc_can_skb vcan_dev)))\<lparr>frame := zero_frame\<lparr>can_id := cid, cf_len := 2\<rparr>\<rparr>"

definition vcan_dev_rx :: "(nat \<Rightarrow> u8) net_device" where
  "vcan_dev_rx = snd (alloc_can_skb vcan_dev)"

lemma vcan_skb_live:
  "owns {..<256} (skb_blocks (vcan_skb cid)) vcan_dev_rx"
  "live_skb (skb_blocks (vcan_skb cid)) (vcan_skb cid)" "\<not> is_echo (vcan_skb cid)"
proof -
  obtain r d' where a: "alloc_can_skb vcan_dev = (r, d')" by fastforce
  have "echo_blocks vcan_dev = {}" by (simp add: echo_blocks_def vcan_dev_def)
  moreover have "(0 :: nat) \<in> {..<256}" by simp
  ultimately have "r \<noteq> None"
    using owns_alloc [OF vcan_dev_owns a] by (cases r) (auto simp del: lessThan_iff)
  then obtain skb where "r = Some skb" by blast
  then show "owns {..<256} (skb_blocks (vcan_skb cid)) vcan_dev_rx"
    "live_skb (skb_blocks (vcan_skb cid)) (vcan_skb cid)" "\<not> is_echo (vcan_skb cid)"
    using owns_alloc [OF vcan_dev_owns a] a by (simp_all add: vcan_skb_def vcan_dev_rx_def)
qed

theorem netif_rx_returns_buffer_witness:
  "\<exists>d'. netif_rx RX_FUEL (vcan_skb CAN_ERR_FLAG) vcan_dev_rx = Some d' \<and> owns {..<256} {} d'"
  using netif_rx_returns_buffer [OF vcan_skb_live(1,2), of CAN_ERR_FLAG] vcan_skb_live(3)
  by auto

text \<open>Delivery client by client.\<close>

lemma client_deliver_cases:
  "\<not> client_accepts m c \<Longrightarrow> client_deliver m c = (0, c)"
  "client_accepts m c \<Longrightarrow> snd (client_deliver m c) = c\<lparr>rx_queue := snd (snd (enqueue_at (rx_queue c) m))\<rparr>"
  by (simp_all add: client_deliver_def split: prod.splits)

text \<open>
  C15: a received data frame reaches exactly the clients that accept it: \<^verbatim>\<open>netif_rx\<close> builds
  one message from the frame, appends it to the receive queue of every session whose filter
  covers the message identifier (by the rules of \<^verbatim>\<open>enqueue\<close>; nothing is lost while two slots
  are free) and leaves every other session untouched; then the buffer goes back to the pool.
\<close>

theorem netif_rx_delivers:
  assumes "owns blocks rest d" and "live_skb rest skb" and "\<not> is_echo skb"
    and "\<not> has_flag (can_id (frame skb)) CAN_ERR_FLAG" and "\<not> has_flag (can_id (frame skb)) CAN_RTR_FLAG"
  shows "\<exists>d'. netif_rx RX_FUEL skb d = Some d' \<and> owns blocks (rest - skb_blocks skb) d' \<and>
    length (clients d') = length (clients d) \<and>
    (\<forall>i < length (clients d).
       let m = rx_canmsg (fst (rx_timestamp d)) skb; c = clients d ! i; c' = clients d' ! i
       in (\<not> client_accepts m c \<longrightarrow> c' = c) \<and>
          (client_accepts m c \<and> queue_wf (rx_queue c) \<and> session_up (rx_queue c) \<and> attr_size (rx_queue c) \<noteq> 0
            \<longrightarrow> contents (rx_queue c') = enqueue_spec (rx_queue c) m \<and>
               (length (contents (rx_queue c)) < attr_size (rx_queue c) - 1
                 \<longrightarrow> contents (rx_queue c') = contents (rx_queue c) @ [m])))"
proof -
  obtain t d1 where t: "rx_timestamp d = (t, d1)" by fastforce
  let ?m = "rx_canmsg t skb" and ?d2 = "deliver_all (rx_canmsg t skb) d1"
  have cl: "clients d1 = clients d"
    using t by (auto simp: rx_timestamp_def now_ms_def Let_def split: if_splits prod.splits)
  have "owns blocks rest ?d2"
    using assms(1) owns_device_ops(9) [of blocks rest d] t by simp
  then obtain p' where p': "kfree_skb skb ?d2 = Some (?d2\<lparr>pool := p'\<rparr>)"
    "owns blocks (rest - skb_blocks skb) (?d2\<lparr>pool := p'\<rparr>)"
    by (rule owns_kfree [OF _ assms(2)])
  have "netif_rx RX_FUEL skb d = Some (?d2\<lparr>pool := p'\<rparr>)"
    using assms(3-5) t p'(1) by (simp add: RX_FUEL_def numeral_eq_Suc rx_data_def)
  moreover have "clients (?d2\<lparr>pool := p'\<rparr>) = map (snd \<circ> client_deliver ?m) (clients d)"
    by (simp add: deliver_all_def Let_def cl)
  ultimately show ?thesis
    using p'(2) t by (auto simp: Let_def client_deliver_cases contents_enqueue_at enqueue_spec_room)
qed

lemma vcan_dev_rx_clients: "clients vcan_dev_rx = clients vcan_dev"
  by (simp add: vcan_dev_rx_def alloc_can_skb_def split: prod.splits option.splits)

theorem netif_rx_delivers_witness:
  "\<exists>d' m. netif_rx RX_FUEL (vcan_skb 0x123) vcan_dev_rx = Some d' \<and>
     contents (rx_queue (clients d' ! 0)) = [m] \<and> m_mid m = 0x48C0000"
proof -
  have fr: "can_id (frame (vcan_skb 0x123)) = 0x123" by (simp add: vcan_skb_def)
  let ?m = "rx_canmsg (fst (rx_timestamp vcan_dev_rx)) (vcan_skb 0x123)"
  have c: "clients vcan_dev = [\<lparr>mfilter = 0xFFFFFFFF, rx_queue = fresh_queue 1024\<rparr>]"
    by (simp add: vcan_dev_def)
  have mid: "m_mid ?m = 0x48C0000"
    by (simp add: rx_canmsg_def fr flag_defs Let_def push_bit_eq_mult)
  then have acc: "client_accepts ?m (clients vcan_dev ! 0)"
    by (simp add: client_accepts_def c)
  with netif_rx_delivers [OF vcan_skb_live(1-3), of "0x123"] acc mid show ?thesis
    by (auto simp: fr flag_defs vcan_dev_rx_clients c Let_def fresh_queue_ok)
qed

text \<open>
  A restart that sends its message to a receiver \<open>rx\<close> counts one restart more than the
  receiver does.
\<close>

lemma can_stats_chip_only: "chip_only d d' \<Longrightarrow> can_stats d' = can_stats d"
  by (elim chip_onlyE) simp

lemma set_mode_start:
  "\<exists>d'. sja1000_set_mode CAN_MODE_START d = (EOK, d') \<and> can_stats d' = can_stats d"
  using can_stats_chip_only [OF chip_only_sja1000_start [of d]]
  by (auto simp: sja1000_set_mode_def Let_def netif_wake_queue_def)

lemma can_restart_counts:
  assumes o: "owns blocks rest d" and set: "do_set_mode d"
    and none: "skbs_left rest = 0 \<Longrightarrow> k = 0"
    and rx: "\<And>skb d2. owns blocks (rest \<union> skb_blocks skb) d2 \<Longrightarrow> live_skb (rest \<union> skb_blocks skb) skb \<Longrightarrow>
      skbs_left rest = Suc (skbs_left (rest \<union> skb_blocks skb)) \<Longrightarrow> same_config d d2 \<Longrightarrow>
      has_flag (can_id (frame skb)) CAN_ERR_FLAG \<Longrightarrow> can_state d2 = can_state d \<Longrightarrow> can_stats d2 = can_stats d \<Longrightarrow>
      \<exists>d3. rx skb d2 = Some d3 \<and> restarts (can_stats d3) = restarts (can_stats d) + k"
  obtains d' where "can_restart rx d = Some (EOK, d')"
    "restarts (can_stats d') = restarts (can_stats d) + k + 1"
proof -
  obtain d1 where d1: "can_flush_echo_skb d = Some d1" "owns blocks rest d1"
    "d1 = d\<lparr>pool := pool d1, echo_skb := [None], stats := stats d1\<rparr>" "echo_skb d1 = [None]"
    by (rule owns_flush_echo [OF o]) blast
  have c1: "same_config d d1" "can_state d1 = can_state d" "can_stats d1 = can_stats d"
    by (subst d1(3), simp)+
  obtain r d2 where a: "alloc_can_err_skb d1 = (r, d2)" by fastforce
  note al = owns_alloc_err [OF d1(2) a]
  define send where "send = (case r of
                None \<Rightarrow> Some d2
              | Some skb \<Rightarrow>
                  rx (skb\<lparr>frame := (frame skb)\<lparr>can_id := can_id (frame skb) OR CAN_ERR_RESTARTED\<rparr>\<rparr>) d2)"
  have "\<exists>d3. send = Some d3 \<and> restarts (can_stats d3) = restarts (can_stats d) + k"
  proof (cases r)
    case None
    have "echo_blocks d1 = {}" using d1(4) by (simp add: echo_blocks_def)
    then have "rest = blocks" using al None by simp
    then have "skbs_left rest = 0"
      using d1(2) by (simp add: skbs_left_def owns_def pool_inv_def)
    then show ?thesis using none None al c1 by (simp add: send_def)
  next
    case (Some skb)
    let ?skb = "skb\<lparr>frame := (frame skb)\<lparr>can_id := can_id (frame skb) OR CAN_ERR_RESTARTED\<rparr>\<rparr>"
    have flag: "has_flag (can_id (frame ?skb)) CAN_ERR_FLAG"
      using al Some by (simp add: flag_defs)
    have d2: "d2 = d1\<lparr>pool := pool d2\<rparr>" using al Some by simp
    have c2: "same_config d d2" "can_state d2 = can_state d" "can_stats d2 = can_stats d"
      by (subst d2, simp add: c1)+
    show ?thesis
      using rx [of ?skb d2] skbs_left_Un [of blocks rest skb d2] al Some flag c2
      by (simp add: send_def)
  qed
  then obtain d3 where d3: "send = Some d3" "restarts (can_stats d3) = restarts (can_stats d) + k" by blast
  obtain d5 where m: "sja1000_set_mode CAN_MODE_START (netif_carrier_on d3) = (EOK, d5)"
    "can_stats d5 = can_stats d3"
    using set_mode_start [of "netif_carrier_on d3"] by (auto simp: netif_carrier_on_def)
  show ?thesis
    by (rule that [of "count_restart d5"])
      (use set d1(1) a d3 m in \<open>simp_all add: can_restart_def send_def [symmetric] count_restart_def\<close>)
qed

lemma kfree_skb_can_stats: "kfree_skb skb d = Some d' \<Longrightarrow> can_stats d' = can_stats d"
  by (auto simp: kfree_skb_def split: bind_splits)

lemma restart_storm_aux:
  assumes "owns blocks rest d" and "live_skb rest skb"
    and "has_flag (can_id (frame skb)) CAN_ERR_FLAG" and "skbs_left rest < n"
    and "256 \<le> optR_error_count d" and "can_state d = CAN_STATE_BUS_OFF" and "do_set_mode d"
  shows "\<exists>d'. netif_rx n skb d = Some d' \<and>
    restarts (can_stats d') = restarts (can_stats d) + of_nat (skbs_left rest) + 1"
  using assms
proof (induction n arbitrary: rest d skb)
  case (Suc n)
  let ?b = "d\<lparr>restart_ms := 0, can_state := CAN_STATE_BUS_OFF\<rparr>"
  let ?c = "?b\<lparr>restart_pending := None\<rparr>"
  have rec: "\<exists>d3. netif_rx n skb2 d2 = Some d3 \<and>
      restarts (can_stats d3) = restarts (can_stats ?c) + of_nat (skbs_left rest)"
    if "owns blocks (rest \<union> skb_blocks skb2) d2" "live_skb (rest \<union> skb_blocks skb2) skb2"
      "skbs_left rest = Suc (skbs_left (rest \<union> skb_blocks skb2))" "same_config ?c d2"
      "has_flag (can_id (frame skb2)) CAN_ERR_FLAG" "can_state d2 = can_state ?c"
      "can_stats d2 = can_stats ?c" for skb2 d2
    using Suc.IH [OF that(1,2,5)] that Suc.prems by (auto simp: same_config_def)
  obtain d2 where d2: "can_restart (netif_rx n) ?c = Some (EOK, d2)"
    "restarts (can_stats d2) = restarts (can_stats ?c) + of_nat (skbs_left rest) + 1"
    by (rule can_restart_counts [where blocks = blocks and rest = rest and d = ?c
          and k = "of_nat (skbs_left rest)" and rx = "netif_rx n"])
      (use Suc.prems rec in simp_all)
  have trig: "restart_trigger (optR_error_count d) (can_state d)"
    using Suc.prems by (simp add: restart_trigger_def)
  have now: "can_restart_now (netif_rx n) ?b = Some (EOK, d2)"
    using d2(1) by (simp add: can_restart_now_def)
  obtain d' where d': "netif_rx (Suc n) skb d = Some d'"
    using netif_rx_err [OF Suc.prems(1-4)] by blast
  then have "kfree_skb skb (d2\<lparr>restart_ms := restart_ms d\<rparr>) = Some d'"
    using Suc.prems(3) trig now by simp
  from kfree_skb_can_stats [OF this] show ?case using d' d2(2) by simp
qed simp

text \<open>
  With the option \<^verbatim>\<open>-R\<close> at 256 or more, one error frame while the controller is bus-off
  makes the driver restart it once for every buffer left in the pool and once more: the
  message each restart sends to \<^verbatim>\<open>netif_rx\<close> finds the state bus-off again and starts the next
  restart, until no buffer is left.
\<close>

lemma restart_storm:
  assumes "owns blocks rest d" and "live_skb rest skb" and "has_flag (can_id (frame skb)) CAN_ERR_FLAG"
    and "256 \<le> optR_error_count d" and "can_state d = CAN_STATE_BUS_OFF" and "do_set_mode d"
  shows "\<exists>d'. netif_rx RX_FUEL skb d = Some d' \<and>
    restarts (can_stats d') =
      restarts (can_stats d) + of_nat ((FIXED_MAX_NUM_BLOCKS - card rest) div 2) + 1"
  using restart_storm_aux [OF assms(1-3) skbs_left_RX_FUEL assms(4-6)] by (simp add: skbs_left_def)

lemma restart_storm_witness:
  "\<exists>d'. netif_rx RX_FUEL (vcan_skb CAN_ERR_FLAG)
     (vcan_dev_rx\<lparr>optR_error_count := 256, can_state := CAN_STATE_BUS_OFF\<rparr>) = Some d' \<and>
     restarts (can_stats d') = 128"
proof -
  let ?d = "vcan_dev_rx\<lparr>optR_error_count := 256, can_state := CAN_STATE_BUS_OFF\<rparr>"
  have o: "owns {..<256} (skb_blocks (vcan_skb CAN_ERR_FLAG)) ?d"
    using vcan_skb_live(1) [of CAN_ERR_FLAG] by (subst owns_cong [of _ vcan_dev_rx]) simp_all
  have f: "has_flag (can_id (frame (vcan_skb CAN_ERR_FLAG))) CAN_ERR_FLAG"
    by (simp add: vcan_skb_def flag_defs)
  have s: "do_set_mode ?d" "can_stats ?d = can_stats vcan_dev"
    by (simp_all add: vcan_dev_rx_def alloc_can_skb_def vcan_dev_def split: prod.splits option.splits)
  have "card (skb_blocks (vcan_skb CAN_ERR_FLAG)) = 2"
    using vcan_skb_live(2) [of CAN_ERR_FLAG] by (simp add: live_skb_def card_skb_blocks)
  then show ?thesis
    using restart_storm [OF o vcan_skb_live(2) f] s
    by (simp add: FIXED_MAX_NUM_BLOCKS_def vcan_dev_def)
qed

end
