(* ===== verification/Netif_Tx.thy ===== *)
theory Netif_Tx
  imports Netif_Rx
begin

unbundle bit_operations_syntax

text \<open>
  Proofs about the transmit path: \<^verbatim>\<open>sja1000_start_xmit\<close> and \<^verbatim>\<open>netif_tx\<close> keep the books of the
  block pool, and the frames a client must not be able to send.
\<close>

section \<open>The transmit path\<close>

definition echo_clean :: "'h net_device \<Rightarrow> bool" where
  "echo_clean d \<longleftrightarrow>
     (\<forall>skb. Some skb \<in> set (echo_skb d) \<longrightarrow> \<not> has_flag (can_id (frame skb)) CAN_ERR_FLAG)"

lemma echo_clean_kept: "echo_kept d d' \<Longrightarrow> echo_clean d \<Longrightarrow> echo_clean d'"
  by (auto simp: echo_kept_def echo_clean_def)

lemma hw_only_keeps:
  assumes "hw_only d d'"
  shows "same_config e d' = same_config e d" "echo_skb d' = echo_skb d" "ctrlmode d' = ctrlmode d"
    "dev_flags d' = dev_flags d" "tx_queue d' = tx_queue d" "pool d' = pool d" "clients d' = clients d"
    "optR_error_count d' = optR_error_count d" "can_state d' = can_state d" "optE d' = optE d"
  using assms by (auto simp: hw_only_def)

text \<open>
  The registers written before the buffer goes to the echo slot, and \<^verbatim>\<open>sja1000_start_xmit\<close>
  on a buffer that is not dropped.
\<close>

definition xmit_registers :: "can_frame \<Rightarrow> 'h net_device \<Rightarrow> 'h net_device" where
  "xmit_registers cf d =
     (let (dreg, d') = xmit_header (ctrlmode d) cf d
      in xmit_data dreg (take (unat (cf_len cf)) (cf_data cf)) d')"

lemma hw_only_xmit_registers: "hw_only d (xmit_registers cf d)"
  unfolding xmit_registers_def
  by (auto split: prod.splits intro: hw_only_trans [OF hw_only_xmit_header hw_only_xmit_data])

lemma start_xmit_accepted:
  assumes "\<not> has_flag (ctrlmode d) CAN_CTRLMODE_LISTENONLY" and "can_is_can_skb skb"
  shows "sja1000_start_xmit skb d = do {
    (r, d') \<leftarrow> can_put_echo_skb skb 0 0 (xmit_registers (frame skb) (netif_stop_queue d));
    Some (sja1000_write_cmdreg (xmit_command (ctrlmode d')) d') }"
  using assms
  by (simp add: sja1000_start_xmit_def can_dev_dropped_skb_def can_dropped_invalid_skb_def
      xmit_registers_def Let_def split: prod.splits)

lemma start_xmit_dropped:
  assumes "has_flag (ctrlmode d) CAN_CTRLMODE_LISTENONLY \<or> \<not> can_is_can_skb skb"
  shows "sja1000_start_xmit skb d = do { d' \<leftarrow> kfree_skb skb d; Some (count_tx_dropped d') }"
  using assms
  by (cases "kfree_skb skb d") (auto simp: sja1000_start_xmit_def can_dev_dropped_skb_def can_dropped_invalid_skb_def)

lemma owns_start_xmit:
  assumes o: "owns blocks rest d" and live: "live_skb rest skb"
  obtains d' where "sja1000_start_xmit skb d = Some d'" "owns blocks (rest - skb_blocks skb) d'"
    "same_config d d'"
    "\<not> has_flag (can_id (frame skb)) CAN_ERR_FLAG \<Longrightarrow> echo_clean d \<Longrightarrow> echo_clean d'"
    "\<not> has_flag (ctrlmode d) CAN_CTRLMODE_LISTENONLY \<Longrightarrow> can_is_can_skb skb \<Longrightarrow>
     has_flag (dev_flags d) IFF_ECHO \<Longrightarrow> echo_skb d = [None] \<Longrightarrow>
       echo_skb d' = [Some (skb\<lparr>is_echo := True, skb_frame_len := 0\<rparr>)] \<and> netif_queue_stopped d'"
proof (cases "has_flag (ctrlmode d) CAN_CTRLMODE_LISTENONLY \<or> \<not> can_is_can_skb skb")
  case True
  obtain p' where p': "kfree_skb skb d = Some (d\<lparr>pool := p'\<rparr>)" "owns blocks (rest - skb_blocks skb) (d\<lparr>pool := p'\<rparr>)"
    by (rule owns_kfree [OF o live])
  show ?thesis
    using that [of "count_tx_dropped (d\<lparr>pool := p'\<rparr>)"] start_xmit_dropped [OF True] p' True
    by (auto simp: count_tx_dropped_def echo_clean_def)
next
  case False
  define x where "x = xmit_registers (frame skb) (netif_stop_queue d)"
  have h: "hw_only (netif_stop_queue d) x" unfolding x_def by (rule hw_only_xmit_registers)
  have x: "echo_skb x = echo_skb d" "dev_flags x = dev_flags d" "tx_queue x = queue_stop (tx_queue d)"
    by (simp_all add: hw_only_keeps [OF h] netif_stop_queue_def)
  have "owns blocks rest x" using o owns_hw_only [OF h] by simp
  then obtain r d1 where e: "can_put_echo_skb skb 0 0 x = Some (r, d1)" "owns blocks (rest - skb_blocks skb) d1"
    "d1 = x\<lparr>pool := pool d1, echo_skb := echo_skb d1\<rparr>"
    "has_flag (dev_flags x) IFF_ECHO \<Longrightarrow> echo_skb x = [None] \<Longrightarrow>
      r = EOK \<and> echo_skb d1 = [Some (skb\<lparr>is_echo := True, skb_frame_len := 0\<rparr>)]"
    "echo_skb d1 = echo_skb x \<or> echo_skb d1 = [Some (skb\<lparr>is_echo := True, skb_frame_len := 0\<rparr>)]"
    by (rule owns_put_echo [OF _ live]) blast
  let ?e = "sja1000_write_cmdreg (xmit_command (ctrlmode d1)) d1"
  have cmd: "hw_only d1 ?e" by simp
  have "same_config d d1" by (subst e(3)) (simp add: hw_only_keeps [OF h])
  moreover have "tx_queue d1 = queue_stop (tx_queue d)"
    by (subst e(3)) (simp add: x)
  ultimately show ?thesis
    using that [of ?e] start_xmit_accepted [of d skb, folded x_def] False e(1,2,4,5) x
    by (auto simp: hw_only_keeps [OF cmd] owns_hw_only [OF cmd] echo_clean_def
        netif_queue_stopped_def queue_stop_def queue_is_stopped_def)
qed

definition err_bit_request :: "can_msg \<Rightarrow> bool" where
  "err_bit_request m \<longleftrightarrow> m_is_extended_mid m \<and> has_flag (m_mid m) CAN_ERR_FLAG"

lemma id_flag_bits:
  "has_flag w CAN_EFF_FLAG \<longleftrightarrow> bit w 31" "has_flag w CAN_RTR_FLAG \<longleftrightarrow> bit w 30"
  "has_flag w CAN_ERR_FLAG \<longleftrightarrow> bit w 29"
  by (rule flag_bit; simp add: flag_defs push_bit_eq_mult)+

lemma tx_frame_err_flag:
  assumes "tx_frame m = Some cf"
  shows "has_flag (can_id cf) CAN_ERR_FLAG = err_bit_request m"
proof -
  have eff: "\<not> bit CAN_EFF_FLAG 29"
    unfolding id_flag_bits(3) [symmetric] by (simp add: flag_defs)
  have len: "\<not> bit (drop_bit 18 (m_mid m)) 29"
    by (auto simp: bit_simps dest: bit_imp_le_length)
  have "can_id cf = (if m_is_extended_mid m then m_mid m OR CAN_EFF_FLAG else drop_bit 18 (m_mid m))"
    using assms by (auto simp: tx_frame_def split: if_splits)
  then show ?thesis
    using eff len by (simp add: id_flag_bits err_bit_request_def bit_or_iff)
qed

lemma netif_tx_owns:
  assumes o: "owns blocks rest d" and len: "m_len m \<le> CAN_MSG_DATA_MAX"
  obtains go d' where "netif_tx_msg m d = Some (go, d')" "owns blocks rest d'" "same_config d d'"
    "go \<longleftrightarrow> dev_irq d = 0 \<or> rest \<union> echo_blocks d \<noteq> blocks"
    "\<not> err_bit_request m \<Longrightarrow> echo_clean d \<Longrightarrow> echo_clean d'"
proof (cases "dev_irq d = 0")
  case True
  then show ?thesis
    using that [of True "deliver_all m d"] o by (simp add: netif_tx_msg_def echo_clean_def)
next
  case False
  obtain r d1 where a: "alloc_can_skb d = (r, d1)" by fastforce
  note al = owns_alloc [OF o a]
  show ?thesis
  proof (cases r)
    case None
    then show ?thesis using that [of False d] al a o False by (simp add: netif_tx_msg_def)
  next
    case (Some skb)
    obtain cf where cf: "tx_frame m = Some cf" using len by (simp add: tx_frame_def)
    let ?s = "skb\<lparr>skb_len := CAN_MTU, frame := cf\<rparr>"
    have b: "skb_blocks ?s = skb_blocks skb" by (simp add: skb_blocks_def)
    have d1: "d1 = d\<lparr>pool := pool d1\<rparr>" using al Some by simp
    have c1: "same_config d d1" "echo_skb d1 = echo_skb d" by (subst d1, simp)+
    have live: "live_skb (rest \<union> skb_blocks skb) ?s" using al Some by (simp add: live_skb_def skb_blocks_def)
    have o1: "owns blocks (rest \<union> skb_blocks skb) d1" using al Some by simp
    obtain d2 where d2: "sja1000_start_xmit ?s d1 = Some d2"
      "owns blocks (rest \<union> skb_blocks skb - skb_blocks ?s) d2" "same_config d1 d2"
      "\<not> has_flag (can_id (frame ?s)) CAN_ERR_FLAG \<Longrightarrow> echo_clean d1 \<Longrightarrow> echo_clean d2"
      by (rule owns_start_xmit [OF o1 live]) blast
    have "rest \<union> skb_blocks skb - skb_blocks ?s = rest" using al Some b by auto
    moreover have "rest \<union> echo_blocks d \<noteq> blocks"
    proof
      assume full: "rest \<union> echo_blocks d = blocks"
      have "skb_addr skb \<in> blocks" "skb_addr skb \<notin> rest"
        using owns_finite [OF o1] al Some by (auto simp: skb_blocks_def)
      moreover have "skb_addr skb \<notin> echo_blocks d"
        using o1 c1(2) by (auto simp: owns_def echo_blocks_def skb_blocks_def)
      ultimately show False using full by blast
    qed
    moreover have "echo_clean d1 = echo_clean d" using c1(2) by (simp add: echo_clean_def)
    ultimately show ?thesis
      using that [of True d2] a Some cf d2 False same_config_trans [OF c1(1) d2(3)] tx_frame_err_flag [OF cf]
      by (simp add: netif_tx_msg_def)
  qed
qed

text \<open>
  C17: one turn of \<^verbatim>\<open>netif_tx\<close> on a client message of at most eight bytes returns and keeps
  the books: whatever it allocates ends in the echo slot or back in the pool, and the thread
  stops only when the pool is used up. A longer message on a real device is written past the
  frame's data array.
\<close>

theorem netif_tx_keeps_buffers:
  assumes "owns blocks rest d"
  shows "(m_len m \<le> CAN_MSG_DATA_MAX \<longrightarrow>
      (\<exists>go d'. netif_tx_msg m d = Some (go, d') \<and> owns blocks rest d' \<and> same_config d d' \<and>
         (go \<longleftrightarrow> dev_irq d = 0 \<or> rest \<union> echo_blocks d \<noteq> blocks))) \<and>
    (CAN_MSG_DATA_MAX < m_len m \<and> dev_irq d \<noteq> 0 \<and> rest \<union> echo_blocks d \<noteq> blocks \<longrightarrow>
      netif_tx_msg m d = None)"
proof (intro conjI impI)
  assume "m_len m \<le> CAN_MSG_DATA_MAX"
  then show "\<exists>go d'. netif_tx_msg m d = Some (go, d') \<and> owns blocks rest d' \<and> same_config d d' \<and>
         (go \<longleftrightarrow> dev_irq d = 0 \<or> rest \<union> echo_blocks d \<noteq> blocks)"
    by (rule netif_tx_owns [OF assms]) blast
next
  assume long: "CAN_MSG_DATA_MAX < m_len m \<and> dev_irq d \<noteq> 0 \<and> rest \<union> echo_blocks d \<noteq> blocks"
  obtain r d1 where a: "alloc_can_skb d = (r, d1)" by fastforce
  then have "r \<noteq> None" using owns_alloc [OF assms a] long by (cases r) auto
  then show "netif_tx_msg m d = None"
    using long a by (auto simp: netif_tx_msg_def tx_frame_def)
qed

theorem netif_tx_keeps_buffers_witness:
  "\<exists>d'. netif_tx_msg (sample_msg 7) vcan_dev = Some (True, d') \<and> owns {..<256} {} d' \<and>
     netif_tx_msg ((sample_msg 7)\<lparr>m_len := 9\<rparr>) vcan_dev = None"
proof -
  have e: "echo_blocks vcan_dev = {}" "dev_irq vcan_dev \<noteq> 0"
    by (simp_all add: vcan_dev_def echo_blocks_def)
  have "(0 :: nat) \<in> {..<256}" by simp
  then have "{} \<union> echo_blocks vcan_dev \<noteq> {..<256}" unfolding e by blast
  then show ?thesis
    using netif_tx_keeps_buffers [OF vcan_dev_owns, of "sample_msg 7"]
      netif_tx_keeps_buffers [OF vcan_dev_owns, of "(sample_msg 7)\<lparr>m_len := 9\<rparr>"] e(2)
    by (auto simp: sample_msg_def blank_msg_def CAN_MSG_DATA_MAX_def)
qed

text \<open>Freeing one buffer twice, with nothing else or with something else handed out.\<close>

lemma kfree_index:
  "kfree_skb skb d = Some d' \<Longrightarrow>
     FixedArrayIndex (pool d') + 2 = FixedArrayIndex (pool d) \<and> optR_error_count d' = optR_error_count d"
  by (auto simp: kfree_skb_def fixed_free_def split: bind_splits if_splits)

lemma kfree_empty: "FixedArrayIndex (pool d) = 0 \<Longrightarrow> kfree_skb skb d = None"
  by (simp add: kfree_skb_def fixed_free_def)

lemma tx_mid_err_echo:
  assumes o: "owns blocks {} d" and e: "echo_skb d = [None]" "has_flag (dev_flags d) IFF_ECHO"
    and l: "\<not> has_flag (ctrlmode d) CAN_CTRLMODE_LISTENONLY" "dev_irq d \<noteq> 0"
    and m: "m_len m \<le> CAN_MSG_DATA_MAX" "err_bit_request m"
  obtains d' skb where "netif_tx_msg m d = Some (True, d')" "owns blocks {} d'" "same_config d d'"
    "echo_skb d' = [Some skb]" "has_flag (can_id (frame skb)) CAN_ERR_FLAG"
proof -
  obtain r d1 where a: "alloc_can_skb d = (r, d1)" by fastforce
  note al = owns_alloc [OF o a]
  have "echo_blocks d = {}" using e(1) by (simp add: echo_blocks_def)
  moreover have "blocks \<noteq> {}" using o by (auto simp: owns_def pool_inv_def FIXED_MAX_NUM_BLOCKS_def)
  ultimately obtain skb where r: "r = Some skb" using al by (cases r) auto
  obtain cf where cf: "tx_frame m = Some cf" using m(1) by (simp add: tx_frame_def)
  let ?s = "skb\<lparr>skb_len := CAN_MTU, frame := cf\<rparr>"
  have d1: "d1 = d\<lparr>pool := pool d1\<rparr>" using al r by simp
  have c1: "same_config d d1" "echo_skb d1 = [None]" by (subst d1, simp add: e(1))+
  have live: "live_skb (skb_blocks skb) ?s" using al r by (simp add: live_skb_def skb_blocks_def)
  have o1: "owns blocks (skb_blocks skb) d1" using al r by simp
  have valid: "can_is_can_skb ?s"
    using cf m(1) by (auto simp: can_is_can_skb_def tx_frame_def CAN_MAX_DLEN_def CAN_MSG_DATA_MAX_def
        word_le_nat_alt unat_of_nat split: if_splits)
  have cfg: "ctrlmode d1 = ctrlmode d" "dev_flags d1 = dev_flags d"
    using c1(1) by (simp_all add: same_config_def)
  obtain d2 where d2: "sja1000_start_xmit ?s d1 = Some d2" "owns blocks (skb_blocks skb - skb_blocks ?s) d2"
    "same_config d1 d2" "echo_skb d2 = [Some (?s\<lparr>is_echo := True, skb_frame_len := 0\<rparr>)]"
    by (rule owns_start_xmit [OF o1 live]) (use l e valid c1 cfg in auto)
  show ?thesis
  proof (rule that)
    show "netif_tx_msg m d = Some (True, d2)" using l(2) a r cf d2(1) by (simp add: netif_tx_msg_def)
    show "owns blocks {} d2" using d2(2) by (simp add: skb_blocks_def)
    show "same_config d d2" by (rule same_config_trans [OF c1(1) d2(3)])
    show "echo_skb d2 = [Some (?s\<lparr>is_echo := True, skb_frame_len := 0\<rparr>)]" by (rule d2(4))
    show "has_flag (can_id (frame (?s\<lparr>is_echo := True, skb_frame_len := 0\<rparr>))) CAN_ERR_FLAG"
      using tx_frame_err_flag [OF cf] m(2) by simp
  qed
qed

text \<open>
  A client can make the driver free a buffer twice. An extended identifier with bit 29
  set is sent as a frame with the error flag; when its transmission completes,
  \<^verbatim>\<open>netif_rx\<close> takes the echo for an error frame and frees it, and \<^verbatim>\<open>can_get_echo_skb\<close> frees
  it again. With no other buffer in use the second free stores before the start of the block
  array.
\<close>

lemma echo_error_flag_double_free:
  assumes "owns blocks {} d" and "echo_skb d = [None]" and "has_flag (dev_flags d) IFF_ECHO"
    and "\<not> has_flag (ctrlmode d) CAN_CTRLMODE_LISTENONLY" and "dev_irq d \<noteq> 0"
    and "optR_error_count d = 0"
    and "m_len m \<le> CAN_MSG_DATA_MAX" and "m_is_extended_mid m" and "has_flag (m_mid m) CAN_ERR_FLAG"
  shows "\<exists>d'. netif_tx_msg m d = Some (True, d') \<and> can_get_echo_skb 0 d' = None"
proof -
  have req: "err_bit_request m" using assms(8,9) by (simp add: err_bit_request_def)
  obtain d' skb where d': "netif_tx_msg m d = Some (True, d')" "owns blocks {} d'"
    "same_config d d'" "echo_skb d' = [Some skb]" "has_flag (can_id (frame skb)) CAN_ERR_FLAG"
    by (rule tx_mid_err_echo [OF assms(1-5,7) req])
  have "skb_addr skb \<noteq> skb_head skb" using d'(2,4) by (simp add: owns_def)
  then have idx: "FixedArrayIndex (pool d') = 2"
    using d'(2,4) by (simp add: owns_def pool_inv_def echo_blocks_def card_skb_blocks)
  have R: "optR_error_count d' = 0" using d'(3) assms(6) by (simp add: same_config_def)
  have rx: "netif_rx RX_FUEL skb e = kfree_skb skb e" if "optR_error_count e = 0" for e :: "'a net_device"
    using d'(5) that by (simp add: RX_FUEL_def numeral_eq_Suc restart_trigger_def)
  have "can_get_echo_skb 0 d' = None"
    using d'(4) rx R idx kfree_index [of skb "d'\<lparr>echo_skb := [None]\<rparr>"]
    by (cases "kfree_skb skb (d'\<lparr>echo_skb := [None]\<rparr>)")
      (auto simp: can_get_echo_skb_def take_echo_skb_def kfree_empty)
  then show ?thesis using d'(1) by blast
qed

lemma echo_error_flag_double_free_witness:
  "\<exists>d'. netif_tx_msg (blank_msg\<lparr>m_mid := 0x20000123, m_is_extended_mid := True\<rparr>) vcan_dev = Some (True, d') \<and>
     can_get_echo_skb 0 d' = None"
  by (rule echo_error_flag_double_free [OF vcan_dev_owns])
    (simp_all add: vcan_dev_def flag_defs blank_msg_def)

end
