(* ===== verification/Sja1000_Irq.thy ===== *)
theory Sja1000_Irq
  imports Netif_Tx
begin

unbundle bit_operations_syntax

text \<open>
  Interrupt handling of \<^verbatim>\<open>sja1000/sja1000.c\<close> (\<^verbatim>\<open>sja1000_rx\<close>, \<^verbatim>\<open>sja1000_err\<close>,
  \<^verbatim>\<open>sja1000_interrupt\<close>, \<^verbatim>\<open>sja1000_reset_interrupt\<close>) and the controller state of
  \<^verbatim>\<open>dev/dev.c\<close> (\<^verbatim>\<open>can_change_state\<close> and its helpers). The receive loop runs as long as the
  chip reports a frame, so the loops are partial functions: \<open>None\<close> is a loop that does not
  end, a store outside the block array, or a write through the frame pointer that
  \<^verbatim>\<open>sja1000_err\<close> leaves uninitialised when no buffer is left.
\<close>

section \<open>Reception\<close>

text \<open>
  The identifier registers, read from left to right; the receive data loop with the 8-bit
  counter \<^verbatim>\<open>dreg\<close>.
\<close>

definition rx_id :: "u8 \<Rightarrow> 'h net_device \<Rightarrow> u32 \<times> 'h net_device" where
  "rx_id fi d =
     (if has_flag fi SJA1000_FI_FF
      then let (a, d1) = rd SJA1000_ID1 d; (b, d2) = rd SJA1000_ID2 d1;
               (c, d3) = rd SJA1000_ID3 d2; (e, d4) = rd SJA1000_ID4 d3
           in (push_bit 21 (ucast a) OR push_bit 13 (ucast b) OR push_bit 5 (ucast c) OR
               drop_bit 3 (ucast e) OR CAN_EFF_FLAG, d4)
      else let (a, d1) = rd SJA1000_ID1 d; (b, d2) = rd SJA1000_ID2 d1
           in (push_bit 3 (ucast a) OR drop_bit 5 (ucast b), d2))"

fun rx_bytes_loop :: "nat \<Rightarrow> u8 \<Rightarrow> 'h net_device \<Rightarrow> u8 list \<times> 'h net_device" where
  "rx_bytes_loop 0 dreg d = ([], d)"
| "rx_bytes_loop (Suc n) dreg d =
     (let (b, d1) = rd (unat dreg) d; (bs, d2) = rx_bytes_loop n (dreg + 1) d1
      in (b # bs, d2))"

text \<open>The frame \<^verbatim>\<open>sja1000_rx\<close> reads, before it releases the receive buffer.\<close>

definition rx_frame :: "can_frame \<Rightarrow> 'h net_device \<Rightarrow> can_frame \<times> 'h net_device" where
  "rx_frame cf d =
     (let (fi, d1) = rd SJA1000_FI d;
          (id, d2) = rx_id fi d1;
          cf1 = can_frame_set_cc_len cf (fi AND 0x0F) (ctrlmode d2)
      in if has_flag fi SJA1000_FI_RTR then (cf1\<lparr>can_id := id OR CAN_RTR_FLAG\<rparr>, d2)
         else let n = unat (cf_len cf1);
                  (bs, d3) = rx_bytes_loop n
                    (if has_flag fi SJA1000_FI_FF then SJA1000_EFF_BUF else SJA1000_SFF_BUF) d2
              in (cf1\<lparr>can_id := id, cf_data := bs @ drop n (cf_data cf1)\<rparr>,
                  d3\<lparr>stats := (stats d3)\<lparr>rx_bytes := rx_bytes (stats d3) + of_nat n\<rparr>\<rparr>))"

definition count_rx_packet :: "'h net_device \<Rightarrow> 'h net_device" where
  "count_rx_packet d = d\<lparr>stats := (stats d)\<lparr>rx_packets := rx_packets (stats d) + 1\<rparr>\<rparr>"

definition sja1000_rx :: "'h net_device \<Rightarrow> 'h net_device option" where
  "sja1000_rx d =
     (case alloc_can_skb d of
        (None, d1) \<Rightarrow> Some d1
      | (Some skb, d1) \<Rightarrow>
          (let (cf, d2) = rx_frame (frame skb) d1;
               d3 = sja1000_write_cmdreg CMD_RRB (count_rx_packet d2)
           in netif_rx RX_FUEL (skb\<lparr>frame := cf\<rparr>) d3))"

section \<open>Controller state\<close>

definition can_update_state_error_stats :: "can_state \<Rightarrow> 'h net_device \<Rightarrow> 'h net_device" where
  "can_update_state_error_stats new d =
     (if new \<le> can_state d then d
      else d\<lparr>can_stats := (case new of
          CAN_STATE_ERROR_WARNING \<Rightarrow> (can_stats d)\<lparr>error_warning := error_warning (can_stats d) + 1\<rparr>
        | CAN_STATE_ERROR_PASSIVE \<Rightarrow> (can_stats d)\<lparr>error_passive := error_passive (can_stats d) + 1\<rparr>
        | CAN_STATE_BUS_OFF \<Rightarrow> (can_stats d)\<lparr>bus_off := bus_off (can_stats d) + 1\<rparr>
        | _ \<Rightarrow> can_stats d)\<rparr>)"

fun can_tx_state_to_frame :: "can_state \<Rightarrow> u8" where
  "can_tx_state_to_frame CAN_STATE_ERROR_ACTIVE = CAN_ERR_CRTL_ACTIVE"
| "can_tx_state_to_frame CAN_STATE_ERROR_WARNING = CAN_ERR_CRTL_TX_WARNING"
| "can_tx_state_to_frame CAN_STATE_ERROR_PASSIVE = CAN_ERR_CRTL_TX_PASSIVE"
| "can_tx_state_to_frame _ = 0"

fun can_rx_state_to_frame :: "can_state \<Rightarrow> u8" where
  "can_rx_state_to_frame CAN_STATE_ERROR_ACTIVE = CAN_ERR_CRTL_ACTIVE"
| "can_rx_state_to_frame CAN_STATE_ERROR_WARNING = CAN_ERR_CRTL_RX_WARNING"
| "can_rx_state_to_frame CAN_STATE_ERROR_PASSIVE = CAN_ERR_CRTL_RX_PASSIVE"
| "can_rx_state_to_frame _ = 0"

definition can_state_err_to_state :: "u16 \<Rightarrow> can_state" where
  "can_state_err_to_state err =
     (if err < 96 then CAN_STATE_ERROR_ACTIVE
      else if err < 128 then CAN_STATE_ERROR_WARNING
      else if err < 256 then CAN_STATE_ERROR_PASSIVE
      else CAN_STATE_BUS_OFF)"

definition or_data :: "nat \<Rightarrow> u8 \<Rightarrow> can_frame \<Rightarrow> can_frame" where
  "or_data i v cf = cf\<lparr>cf_data := (cf_data cf)[i := cf_data cf ! i OR v]\<rparr>"

definition set_data :: "nat \<Rightarrow> u8 \<Rightarrow> can_frame \<Rightarrow> can_frame" where
  "set_data i v cf = cf\<lparr>cf_data := (cf_data cf)[i := v]\<rparr>"

definition or_id :: "u32 \<Rightarrow> can_frame \<Rightarrow> can_frame" where
  "or_id v cf = cf\<lparr>can_id := can_id cf OR v\<rparr>"

text \<open>\<^verbatim>\<open>can_change_state\<close> with a frame.\<close>

definition can_change_state ::
  "can_frame \<Rightarrow> can_state \<Rightarrow> can_state \<Rightarrow> 'h net_device \<Rightarrow> can_frame \<times> 'h net_device" where
  "can_change_state cf tx_state rx_state d =
     (let new = max tx_state rx_state in
      if new = can_state d then (cf, d)
      else let d1 = (can_update_state_error_stats new d)\<lparr>can_state := new\<rparr> in
      if new = CAN_STATE_BUS_OFF then (or_id CAN_ERR_BUSOFF cf, d1)
      else (or_data 1 (if tx_state \<le> rx_state then can_rx_state_to_frame rx_state else 0)
             (or_data 1 (if rx_state \<le> tx_state then can_tx_state_to_frame tx_state else 0)
               (or_id CAN_ERR_CRTL cf)), d1))"

section \<open>Errors\<close>

datatype err_ret = Err_zero | Err_wake_thread | Err_nomem

text \<open>
  The branches of \<^verbatim>\<open>sja1000_err\<close> in their order. \<open>F\<close> applies to the frame, if there is
  one.
\<close>

definition err_overrun :: "u8 \<Rightarrow> can_frame option \<Rightarrow> 'h net_device \<Rightarrow> err_ret \<times> can_frame option \<times> 'h net_device" where
  "err_overrun isrc F d =
     (if has_flag isrc IRQ_DOI
      then let F1 = map_option (\<lambda>cf. set_data 1 CAN_ERR_CRTL_RX_OVERFLOW (or_id CAN_ERR_CRTL cf)) F;
               d1 = d\<lparr>stats := (stats d)\<lparr>rx_over_errors := rx_over_errors (stats d) + 1,
                                        rx_errors := rx_errors (stats d) + 1\<rparr>\<rparr>;
               d2 = sja1000_write_cmdreg CMD_CDO d1
           in (if has_flag (priv_flags d2) SJA1000_QUIRK_RESET_ON_OVERRUN
               then Err_wake_thread else Err_zero, F1, d2)
      else (Err_zero, F, d))"

definition err_warning_state :: "u8 \<Rightarrow> u8 \<Rightarrow> can_state \<Rightarrow> can_state" where
  "err_warning_state isrc status s =
     (if has_flag isrc IRQ_EI
      then if has_flag status SR_BS then CAN_STATE_BUS_OFF
           else if has_flag status SR_ES then CAN_STATE_ERROR_WARNING
           else CAN_STATE_ERROR_ACTIVE
      else s)"

definition err_passive_state :: "u8 \<Rightarrow> can_state \<Rightarrow> can_state" where
  "err_passive_state isrc s =
     (if has_flag isrc IRQ_EPI
      then if s = CAN_STATE_ERROR_PASSIVE then CAN_STATE_ERROR_WARNING else CAN_STATE_ERROR_PASSIVE
      else s)"

definition err_counters :: "can_state \<Rightarrow> u8 \<Rightarrow> u8 \<Rightarrow> can_frame option \<Rightarrow> can_frame option" where
  "err_counters s txerr rxerr F =
     (if s \<noteq> CAN_STATE_BUS_OFF
      then map_option (\<lambda>cf. set_data 7 rxerr (set_data 6 txerr (or_id CAN_ERR_CNT cf))) F else F)"

definition err_bus_frame :: "u8 \<Rightarrow> can_frame \<Rightarrow> can_frame" where
  "err_bus_frame ecc cf =
     (let cf1 = or_id (CAN_ERR_PROT OR CAN_ERR_BUSERROR) cf;
          k = ecc AND ECC_MASK;
          cf2 = (if k = ECC_BIT then or_data 2 CAN_ERR_PROT_BIT cf1
                 else if k = ECC_FORM then or_data 2 CAN_ERR_PROT_FORM cf1
                 else if k = ECC_STUFF then or_data 2 CAN_ERR_PROT_STUFF cf1
                 else cf1);
          cf3 = set_data 3 (ecc AND ECC_SEG) cf2
      in if ecc AND ECC_DIR = 0 then or_data 2 CAN_ERR_PROT_TX cf3 else cf3)"

definition err_bus :: "u8 \<Rightarrow> can_frame option \<Rightarrow> 'h net_device \<Rightarrow> can_frame option \<times> 'h net_device" where
  "err_bus isrc F d =
     (if has_flag isrc IRQ_BEI
      then let d1 = d\<lparr>can_stats := (can_stats d)\<lparr>bus_error := bus_error (can_stats d) + 1\<rparr>\<rparr>;
               (ecc, d2) = rd SJA1000_ECC d1
           in (map_option (err_bus_frame ecc) F,
               if ecc AND ECC_DIR = 0
               then d2\<lparr>stats := (stats d2)\<lparr>tx_errors := tx_errors (stats d2) + 1\<rparr>\<rparr>
               else d2\<lparr>stats := (stats d2)\<lparr>rx_errors := rx_errors (stats d2) + 1\<rparr>\<rparr>)
      else (F, d))"

definition err_arbitration :: "u8 \<Rightarrow> can_frame option \<Rightarrow> 'h net_device \<Rightarrow> can_frame option \<times> 'h net_device" where
  "err_arbitration isrc F d =
     (if has_flag isrc IRQ_ALI
      then let (alc, d1) = rd SJA1000_ALC d
           in (map_option (\<lambda>cf. set_data 0 (alc AND 0x1F) (or_id CAN_ERR_LOSTARB cf)) F,
               d1\<lparr>can_stats := (can_stats d1)\<lparr>arbitration_lost := arbitration_lost (can_stats d1) + 1\<rparr>\<rparr>)
      else (F, d))"

text \<open>
  The state change at the end. Without a buffer the frame pointer is uninitialised and
  \<^verbatim>\<open>can_change_state\<close> writes through it.
\<close>

definition err_change_state ::
  "can_state \<Rightarrow> u8 \<Rightarrow> u8 \<Rightarrow> can_frame option \<Rightarrow> 'h net_device \<Rightarrow> (can_frame option \<times> 'h net_device) option" where
  "err_change_state s txerr rxerr F d =
     (if s = can_state d then Some (F, d)
      else case F of
             None \<Rightarrow> None
           | Some cf \<Rightarrow>
               let tx_state = (if rxerr \<le> txerr then s else CAN_STATE_ERROR_ACTIVE);
                   rx_state = (if txerr \<le> rxerr then s else CAN_STATE_ERROR_ACTIVE);
                   (cf', d1) = can_change_state cf tx_state rx_state d
               in Some (Some cf', if s = CAN_STATE_BUS_OFF then can_bus_off d1 else d1))"

text \<open>
  Everything between the allocation and \<^verbatim>\<open>netif_rx\<close>; \<open>F\<close> is the frame of the buffer, if
  there is one.
\<close>

definition err_collect ::
  "u8 \<Rightarrow> u8 \<Rightarrow> can_frame option \<Rightarrow> 'h net_device \<Rightarrow> (err_ret \<times> can_frame option \<times> 'h net_device) option" where
  "err_collect isrc status F d =
     (let (txerr, d2) = rd SJA1000_TXERR d;
          (rxerr, d3) = rd SJA1000_RXERR d2;
          (ret, F1, d4) = err_overrun isrc F d3;
          s1 = err_warning_state isrc status (can_state d);
          F2 = err_counters s1 txerr rxerr F1;
          (F3, d5) = err_bus isrc F2 d4;
          s2 = err_passive_state isrc s1;
          (F4, d6) = err_arbitration isrc F3 d5
      in do {
        (F5, d7) \<leftarrow> err_change_state s2 txerr rxerr F4 d6;
        Some (ret, F5, d7) })"

definition sja1000_err :: "u8 \<Rightarrow> u8 \<Rightarrow> 'h net_device \<Rightarrow> (err_ret \<times> 'h net_device) option" where
  "sja1000_err isrc status d =
     (let (r, d1) = alloc_can_err_skb d
      in do {
        (ret, F, d7) \<leftarrow> err_collect isrc status (map_option frame r) d1;
        case (r, F) of
          (Some skb, Some cf) \<Rightarrow> do {
            d8 \<leftarrow> netif_rx RX_FUEL (skb\<lparr>frame := cf\<rparr>) d7;
            Some (ret, d8) }
        | _ \<Rightarrow> Some (Err_nomem, d7) })"

section \<open>The handler\<close>

text \<open>
  The receive loop: \<open>True\<close> in the result is the jump to \<^verbatim>\<open>out\<close> for a chip that
  disappeared.
\<close>

partial_function (option) rx_loop :: "u8 \<Rightarrow> 'h net_device \<Rightarrow> (bool \<times> u8 \<times> 'h net_device) option" where
  "rx_loop status d =
     (if \<not> has_flag status SR_RBS then Some (False, status, d)
      else case sja1000_rx d of
             None \<Rightarrow> None
           | Some d1 \<Rightarrow>
               (case rd SJA1000_SR d1 of
                  (status', d2) \<Rightarrow>
                    if status' = 0xFF
                    then (case sja1000_is_absent d2 of
                            (absent, d3) \<Rightarrow>
                              if absent then Some (True, status', d3) else rx_loop status' d3)
                    else rx_loop status' d2))"

definition irq_tx_done :: "u8 \<Rightarrow> u8 \<Rightarrow> 'h net_device \<Rightarrow> 'h net_device option" where
  "irq_tx_done isrc status d =
     (if has_flag isrc IRQ_TI
      then do {
        d2 \<leftarrow> (if has_flag (ctrlmode d) CAN_CTRLMODE_ONE_SHOT \<and> \<not> has_flag status SR_TCS
               then can_free_echo_skb 0 (d\<lparr>stats := (stats d)\<lparr>tx_errors := tx_errors (stats d) + 1\<rparr>\<rparr>)
               else do {
                 (n, d1) \<leftarrow> can_get_echo_skb 0 d;
                 Some (d1\<lparr>stats := (stats d1)\<lparr>tx_bytes := tx_bytes (stats d1) + of_nat n,
                                             tx_packets := tx_packets (stats d1) + 1\<rparr>\<rparr>) });
        Some (netif_wake_queue d2) }
      else Some d)"

text \<open>
  One turn of the main loop for a non-zero interrupt source. \<open>Go_on\<close> continues,
  \<open>Leave b\<close> leaves it (by \<^verbatim>\<open>goto out\<close> or \<^verbatim>\<open>break\<close>), \<open>b\<close> saying that \<^verbatim>\<open>ret\<close> has become
  \<^verbatim>\<open>IRQ_WAKE_THREAD\<close>.
\<close>

datatype turn = Go_on | Leave bool

definition IRQ_ERRORS :: u8 where
  "IRQ_ERRORS = IRQ_DOI OR IRQ_EI OR IRQ_BEI OR IRQ_EPI OR IRQ_ALI"

definition irq_errors :: "u8 \<Rightarrow> u8 \<Rightarrow> 'h net_device \<Rightarrow> (turn \<times> 'h net_device) option" where
  "irq_errors isrc status d =
     (if has_flag isrc IRQ_ERRORS
      then do {
        (e, d1) \<leftarrow> sja1000_err isrc status d;
        Some (case e of Err_zero \<Rightarrow> Go_on | Err_wake_thread \<Rightarrow> Leave True | Err_nomem \<Rightarrow> Leave False, d1) }
      else Some (Go_on, d))"

definition irq_turn :: "u8 \<Rightarrow> 'h net_device \<Rightarrow> (turn \<times> 'h net_device) option" where
  "irq_turn isrc d =
     (let (status, d1) = rd SJA1000_SR d;
          (absent, d2) = (if status = 0xFF then sja1000_is_absent d1 else (False, d1))
      in if absent then Some (Leave False, d2)
         else do {
           d3 \<leftarrow> irq_tx_done isrc status d2;
           (gone, status', d4) \<leftarrow> (if has_flag isrc IRQ_RI then rx_loop status d3
                                   else Some (False, status, d3));
           if gone then Some (Leave False, d4) else irq_errors isrc status' d4 })"

text \<open>The main loop; \<open>k\<close> is the number of turns still allowed, \<open>n\<close> the turns completed.\<close>

fun irq_loop :: "nat \<Rightarrow> nat \<Rightarrow> 'h net_device \<Rightarrow> (nat \<times> bool \<times> 'h net_device) option" where
  "irq_loop 0 n d = Some (n, False, snd (rd SJA1000_IR d))"
| "irq_loop (Suc k) n d =
     (let (isrc, d1) = rd SJA1000_IR d in
      if isrc = 0 then Some (n, False, d1)
      else do {
        (t, d2) \<leftarrow> irq_turn isrc d1;
        (case t of Go_on \<Rightarrow> irq_loop k (Suc n) d2 | Leave wake \<Rightarrow> Some (n, wake, d2)) })"

definition sja1000_interrupt :: "'h net_device \<Rightarrow> (irqreturn \<times> 'h net_device) option" where
  "sja1000_interrupt d =
     (let d0 = (case pre_irq d of None \<Rightarrow> d | Some f \<Rightarrow> d\<lparr>hw := f (hw d)\<rparr>);
          (ier, d1) = rd SJA1000_IER d0;
          post = (\<lambda>d. case post_irq d of None \<Rightarrow> d | Some f \<Rightarrow> d\<lparr>hw := f (hw d)\<rparr>)
      in if ier = IRQ_OFF then Some (IRQ_NONE, post d1)
         else do {
           (n, wake, d2) \<leftarrow> irq_loop SJA1000_MAX_IRQ 0 d1;
           Some (if wake then IRQ_WAKE_THREAD else if n \<noteq> 0 then IRQ_HANDLED else IRQ_NONE, post d2) })"

definition sja1000_reset_interrupt :: "'h net_device \<Rightarrow> (irqreturn \<times> 'h net_device) option" where
  "sja1000_reset_interrupt d = do {
     d1 \<leftarrow> can_free_echo_skb 0 d;
     Some (IRQ_HANDLED, snd (sja1000_set_mode CAN_MODE_START d1)) }"

end
