(* ===== verification/Irq_Safety.thy ===== *)
theory Irq_Safety
  imports Sja1000_Irq
begin

unbundle bit_operations_syntax

text \<open>
  Proofs about the interrupt handler of \<^verbatim>\<open>sja1000/sja1000.c\<close>: it keeps the books of the
  block pool, what it does to the controller state, and the two ways it fails when the pool is
  used up.
\<close>

section \<open>The invariant of the handler\<close>

text \<open>
  \<open>irq_inv blocks rest d0 d\<close>: the pool is in order, the echo slot holds no error frame, and
  the settings are those of the device \<open>d0\<close> the handler was entered with.
\<close>

definition irq_inv :: "addr set \<Rightarrow> addr set \<Rightarrow> 'h net_device \<Rightarrow> 'h net_device \<Rightarrow> bool" where
  "irq_inv blocks rest d0 d \<longleftrightarrow> owns blocks rest d \<and> echo_clean d \<and> same_config d0 d"

lemma irq_inv_update [simp]:
  "irq_inv blocks rest d0 (d\<lparr>hw := h\<rparr>) = irq_inv blocks rest d0 d"
  "irq_inv blocks rest d0 (d\<lparr>stats := t\<rparr>) = irq_inv blocks rest d0 d"
  "irq_inv blocks rest d0 (d\<lparr>can_stats := u\<rparr>) = irq_inv blocks rest d0 d"
  "irq_inv blocks rest d0 (d\<lparr>can_state := s\<rparr>) = irq_inv blocks rest d0 d"
  "irq_inv blocks rest d0 (netif_wake_queue d) = irq_inv blocks rest d0 d"
  "irq_inv blocks rest d0 (can_bus_off d) = irq_inv blocks rest d0 d"
  by (simp_all add: irq_inv_def echo_clean_def)

lemma irq_inv_hw_only: "hw_only d d' \<Longrightarrow> irq_inv blocks rest d0 d' = irq_inv blocks rest d0 d"
  by (auto simp: hw_only_def)

lemma irq_inv_rd: "rd r d = (v, d') \<Longrightarrow> irq_inv blocks rest d0 d' = irq_inv blocks rest d0 d"
  by (rule irq_inv_hw_only [OF hw_only_rd])

lemma irq_inv_cmdreg [simp]:
  "irq_inv blocks rest d0 (sja1000_write_cmdreg v d) = irq_inv blocks rest d0 d"
  by (rule irq_inv_hw_only) simp

lemma irq_inv_netif_rx:
  assumes i: "irq_inv blocks rest d0 d" and live: "live_skb rest skb" and "\<not> is_echo skb"
  obtains d' where "netif_rx RX_FUEL skb d = Some d'" "irq_inv blocks (rest - skb_blocks skb) d0 d'"
proof -
  have o: "owns blocks rest d" using i by (simp add: irq_inv_def)
  obtain d' where d': "netif_rx RX_FUEL skb d = Some d'" "same_config d d'" "echo_kept d d'"
    "owns blocks (rest - skb_blocks skb) d'"
    by (rule netif_rx_owns [OF o live skbs_left_RX_FUEL]) (use assms(3) in auto)
  then have "irq_inv blocks (rest - skb_blocks skb) d0 d'"
    using i by (auto simp: irq_inv_def intro: same_config_trans echo_clean_kept)
  then show ?thesis using that d'(1) by blast
qed

section \<open>Reception\<close>

lemma rx_id_hw_only: "rx_id fi d = (i, d') \<Longrightarrow> hw_only d d'"
  by (auto simp: rx_id_def Let_def split: if_splits prod.splits
      elim!: hw_only_rd_trans [rotated] intro: hw_only_rd)

lemma rx_bytes_hw_only: "rx_bytes_loop n dreg d = (bs, d') \<Longrightarrow> hw_only d d' \<and> length bs = n"
proof (induction n arbitrary: dreg d bs d')
  case (Suc n)
  then show ?case
    by (auto simp: Let_def split: prod.splits dest!: hw_only_rd intro: hw_only_trans)
qed simp

lemma irq_inv_rx_frame:
  assumes "rx_frame cf d = (cf', d')"
  shows "irq_inv blocks rest d0 d' = irq_inv blocks rest d0 d"
proof -
  obtain fi d1 where 1: "rd SJA1000_FI d = (fi, d1)" by fastforce
  obtain i d2 where 2: "rx_id fi d1 = (i, d2)" by fastforce
  have "irq_inv blocks rest d0 d2 = irq_inv blocks rest d0 d"
    using irq_inv_rd [OF 1] irq_inv_hw_only [OF rx_id_hw_only [OF 2]] by simp
  moreover obtain bs d3 where 3: "rx_bytes_loop (unat (cf_len (can_frame_set_cc_len cf (fi AND 0x0F) (ctrlmode d2))))
      (if has_flag fi SJA1000_FI_FF then SJA1000_EFF_BUF else SJA1000_SFF_BUF) d2 = (bs, d3)"
    by fastforce
  have "irq_inv blocks rest d0 d3 = irq_inv blocks rest d0 d2"
    by (rule irq_inv_hw_only [OF rx_bytes_hw_only [OF 3, THEN conjunct1]])
  ultimately show ?thesis
    using assms 1 2 3 by (cases "has_flag fi SJA1000_FI_RTR") (auto simp: rx_frame_def Let_def)
qed

text \<open>
  Allocation inside the handler: the new buffer and the invariant with its blocks added, or
  no buffer and nothing changed.
\<close>

lemma irq_inv_alloc:
  assumes i: "irq_inv blocks rest d0 d" and a: "alloc_can_skb d = (r, d')"
  shows "case r of
      None \<Rightarrow> d' = d \<and> rest \<union> echo_blocks d = blocks
    | Some skb \<Rightarrow> irq_inv blocks (rest \<union> skb_blocks skb) d0 d' \<and> live_skb (rest \<union> skb_blocks skb) skb \<and>
        rest \<union> skb_blocks skb - skb_blocks skb = rest \<and> \<not> is_echo skb \<and> frame skb = zero_frame \<and>
        d' = d\<lparr>pool := pool d'\<rparr>"
proof -
  have o: "owns blocks rest d" using i by (simp add: irq_inv_def)
  note al = owns_alloc [OF o a]
  show ?thesis
  proof (cases r)
    case (Some skb)
    then have d': "d' = d\<lparr>pool := pool d'\<rparr>" using al by simp
    have "same_config d0 d'" "echo_clean d'"
      by (subst d', use i in \<open>simp add: irq_inv_def echo_clean_def\<close>)+
    then show ?thesis using al Some by (auto simp: irq_inv_def)
  qed (use al in simp)
qed

lemma irq_inv_sja1000_rx:
  assumes i: "irq_inv blocks rest d0 d"
  obtains d' where "sja1000_rx d = Some d'" "irq_inv blocks rest d0 d'"
proof -
  obtain r d1 where a: "alloc_can_skb d = (r, d1)" by fastforce
  note al = irq_inv_alloc [OF i a]
  show ?thesis
  proof (cases r)
    case None
    then show ?thesis using that al a i by (simp add: sja1000_rx_def)
  next
    case (Some skb)
    obtain cf d2 where f: "rx_frame (frame skb) d1 = (cf, d2)" by fastforce
    let ?d3 = "sja1000_write_cmdreg CMD_RRB (count_rx_packet d2)" and ?skb = "skb\<lparr>frame := cf\<rparr>"
    have "irq_inv blocks (rest \<union> skb_blocks skb) d0 ?d3"
      using al Some irq_inv_rx_frame [OF f] by (simp add: count_rx_packet_def)
    then obtain d4 where "netif_rx RX_FUEL ?skb ?d3 = Some d4"
      "irq_inv blocks (rest \<union> skb_blocks skb - skb_blocks ?skb) d0 d4"
      by (rule irq_inv_netif_rx [where skb = ?skb]) (use al Some in auto)
    then show ?thesis
      using that al a Some f by (simp add: sja1000_rx_def)
  qed
qed

section \<open>Completed transmissions\<close>

lemma irq_inv_tx_done:
  assumes i: "irq_inv blocks rest d0 d"
  obtains d' where "irq_tx_done isrc status d = Some d'" "irq_inv blocks rest d0 d'"
proof -
  let ?e = "d\<lparr>stats := (stats d)\<lparr>tx_errors := tx_errors (stats d) + 1\<rparr>\<rparr>"
  have oe: "owns blocks rest ?e" and o: "owns blocks rest d"
    and clean: "\<forall>skb. Some skb \<in> set (echo_skb d) \<longrightarrow> \<not> has_flag (can_id (frame skb)) CAN_ERR_FLAG"
    using i by (simp_all add: irq_inv_def echo_clean_def)
  obtain p' where p': "can_free_echo_skb 0 ?e = Some (?e\<lparr>pool := p', echo_skb := [None]\<rparr>)"
    "owns blocks rest (?e\<lparr>pool := p', echo_skb := [None]\<rparr>)"
    by (rule owns_free_echo [OF oe])
  have ip: "irq_inv blocks rest d0 (?e\<lparr>pool := p', echo_skb := [None]\<rparr>)"
    using i p'(2) by (simp add: irq_inv_def echo_clean_def)
  obtain n d1 where g: "can_get_echo_skb 0 d = Some (n, d1)" "owns blocks rest d1" "same_config d d1"
    "echo_kept d d1"
    by (rule can_get_echo_owns [OF o clean])
  then have ig: "irq_inv blocks rest d0 d1"
    using i by (auto simp: irq_inv_def intro: same_config_trans echo_clean_kept)
  show ?thesis
  proof (cases "has_flag isrc IRQ_TI")
    case True
    then show ?thesis
      using that p'(1) ip g(1) ig
      by (cases "has_flag (ctrlmode d) CAN_CTRLMODE_ONE_SHOT \<and> \<not> has_flag status SR_TCS")
        (auto simp: irq_tx_done_def)
  qed (use that i in \<open>simp add: irq_tx_done_def\<close>)
qed

section \<open>Errors\<close>

text \<open>
  \<open>err_effect d d'\<close>: what collecting an error may change before the state is updated: the
  chip, the packet counters and two of the controller's counters.
\<close>

definition err_effect :: "'h net_device \<Rightarrow> 'h net_device \<Rightarrow> bool" where
  "err_effect d d' \<longleftrightarrow>
     (\<exists>h t x y. d' = d\<lparr>hw := h, stats := t, can_stats := (can_stats d)\<lparr>bus_error := x, arbitration_lost := y\<rparr>\<rparr>)"

lemma err_effectI:
  "d' = d\<lparr>hw := h, stats := t, can_stats := (can_stats d)\<lparr>bus_error := x, arbitration_lost := y\<rparr>\<rparr> \<Longrightarrow>
   err_effect d d'"
  unfolding err_effect_def by blast

lemma err_effectE:
  "err_effect d d' \<Longrightarrow>
   (\<And>h t x y. d' = d\<lparr>hw := h, stats := t, can_stats := (can_stats d)\<lparr>bus_error := x, arbitration_lost := y\<rparr>\<rparr> \<Longrightarrow> P) \<Longrightarrow> P"
  unfolding err_effect_def by blast

lemma err_effect_trans: "err_effect d d1 \<Longrightarrow> err_effect d1 d2 \<Longrightarrow> err_effect d d2"
  by (elim err_effectE) (rule err_effectI, simp)

lemma err_effect_hw [simp]: "err_effect d (d\<lparr>hw := h\<rparr>)"
  by (rule err_effectI [where t = "stats d" and x = "bus_error (can_stats d)"
        and y = "arbitration_lost (can_stats d)"]) simp

lemma err_effect_refl [simp]: "err_effect d d"
  using err_effect_hw [of d "hw d"] by simp

lemma err_effect_stats [simp]: "err_effect d (d\<lparr>stats := t\<rparr>)"
  by (rule err_effectI [where h = "hw d" and x = "bus_error (can_stats d)"
        and y = "arbitration_lost (can_stats d)"]) simp

lemma err_effect_bus_error [simp]: "err_effect d (d\<lparr>can_stats := (can_stats d)\<lparr>bus_error := x\<rparr>\<rparr>)"
  by (rule err_effectI [where h = "hw d" and t = "stats d" and y = "arbitration_lost (can_stats d)"]) simp

lemma err_effect_arb_lost [simp]: "err_effect d (d\<lparr>can_stats := (can_stats d)\<lparr>arbitration_lost := y\<rparr>\<rparr>)"
  by (rule err_effectI [where h = "hw d" and t = "stats d" and x = "bus_error (can_stats d)"]) simp

lemma err_effect_hw_only: "hw_only d d' \<Longrightarrow> err_effect d d'"
  by (auto simp: hw_only_def)

lemmas err_effect_rd = err_effect_hw_only [OF hw_only_rd]

definition err_frame :: "can_frame option \<Rightarrow> bool" where
  "err_frame F \<longleftrightarrow> (case F of None \<Rightarrow> True | Some cf \<Rightarrow> has_flag (can_id cf) CAN_ERR_FLAG)"

lemma err_frame_simps [simp]:
  "err_frame None" "err_frame (Some cf) = has_flag (can_id cf) CAN_ERR_FLAG"
  by (simp_all add: err_frame_def)

lemma frame_data_id [simp]:
  "can_id (set_data i v cf) = can_id cf" "can_id (or_data i v cf) = can_id cf"
  "can_id (or_id w cf) = can_id cf OR w" "can_id (err_bus_frame ecc cf) = can_id cf OR CAN_ERR_PROT OR CAN_ERR_BUSERROR"
  by (simp_all add: set_data_def or_data_def or_id_def err_bus_frame_def Let_def ac_simps)

lemma has_flag_sup:
  assumes "has_flag v f" and "w AND v = v"
  shows "has_flag w f"
proof
  assume z: "w AND f = 0"
  have "v AND f = v AND (w AND f)"
    by (subst assms(2) [symmetric]) (simp add: ac_simps)
  then show False using z assms(1) by simp
qed

lemma err_effect_overrun:
  assumes "err_overrun isrc F d = (ret, F', d')"
  shows "err_effect d d' \<and> (F' = None \<longleftrightarrow> F = None) \<and> (err_frame F \<longrightarrow> err_frame F')"
proof -
  let ?t = "(stats d)\<lparr>rx_over_errors := rx_over_errors (stats d) + 1, rx_errors := rx_errors (stats d) + 1\<rparr>"
  have "err_effect d (sja1000_write_cmdreg CMD_CDO (d\<lparr>stats := ?t\<rparr>))"
    by (rule err_effect_trans [OF err_effect_stats err_effect_hw_only [OF hw_only_cmdreg]])
  then show ?thesis
    using assms by (cases F) (auto simp: err_overrun_def Let_def has_flag_or split: if_splits)
qed

lemma err_effect_bus:
  assumes "err_bus isrc F d = (F', d')"
  shows "err_effect d d' \<and> (F' = None \<longleftrightarrow> F = None) \<and> (err_frame F \<longrightarrow> err_frame F')"
proof -
  let ?d1 = "d\<lparr>can_stats := (can_stats d)\<lparr>bus_error := bus_error (can_stats d) + 1\<rparr>\<rparr>"
  obtain ecc d2 where r: "rd SJA1000_ECC ?d1 = (ecc, d2)" by fastforce
  have "err_effect d d2"
    by (rule err_effect_trans [OF err_effect_bus_error err_effect_rd [OF r]])
  then show ?thesis
    using assms r
    by (cases F) (auto simp: err_bus_def Let_def has_flag_or split: if_splits intro: err_effect_trans)
qed

lemma err_effect_arbitration:
  assumes "err_arbitration isrc F d = (F', d')"
  shows "err_effect d d' \<and> (F' = None \<longleftrightarrow> F = None) \<and> (err_frame F \<longrightarrow> err_frame F')"
proof -
  obtain alc d1 where r: "rd SJA1000_ALC d = (alc, d1)" by fastforce
  show ?thesis
    using assms r err_effect_rd [OF r]
    by (cases F) (auto simp: err_arbitration_def has_flag_or split: if_splits intro: err_effect_trans)
qed

text \<open>The state the chip reports, from the interrupt source, the status and the old state.\<close>

definition err_next_state :: "u8 \<Rightarrow> u8 \<Rightarrow> can_state \<Rightarrow> can_state" where
  "err_next_state isrc status s = err_passive_state isrc (err_warning_state isrc status s)"

lemma err_collect_split:
  obtains ret F4 d6 txerr rxerr where
    "err_collect isrc status F d =
       do { (F5, d7) \<leftarrow> err_change_state (err_next_state isrc status (can_state d)) txerr rxerr F4 d6;
            Some (ret, F5, d7) }"
    "err_effect d d6" "F4 = None \<longleftrightarrow> F = None" "err_frame F \<longrightarrow> err_frame F4"
proof -
  obtain txerr d2 where 1: "rd SJA1000_TXERR d = (txerr, d2)" by fastforce
  obtain rxerr d3 where 2: "rd SJA1000_RXERR d2 = (rxerr, d3)" by fastforce
  obtain ret F1 d4 where 3: "err_overrun isrc F d3 = (ret, F1, d4)" by (metis prod_cases3)
  let ?s = "err_warning_state isrc status (can_state d)"
  obtain F3 d5 where 4: "err_bus isrc (err_counters ?s txerr rxerr F1) d4 = (F3, d5)" by fastforce
  obtain F4 d6 where 5: "err_arbitration isrc F3 d5 = (F4, d6)" by fastforce
  have "err_effect d d6"
    using err_effect_rd [OF 1] err_effect_rd [OF 2] err_effect_overrun [OF 3] err_effect_bus [OF 4]
      err_effect_arbitration [OF 5]
    by (blast intro: err_effect_trans)
  moreover have "F4 = None \<longleftrightarrow> F = None"
    using err_effect_overrun [OF 3] err_effect_bus [OF 4] err_effect_arbitration [OF 5]
    by (simp add: err_counters_def split: if_splits)
  moreover have "err_frame F1 \<Longrightarrow> err_frame (err_counters ?s txerr rxerr F1)"
    by (cases F1) (auto simp: err_counters_def has_flag_or)
  then have "err_frame F \<longrightarrow> err_frame F4"
    using err_effect_overrun [OF 3] err_effect_bus [OF 4] err_effect_arbitration [OF 5] by blast
  ultimately show ?thesis
    using that 1 2 3 4 5 by (simp add: err_collect_def err_next_state_def)
qed

lemma err_effect_keeps:
  assumes "err_effect d d'"
  shows "irq_inv blocks rest d0 d' = irq_inv blocks rest d0 d" "can_state d' = can_state d"
    "restart_ms d' = restart_ms d" "restart_pending d' = restart_pending d" "dev_state d' = dev_state d"
    "bus_off (can_stats d') = bus_off (can_stats d)" "pool d' = pool d"
    "error_warning (can_stats d') = error_warning (can_stats d)"
    "error_passive (can_stats d') = error_passive (can_stats d)"
    "optR_error_count d' = optR_error_count d" "echo_skb d' = echo_skb d"
  using assms by (auto elim: err_effectE)

text \<open>The device after a state change.\<close>

definition state_changed :: "can_state \<Rightarrow> 'h net_device \<Rightarrow> 'h net_device" where
  "state_changed s d =
     (let e = (can_update_state_error_stats s d)\<lparr>can_state := s\<rparr>
      in if s = CAN_STATE_BUS_OFF then can_bus_off e else e)"

lemma ERROR_ACTIVE_least [simp]: "CAN_STATE_ERROR_ACTIVE \<le> s"
  by (simp add: less_eq_can_state_def)

lemma err_change_state_Some:
  assumes "s \<noteq> can_state d"
  shows "\<exists>cf'. err_change_state s txerr rxerr (Some cf) d = Some (Some cf', state_changed s d) \<and>
    can_id cf' AND can_id cf = can_id cf"
proof -
  let ?tx = "if rxerr \<le> txerr then s else CAN_STATE_ERROR_ACTIVE"
  let ?rx = "if txerr \<le> rxerr then s else CAN_STATE_ERROR_ACTIVE"
  have m: "max ?tx ?rx = s"
    by (auto simp: max_def intro: antisym)
  have "\<exists>cf'. can_change_state cf ?tx ?rx d = (cf', (can_update_state_error_stats s d)\<lparr>can_state := s\<rparr>) \<and>
    can_id cf' AND can_id cf = can_id cf"
    unfolding can_change_state_def m using assms by (auto simp: or_id_def or_data_def Let_def)
  then show ?thesis
    using assms by (auto simp: err_change_state_def state_changed_def Let_def)
qed

lemma state_changed_simps:
  "pool (state_changed s d) = pool d" "can_state (state_changed s d) = s"
  "s = CAN_STATE_BUS_OFF \<Longrightarrow> \<not> netif_carrier_ok (state_changed s d)"
  "s = CAN_STATE_BUS_OFF \<Longrightarrow> restart_ms d \<noteq> 0 \<Longrightarrow> restart_pending (state_changed s d) = Some (restart_ms d)"
  "bus_off (can_stats (state_changed s d)) =
     bus_off (can_stats d) + (if can_state d < s \<and> s = CAN_STATE_BUS_OFF then 1 else 0)"
  "error_passive (can_stats (state_changed s d)) =
     error_passive (can_stats d) + (if can_state d < s \<and> s = CAN_STATE_ERROR_PASSIVE then 1 else 0)"
  "error_warning (can_stats (state_changed s d)) =
     error_warning (can_stats d) + (if can_state d < s \<and> s = CAN_STATE_ERROR_WARNING then 1 else 0)"
  by (auto simp: state_changed_def Let_def can_update_state_error_stats_def can_bus_off_def
      netif_carrier_off_def netif_carrier_ok_def bit_simps split: can_state.splits)

lemma netif_carrier_ok_pool [simp]: "netif_carrier_ok (d\<lparr>pool := p\<rparr>) = netif_carrier_ok d"
  by (simp add: netif_carrier_ok_def)

lemma irq_inv_state_changed: "irq_inv blocks rest d0 (state_changed s d) = irq_inv blocks rest d0 d"
  by (simp add: state_changed_def Let_def can_update_state_error_stats_def split: can_state.splits)

text \<open>Collecting an error with and without a frame.\<close>

lemma err_collect_Some:
  assumes "has_flag (can_id cf) CAN_ERR_FLAG"
  obtains ret cf' e where
    "err_collect isrc status (Some cf) d =
       Some (ret, Some cf', if err_next_state isrc status (can_state d) = can_state d then e
                            else state_changed (err_next_state isrc status (can_state d)) e)"
    "err_effect d e" "has_flag (can_id cf') CAN_ERR_FLAG"
proof -
  let ?s = "err_next_state isrc status (can_state d)"
  obtain ret F4 d6 txerr rxerr where c:
    "err_collect isrc status (Some cf) d =
       do { (F5, d7) \<leftarrow> err_change_state ?s txerr rxerr F4 d6; Some (ret, F5, d7) }"
    "err_effect d d6" "F4 = None \<longleftrightarrow> Some cf = None" "err_frame (Some cf) \<longrightarrow> err_frame F4"
    by (rule err_collect_split [where F = "Some cf" and d = d and isrc = isrc and status = status]) blast
  obtain cf4 where F4: "F4 = Some cf4" using c(3) by auto
  have st: "can_state d6 = can_state d" using err_effect_keeps(2) [OF c(2)] .
  have fl: "has_flag (can_id cf4) CAN_ERR_FLAG" using c(4) F4 assms by simp
  show ?thesis
  proof (cases "?s = can_state d")
    case True
    then show ?thesis using that [of ret cf4 d6] c(1,2) F4 st fl by (simp add: err_change_state_def)
  next
    case False
    then obtain cf' where e: "err_change_state ?s txerr rxerr (Some cf4) d6 = Some (Some cf', state_changed ?s d6)"
      "can_id cf' AND can_id cf4 = can_id cf4"
      using err_change_state_Some [of ?s d6 txerr rxerr cf4] st by auto
    have "has_flag (can_id cf') CAN_ERR_FLAG"
      by (rule has_flag_sup [OF fl e(2)])
    then show ?thesis using that [of ret cf' d6] c(1,2) F4 False e(1) by simp
  qed
qed

lemma err_collect_None:
  obtains (same) ret e where "err_collect isrc status None d = Some (ret, None, e)" "err_effect d e"
      "err_next_state isrc status (can_state d) = can_state d"
  | (wild) "err_collect isrc status None d = None"
      "err_next_state isrc status (can_state d) \<noteq> can_state d"
proof -
  let ?s = "err_next_state isrc status (can_state d)"
  obtain ret F4 d6 txerr rxerr where c:
    "err_collect isrc status None d =
       do { (F5, d7) \<leftarrow> err_change_state ?s txerr rxerr F4 d6; Some (ret, F5, d7) }"
    "err_effect d d6" "F4 = None \<longleftrightarrow> None = (None :: can_frame option)"
    by (rule err_collect_split [where F = None and d = d and isrc = isrc and status = status]) blast
  then show ?thesis
    using that err_effect_keeps(2) [OF c(2)] by (cases "?s = can_state d") (auto simp: err_change_state_def)
qed

lemma irq_inv_alloc_err:
  assumes i: "irq_inv blocks rest d0 d" and a: "alloc_can_err_skb d = (r, d')"
  shows "case r of
      None \<Rightarrow> d' = d \<and> rest \<union> echo_blocks d = blocks
    | Some skb \<Rightarrow> irq_inv blocks (rest \<union> skb_blocks skb) d0 d' \<and> live_skb (rest \<union> skb_blocks skb) skb \<and>
        rest \<union> skb_blocks skb - skb_blocks skb = rest \<and> \<not> is_echo skb \<and>
        has_flag (can_id (frame skb)) CAN_ERR_FLAG \<and> d' = d\<lparr>pool := pool d'\<rparr>"
proof -
  obtain r0 d1 where a0: "alloc_can_skb d = (r0, d1)" by fastforce
  note al = irq_inv_alloc [OF i a0]
  show ?thesis
  proof (cases r0)
    case None
    then show ?thesis using al a a0 by (simp add: alloc_can_err_skb_def)
  next
    case (Some skb)
    have "CAN_ERR_FLAG AND CAN_ERR_FLAG \<noteq> 0" by (simp add: flag_defs)
    then show ?thesis
      using al Some a a0 by (auto simp: alloc_can_err_skb_def)
  qed
qed

text \<open>
  \<^verbatim>\<open>sja1000_err\<close> with a buffer: what it hands to \<^verbatim>\<open>netif_rx\<close> and the device then.
\<close>

lemma sja1000_err_buffer:
  assumes i: "irq_inv blocks rest d0 d" and room: "rest \<union> echo_blocks d \<noteq> blocks"
  obtains ret skb d7 e where
    "sja1000_err isrc status d = do { d8 \<leftarrow> netif_rx RX_FUEL skb d7; Some (ret, d8) }"
    "irq_inv blocks (rest \<union> skb_blocks skb) d0 d7" "live_skb (rest \<union> skb_blocks skb) skb"
    "rest \<union> skb_blocks skb - skb_blocks skb = rest" "\<not> is_echo skb"
    "has_flag (can_id (frame skb)) CAN_ERR_FLAG" "err_effect (d\<lparr>pool := pool d7\<rparr>) e"
    "d7 = (if err_next_state isrc status (can_state d) = can_state d then e
           else state_changed (err_next_state isrc status (can_state d)) e)"
proof -
  obtain r d1 where a: "alloc_can_err_skb d = (r, d1)" by fastforce
  note al = irq_inv_alloc_err [OF i a]
  obtain skb where r: "r = Some skb" using al room by (cases r) auto
  have skb: "irq_inv blocks (rest \<union> skb_blocks skb) d0 d1" "live_skb (rest \<union> skb_blocks skb) skb"
    "rest \<union> skb_blocks skb - skb_blocks skb = rest" "\<not> is_echo skb"
    "has_flag (can_id (frame skb)) CAN_ERR_FLAG" and d1: "d1 = d\<lparr>pool := pool d1\<rparr>"
    using al unfolding r by simp_all
  have st: "can_state d1 = can_state d" by (subst d1) simp
  obtain ret cf' e where c:
    "err_collect isrc status (Some (frame skb)) d1 =
       Some (ret, Some cf', if err_next_state isrc status (can_state d1) = can_state d1 then e
                            else state_changed (err_next_state isrc status (can_state d1)) e)"
    "err_effect d1 e" "has_flag (can_id cf') CAN_ERR_FLAG"
    by (rule err_collect_Some [where cf = "frame skb" and d = d1 and isrc = isrc and status = status])
      (use skb(5) in auto)
  let ?d7 = "if err_next_state isrc status (can_state d) = can_state d then e
             else state_changed (err_next_state isrc status (can_state d)) e"
  have pool: "pool ?d7 = pool d1"
    using err_effect_keeps(7) [OF c(2)] by (simp add: state_changed_simps)
  show ?thesis
  proof (rule that [of "skb\<lparr>frame := cf'\<rparr>" ?d7 ret e])
    show "sja1000_err isrc status d =
        do { d8 \<leftarrow> netif_rx RX_FUEL (skb\<lparr>frame := cf'\<rparr>) ?d7; Some (ret, d8) }"
      using a r c(1) by (simp add: sja1000_err_def st)
    show "irq_inv blocks (rest \<union> skb_blocks (skb\<lparr>frame := cf'\<rparr>)) d0 ?d7"
      using skb(1) err_effect_keeps(1) [OF c(2)] by (simp add: irq_inv_state_changed)
    show "err_effect (d\<lparr>pool := pool ?d7\<rparr>) e"
      unfolding pool d1 [symmetric] by (rule c(2))
  qed (use skb c(3) in simp_all)
qed

text \<open>
  The state by cases: no error interrupt leaves it alone, the warning interrupt alone takes it from
  the bus and error bits of the status, and the passive interrupt toggles.
\<close>

lemma err_next_state_cases:
  fixes isrc status :: u8 and old :: can_state
  defines "s \<equiv> err_next_state isrc status old"
  shows "\<not> has_flag isrc IRQ_EI \<Longrightarrow> \<not> has_flag isrc IRQ_EPI \<Longrightarrow> s = old"
    and "has_flag isrc IRQ_EI \<Longrightarrow> \<not> has_flag isrc IRQ_EPI \<Longrightarrow> has_flag status SR_BS \<Longrightarrow> s = CAN_STATE_BUS_OFF"
    and "has_flag isrc IRQ_EI \<Longrightarrow> \<not> has_flag isrc IRQ_EPI \<Longrightarrow> \<not> has_flag status SR_BS \<Longrightarrow>
      has_flag status SR_ES \<Longrightarrow> s = CAN_STATE_ERROR_WARNING"
    and "has_flag isrc IRQ_EI \<Longrightarrow> \<not> has_flag isrc IRQ_EPI \<Longrightarrow> \<not> has_flag status SR_BS \<Longrightarrow>
      \<not> has_flag status SR_ES \<Longrightarrow> s = CAN_STATE_ERROR_ACTIVE"
    and "has_flag isrc IRQ_EPI \<Longrightarrow> \<not> has_flag isrc IRQ_EI \<Longrightarrow> old = CAN_STATE_ERROR_PASSIVE \<Longrightarrow>
      s = CAN_STATE_ERROR_WARNING"
    and "has_flag isrc IRQ_EPI \<Longrightarrow> has_flag isrc IRQ_EI \<or> old \<noteq> CAN_STATE_ERROR_PASSIVE \<Longrightarrow>
      s = CAN_STATE_ERROR_PASSIVE"
  by (auto simp: s_def err_next_state_def err_warning_state_def err_passive_state_def)

text \<open>
  C16: the controller state follows the chip. Every error interrupt, with any source and status,
  is taken by \<^verbatim>\<open>sja1000_err\<close> when a buffer is free, the echo slot holds no error frame and no
  restart after a number of errors is configured (option \<^verbatim>\<open>-R\<close>). An error warning
  interrupt alone takes the state from the status: bus-off when the bus bit is set, warning
  when the error bit is set, active when neither is. An error passive interrupt alone
  leaves error passive for warning, and enters it from any other state; both together enter
  it, whatever the status says; without either the state stays. Each of the three counters goes
  up by one exactly when its state is reached from below; on the way into bus-off the carrier
  is off and the restart is armed if a delay is configured; the buffer of the error frame is
  back in the pool.
\<close>

theorem sja1000_err_state:
  assumes "owns blocks rest d" and "echo_clean d" and "rest \<union> echo_blocks d \<noteq> blocks"
    and "optR_error_count d = 0"
  shows "\<exists>ret d' s. sja1000_err isrc status d = Some (ret, d') \<and> owns blocks rest d' \<and> s = can_state d' \<and>
    (\<not> has_flag isrc IRQ_EI \<and> \<not> has_flag isrc IRQ_EPI \<longrightarrow> s = can_state d) \<and>
    (has_flag isrc IRQ_EI \<and> \<not> has_flag isrc IRQ_EPI \<longrightarrow>
       (has_flag status SR_BS \<longrightarrow> s = CAN_STATE_BUS_OFF) \<and>
       (\<not> has_flag status SR_BS \<and> has_flag status SR_ES \<longrightarrow> s = CAN_STATE_ERROR_WARNING) \<and>
       (\<not> has_flag status SR_BS \<and> \<not> has_flag status SR_ES \<longrightarrow> s = CAN_STATE_ERROR_ACTIVE)) \<and>
    (has_flag isrc IRQ_EPI \<and> \<not> has_flag isrc IRQ_EI \<and> can_state d = CAN_STATE_ERROR_PASSIVE \<longrightarrow>
       s = CAN_STATE_ERROR_WARNING) \<and>
    (has_flag isrc IRQ_EPI \<and> (has_flag isrc IRQ_EI \<or> can_state d \<noteq> CAN_STATE_ERROR_PASSIVE) \<longrightarrow>
       s = CAN_STATE_ERROR_PASSIVE) \<and>
    (s = CAN_STATE_BUS_OFF \<and> can_state d \<noteq> CAN_STATE_BUS_OFF \<longrightarrow>
       \<not> netif_carrier_ok d' \<and> (restart_ms d \<noteq> 0 \<longrightarrow> restart_pending d' = Some (restart_ms d))) \<and>
    bus_off (can_stats d') =
      bus_off (can_stats d) + (if can_state d < s \<and> s = CAN_STATE_BUS_OFF then 1 else 0) \<and>
    error_passive (can_stats d') =
      error_passive (can_stats d) + (if can_state d < s \<and> s = CAN_STATE_ERROR_PASSIVE then 1 else 0) \<and>
    error_warning (can_stats d') =
      error_warning (can_stats d) + (if can_state d < s \<and> s = CAN_STATE_ERROR_WARNING then 1 else 0)"
proof -
  define s where "s = err_next_state isrc status (can_state d)"
  have i: "irq_inv blocks rest d d" using assms(1,2) by (simp add: irq_inv_def)
  obtain ret skb d7 e where b:
    "sja1000_err isrc status d = do { d8 \<leftarrow> netif_rx RX_FUEL skb d7; Some (ret, d8) }"
    "irq_inv blocks (rest \<union> skb_blocks skb) d d7" "live_skb (rest \<union> skb_blocks skb) skb"
    "rest \<union> skb_blocks skb - skb_blocks skb = rest" "\<not> is_echo skb"
    "has_flag (can_id (frame skb)) CAN_ERR_FLAG" "err_effect (d\<lparr>pool := pool d7\<rparr>) e"
    "d7 = (if s = can_state d then e else state_changed s e)"
    unfolding s_def by (rule sja1000_err_buffer [OF i assms(3)])
  have o: "owns blocks (rest \<union> skb_blocks skb) d7" using b(2) by (simp add: irq_inv_def)
  obtain p' where p': "kfree_skb skb d7 = Some (d7\<lparr>pool := p'\<rparr>)"
    "owns blocks (rest \<union> skb_blocks skb - skb_blocks skb) (d7\<lparr>pool := p'\<rparr>)"
    by (rule owns_kfree [OF o b(3)])
  have R: "optR_error_count d7 = 0" using b(2) assms(4) by (simp add: irq_inv_def same_config_def)
  have rx: "netif_rx RX_FUEL skb d7 = Some (d7\<lparr>pool := p'\<rparr>)"
    using b(6) R p'(1) by (simp add: RX_FUEL_def numeral_eq_Suc restart_trigger_def)
  note k = err_effect_keeps(2-6,8,9) [OF b(7), simplified]
  have run: "sja1000_err isrc status d = Some (ret, d7\<lparr>pool := p'\<rparr>)" using b(1) rx by simp
  have s: "can_state (d7\<lparr>pool := p'\<rparr>) = s"
    using k unfolding b(8) by (cases "s = can_state d") (simp_all add: state_changed_simps)
  note c = err_next_state_cases [where isrc = isrc and status = status and old = "can_state d", folded s_def]
  show ?thesis
    by (rule exI [of _ ret], rule exI [of _ "d7\<lparr>pool := p'\<rparr>"], rule exI [of _ s],
        intro conjI impI, rule run)
      (use p'(2) b(4) k s c in \<open>auto simp: b(8) state_changed_simps\<close>)
qed

theorem sja1000_err_state_witness:
  "\<exists>ret d'. sja1000_err IRQ_EI SR_BS (vcan_dev\<lparr>restart_ms := 100, can_state := CAN_STATE_ERROR_ACTIVE\<rparr>) = Some (ret, d') \<and>
     can_state d' = CAN_STATE_BUS_OFF \<and> \<not> netif_carrier_ok d' \<and> restart_pending d' = Some 100 \<and>
     bus_off (can_stats d') = 1"
proof -
  let ?d = "vcan_dev\<lparr>restart_ms := 100, can_state := CAN_STATE_ERROR_ACTIVE\<rparr>"
  have o: "owns {..<256} {} ?d" using vcan_dev_owns by simp
  have e: "echo_clean ?d" "optR_error_count ?d = 0" "bus_off (can_stats ?d) = 0"
    by (simp_all add: echo_clean_def vcan_dev_def)
  have "echo_blocks ?d = {}" by (simp add: echo_blocks_def vcan_dev_def)
  moreover have "(0 :: nat) \<in> {..<256}" by simp
  ultimately have room: "{} \<union> echo_blocks ?d \<noteq> {..<256}" by blast
  have f: "has_flag IRQ_EI IRQ_EI" "\<not> has_flag IRQ_EI IRQ_EPI" "has_flag SR_BS SR_BS"
    by (simp_all add: reg_defs)
  show ?thesis
    using sja1000_err_state [OF o e(1) room e(2), of IRQ_EI SR_BS] f e(3) by (auto simp: less_can_state_def)
qed

text \<open>A bus-off reported together with the passive interrupt is lost: the state becomes error passive.\<close>

lemma bus_off_lost:
  assumes "has_flag isrc IRQ_EI" and "has_flag status SR_BS" and "has_flag isrc IRQ_EPI"
  shows "err_next_state isrc status old = CAN_STATE_ERROR_PASSIVE"
  using err_next_state_cases(6) assms by blast

lemma alloc_when_full:
  assumes "owns blocks rest d" and "rest \<union> echo_blocks d = blocks"
  shows "alloc_can_skb d = (None, d)"
proof -
  obtain r d1 where a: "alloc_can_skb d = (r, d1)" by fastforce
  note al = owns_alloc [OF assms(1) a]
  have "r = None"
  proof (rule ccontr)
    assume "r \<noteq> None"
    then obtain skb where r: "r = Some skb" by blast
    then have o: "owns blocks (rest \<union> skb_blocks skb) d1" "skb_blocks skb \<inter> rest = {}" "d1 = d\<lparr>pool := pool d1\<rparr>"
      using al by simp_all
    have "echo_skb d1 = echo_skb d" by (subst o(3)) simp
    then have "skb_blocks skb \<inter> echo_blocks d = {}" using o(1) by (auto simp: owns_def echo_blocks_def)
    moreover have "skb_blocks skb \<subseteq> blocks" using owns_finite [OF o(1)] by simp
    ultimately show False using o(2) assms(2) by (auto simp: skb_blocks_def)
  qed
  then show ?thesis using al a by simp
qed

text \<open>
  With the pool used up an error interrupt that changes the state makes
  \<^verbatim>\<open>sja1000_err\<close> write through a frame pointer nobody has set; one that does not change the
  state is dropped with \<^verbatim>\<open>-ENOMEM\<close> and leaves the controller state alone.
\<close>

lemma sja1000_err_without_buffer:
  assumes "owns blocks rest d" and "rest \<union> echo_blocks d = blocks"
  shows "(err_next_state isrc status (can_state d) \<noteq> can_state d \<longrightarrow> sja1000_err isrc status d = None) \<and>
    (err_next_state isrc status (can_state d) = can_state d \<longrightarrow>
      (\<exists>d'. sja1000_err isrc status d = Some (Err_nomem, d') \<and> owns blocks rest d' \<and> can_state d' = can_state d))"
proof -
  have err: "alloc_can_err_skb d = (None, d)"
    using alloc_when_full [OF assms] by (simp add: alloc_can_err_skb_def)
  show ?thesis
  proof (rule err_collect_None [of isrc status d])
    fix ret e
    assume c: "err_collect isrc status None d = Some (ret, None, e)" "err_effect d e"
      "err_next_state isrc status (can_state d) = can_state d"
    have "owns blocks rest e" using assms(1) c(2) by (auto elim!: err_effectE)
    then show ?thesis using c err err_effect_keeps(2) [OF c(2)] by (simp add: sja1000_err_def)
  next
    assume "err_collect isrc status None d = None" "err_next_state isrc status (can_state d) \<noteq> can_state d"
    then show ?thesis using err by (simp add: sja1000_err_def)
  qed
qed

text \<open>The sample device with every block handed out.\<close>

definition vcan_dev_full :: "(nat \<Rightarrow> u8) net_device" where
  "vcan_dev_full = vcan_dev\<lparr>pool := (pool vcan_dev)\<lparr>FixedArrayIndex := 256\<rparr>\<rparr>"

lemma vcan_dev_full:
  "owns {..<256} {..<256} vcan_dev_full" "{..<256} \<union> echo_blocks vcan_dev_full = {..<256}"
proof -
  have "length (FixedArray (pool vcan_dev)) = 256"
    using vcan_dev_pool by (simp add: pool_inv_def FIXED_MAX_NUM_BLOCKS_def)
  moreover have "echo_skb vcan_dev_full = [None]" by (simp add: vcan_dev_full_def vcan_dev_def)
  ultimately show "owns {..<256} {..<256} vcan_dev_full" "{..<256} \<union> echo_blocks vcan_dev_full = {..<256}"
    by (simp_all add: owns_def echo_blocks_def)
      (simp add: vcan_dev_full_def pool_inv_def free_slots_def FIXED_MAX_NUM_BLOCKS_def)
qed

lemma sja1000_err_without_buffer_witness:
  "sja1000_err IRQ_EI SR_BS vcan_dev_full = None"
proof -
  have "err_next_state IRQ_EI SR_BS (can_state vcan_dev_full) \<noteq> can_state vcan_dev_full"
    by (simp add: err_next_state_def err_warning_state_def err_passive_state_def reg_defs
        vcan_dev_full_def vcan_dev_def)
  then show ?thesis using sja1000_err_without_buffer [OF vcan_dev_full, of IRQ_EI SR_BS] by blast
qed

lemma rx_loop_diverges:
  assumes "sja1000_rx d = Some d" and "rd SJA1000_SR d = (v, d)" and "v \<noteq> 0xFF" and "has_flag v SR_RBS"
  shows "rx_loop v d = None"
proof (rule ccontr)
  assume "rx_loop v d \<noteq> None"
  then obtain r where r: "rx_loop v d = Some r" by blast
  have "\<not> (v = v \<and> d = d)"
  proof (rule rx_loop.raw_induct [OF _ r, where P = "\<lambda>status e r. \<not> (status = v \<and> e = d)"])
    fix f status e y
    assume ih: "\<And>status e r. f status e = Some r \<Longrightarrow> \<not> (status = v \<and> e = d)"
      and eq: "(if \<not> has_flag status SR_RBS then Some (False, status, e)
        else case sja1000_rx e of
             None \<Rightarrow> None
           | Some d1 \<Rightarrow>
               (case rd SJA1000_SR d1 of
                  (status', d2) \<Rightarrow>
                    if status' = 0xFF
                    then (case sja1000_is_absent d2 of
                            (absent, d3) \<Rightarrow>
                              if absent then Some (True, status', d3) else f status' d3)
                    else f status' d2)) = Some y"
    show "\<not> (status = v \<and> e = d)"
    proof
      assume "status = v \<and> e = d"
      then have "f v d = Some y" using eq assms by simp
      with ih show False by blast
    qed
  qed
  then show False by simp
qed

text \<open>
  With the pool used up the receive interrupt never ends: \<^verbatim>\<open>sja1000_rx\<close> gives up before
  it releases the receive buffer, so a chip whose registers keep their values goes on
  reporting the same frame and the handler runs its receive loop for ever.
\<close>

lemma sja1000_interrupt_spins:
  assumes "owns blocks rest d" and "rest \<union> echo_blocks d = blocks"
    and "\<And>r. snd (read_reg d (hw d) r) = hw d" and "pre_irq d = None"
    and "fst (read_reg d (hw d) SJA1000_IER) \<noteq> 0"
    and "has_flag (fst (read_reg d (hw d) SJA1000_IR)) IRQ_RI"
    and "\<not> has_flag (fst (read_reg d (hw d) SJA1000_IR)) IRQ_TI"
    and "has_flag (fst (read_reg d (hw d) SJA1000_SR)) SR_RBS"
    and "fst (read_reg d (hw d) SJA1000_SR) \<noteq> 0xFF"
  shows "sja1000_interrupt d = None"
proof -
  have rd: "rd r d = (fst (read_reg d (hw d) r), d)" for r
    using assms(3) [of r] by (cases "read_reg d (hw d) r") (simp add: rd_def)
  have "sja1000_rx d = Some d"
    using alloc_when_full [OF assms(1,2)] by (simp add: sja1000_rx_def)
  then have spin: "rx_loop (fst (read_reg d (hw d) SJA1000_SR)) d = None"
    by (rule rx_loop_diverges [OF _ rd assms(9,8)])
  have "fst (read_reg d (hw d) SJA1000_IR) \<noteq> 0" using assms(6) by auto
  moreover have "irq_turn (fst (read_reg d (hw d) SJA1000_IR)) d = None"
    using assms(6,7,9) spin by (simp add: irq_turn_def rd irq_tx_done_def)
  ultimately have "irq_loop (Suc n) 0 d = None" for n
    by (simp add: rd)
  from this [of 19] show ?thesis
    using assms(4,5) by (simp add: sja1000_interrupt_def rd SJA1000_MAX_IRQ_def IRQ_OFF_def numeral_eq_Suc)
qed

lemma sja1000_interrupt_spins_witness:
  "sja1000_interrupt (vcan_dev_full\<lparr>hw := (\<lambda>r. 1)\<rparr>) = None"
proof -
  let ?d = "vcan_dev_full\<lparr>hw := (\<lambda>r. 1)\<rparr>"
  have o: "owns {..<256} {..<256} ?d" "{..<256} \<union> echo_blocks ?d = {..<256}"
    using vcan_dev_full by (simp_all add: echo_blocks_def)
  have "read_reg ?d = vcan_read_reg" "pre_irq ?d = None" by (simp_all add: vcan_dev_full_def vcan_dev_def)
  then show ?thesis
    using sja1000_interrupt_spins [OF o] by (simp add: vcan_read_reg_def reg_defs)
qed

end
