(* ===== verification/Irq_Liveness.thy ===== *)
theory Irq_Liveness
  imports Irq_Safety
begin

unbundle bit_operations_syntax

text \<open>
  The whole handler \<^verbatim>\<open>sja1000_interrupt\<close>: whenever it returns the books of the block pool are
  in order, and with buffers left in the pool it does return, on a bus where frames keep arriving
  no faster than a driver reads them.
\<close>

section \<open>Safety\<close>

lemma irq_inv_err:
  assumes i: "irq_inv blocks rest d0 d" and e: "sja1000_err isrc status d = Some (ret, d')"
  shows "irq_inv blocks rest d0 d'"
proof (cases "rest \<union> echo_blocks d = blocks")
  case True
  have o: "owns blocks rest d" using i by (simp add: irq_inv_def)
  have al: "alloc_can_err_skb d = (None, d)"
    using alloc_when_full [OF o True] by (simp add: alloc_can_err_skb_def)
  show ?thesis
    by (rule err_collect_None [of isrc status d])
      (use i e al in \<open>auto simp: sja1000_err_def err_effect_keeps(1)\<close>)
next
  case False
  obtain ret skb d7 where b:
    "sja1000_err isrc status d = do { d8 \<leftarrow> netif_rx RX_FUEL skb d7; Some (ret, d8) }"
    "irq_inv blocks (rest \<union> skb_blocks skb) d0 d7" "live_skb (rest \<union> skb_blocks skb) skb"
    "rest \<union> skb_blocks skb - skb_blocks skb = rest" "\<not> is_echo skb"
    by (rule sja1000_err_buffer [OF i False])
  show ?thesis
    by (rule irq_inv_netif_rx [OF b(2,3,5)]) (use b(1,4) e in auto)
qed

lemma irq_inv_absent: "sja1000_is_absent d = (b, d') \<Longrightarrow> irq_inv blocks rest d0 d' = irq_inv blocks rest d0 d"
  by (rule irq_inv_hw_only [OF hw_only_absent])

lemma irq_inv_rx_loop:
  assumes i: "irq_inv blocks rest d0 d" and r: "rx_loop status d = Some (gone, status', d')"
  shows "irq_inv blocks rest d0 d'"
proof -
  have "irq_inv blocks rest d0 d \<longrightarrow> irq_inv blocks rest d0 (snd (snd (gone, status', d')))"
  proof (rule rx_loop.raw_induct [OF _ r,
        where P = "\<lambda>status d r. irq_inv blocks rest d0 d \<longrightarrow> irq_inv blocks rest d0 (snd (snd r))"], intro impI)
    fix f status e y
    assume ih: "\<And>status e r. f status e = Some r \<Longrightarrow> irq_inv blocks rest d0 e \<longrightarrow> irq_inv blocks rest d0 (snd (snd r))"
      and eq: "(if \<not> has_flag status SR_RBS then Some (False, status, e)
        else case sja1000_rx e of
             None \<Rightarrow> None
           | Some d1 \<Rightarrow>
               (case rd SJA1000_SR d1 of
                  (status', d2) \<Rightarrow>
                    if status' = 0xFF
                    then (case sja1000_is_absent d2 of
                            (absent, d3) \<Rightarrow>
                              if absent then Some (True, status', d3) else f status' d3)
                    else f status' d2)) = Some y"
      and e: "irq_inv blocks rest d0 e"
    obtain d1 where d1: "sja1000_rx e = Some d1" "irq_inv blocks rest d0 d1"
      by (rule irq_inv_sja1000_rx [OF e])
    obtain s2 d2 where d2: "rd SJA1000_SR d1 = (s2, d2)" by fastforce
    obtain ab d3 where d3: "sja1000_is_absent d2 = (ab, d3)" by fastforce
    have "irq_inv blocks rest d0 d2" "irq_inv blocks rest d0 d3"
      using d1(2) irq_inv_rd [OF d2] irq_inv_absent [OF d3] by simp_all
    then show "irq_inv blocks rest d0 (snd (snd y))"
      using eq e ih d1(1) d2 d3 by (auto split: if_splits)
  qed
  then show ?thesis using i by simp
qed

lemma irq_inv_turn:
  assumes i: "irq_inv blocks rest d0 d" and t: "irq_turn isrc d = Some (t, d')"
  shows "irq_inv blocks rest d0 d'"
proof -
  obtain status d1 where 1: "rd SJA1000_SR d = (status, d1)" by fastforce
  obtain ab d2 where 2: "(if status = 0xFF then sja1000_is_absent d1 else (False, d1)) = (ab, d2)" by fastforce
  have i2: "irq_inv blocks rest d0 d2"
    using i irq_inv_rd [OF 1] 2 by (auto split: if_splits simp: irq_inv_absent)
  obtain d3 where 3: "irq_tx_done isrc status d2 = Some d3" "irq_inv blocks rest d0 d3"
    by (rule irq_inv_tx_done [OF i2])
  show ?thesis
  proof (cases ab)
    case True
    then show ?thesis using t 1 2 i2 by (simp add: irq_turn_def)
  next
    case False
    then obtain gone s4 d4 where 4: "(if has_flag isrc IRQ_RI then rx_loop status d3 else Some (False, status, d3)) = Some (gone, s4, d4)"
      and rest: "(if gone then Some (Leave False, d4) else irq_errors isrc s4 d4) = Some (t, d')"
      using t 1 2 3(1) by (auto simp: irq_turn_def split: bind_splits)
    have "irq_inv blocks rest d0 d4"
      using 4 3(2) irq_inv_rx_loop by (auto split: if_splits)
    then show ?thesis
      using rest irq_inv_err by (auto simp: irq_errors_def split: if_splits bind_splits)
  qed
qed

lemma irq_inv_loop:
  assumes "irq_inv blocks rest d0 d" and "irq_loop k n d = Some (m, wake, d')"
  shows "irq_inv blocks rest d0 d'"
  using assms
proof (induction k n d rule: irq_loop.induct)
  case (1 n d)
  then show ?case using irq_inv_rd [of SJA1000_IR d] by (auto simp: prod_eq_iff)
next
  case (2 k n d)
  obtain isrc d1 where r: "rd SJA1000_IR d = (isrc, d1)" by fastforce
  have i1: "irq_inv blocks rest d0 d1" using 2(2) irq_inv_rd [OF r] by simp
  show ?case
  proof (cases "isrc = 0")
    case True
    then show ?thesis using 2(3) r i1 by simp
  next
    case False
    then obtain t d2 where t: "irq_turn isrc d1 = Some (t, d2)"
      "(case t of Go_on \<Rightarrow> irq_loop k (Suc n) d2 | Leave wake \<Rightarrow> Some (n, wake, d2)) = Some (m, wake, d')"
      using 2(3) r by (auto split: bind_splits)
    have "irq_inv blocks rest d0 d2" by (rule irq_inv_turn [OF i1 t(1)])
    then show ?thesis
      using t(2) 2(1) [OF r [symmetric] refl False] t(1) by (cases t) auto
  qed
qed

text \<open>The optional hooks around the handler touch the chip only.\<close>

lemma irq_inv_hook:
  "irq_inv blocks rest d0 (case f of None \<Rightarrow> d | Some g \<Rightarrow> d\<lparr>hw := g (hw d)\<rparr>) = irq_inv blocks rest d0 d"
  by (simp split: option.splits)

lemma irq_inv_interrupt:
  assumes i: "irq_inv blocks rest d0 d" and e: "sja1000_interrupt d = Some (r, d')"
  shows "irq_inv blocks rest d0 d'"
proof -
  let ?d = "case pre_irq d of None \<Rightarrow> d | Some f \<Rightarrow> d\<lparr>hw := f (hw d)\<rparr>"
  obtain ier d1 where 1: "rd SJA1000_IER ?d = (ier, d1)" by fastforce
  have i1: "irq_inv blocks rest d0 d1" using i irq_inv_rd [OF 1] by (simp add: irq_inv_hook)
  show ?thesis
  proof (cases "ier = IRQ_OFF")
    case True
    then show ?thesis using e 1 i1 by (auto simp: sja1000_interrupt_def irq_inv_hook)
  next
    case False
    then obtain n wake d2 where 2: "irq_loop SJA1000_MAX_IRQ 0 d1 = Some (n, wake, d2)"
      "d' = (case post_irq d2 of None \<Rightarrow> d2 | Some f \<Rightarrow> d2\<lparr>hw := f (hw d2)\<rparr>)"
      using e 1 by (auto simp: sja1000_interrupt_def split: bind_splits)
    then show ?thesis using irq_inv_loop [OF i1] by (simp add: irq_inv_hook)
  qed
qed


section \<open>A chip on a live bus\<close>

text \<open>
  What is assumed of the chip: \<open>frames\<close> counts the frames in its receive buffer, \<open>quiet\<close> the
  accesses the driver can make before the next frame can be complete. An access (a register
  read, a clock reading, the release command) either leaves the number of frames and takes at
  most one from \<open>quiet\<close>, or a frame has arrived meanwhile; then \<open>quiet\<close> was used up and starts
  again at \<^verbatim>\<open>FRAME_GAP\<close> or more. A frame that finds the buffer full is of the first kind. The
  command \<^verbatim>\<open>CMD_RRB\<close> removes one frame, and the status register shows \<^verbatim>\<open>SR_RBS\<close> only if one is
  there. All other writes are free to do anything.

  The shortest CAN frame takes 47 microseconds at 1 Mbit/s. The handler makes at most 18
  accesses for a frame, so 20 accesses per frame are a bus that the driver can just keep up
  with: at that rate, an access takes more than two microseconds.
\<close>

definition FRAME_GAP :: nat where "FRAME_GAP = 20"

definition bus_access :: "nat \<Rightarrow> nat \<Rightarrow> nat \<Rightarrow> nat \<Rightarrow> bool" where
  "bus_access f q f' q' \<longleftrightarrow>
     f' = f \<and> q \<le> q' + 1 \<or> q = 0 \<and> f' = f + 1 \<and> FRAME_GAP \<le> q'"

definition live_chip :: "('h \<Rightarrow> nat) \<Rightarrow> ('h \<Rightarrow> nat) \<Rightarrow> 'h net_device \<Rightarrow> bool" where
  "live_chip frames quiet d \<longleftrightarrow>
     (\<forall>h r. let h' = snd (read_reg d h r) in bus_access (frames h) (quiet h) (frames h') (quiet h')) \<and>
     (\<forall>h. let h' = snd (clock_ms d h) in bus_access (frames h) (quiet h) (frames h') (quiet h')) \<and>
     (\<forall>h. let h' = write_reg d h SJA1000_CMR CMD_RRB
       in bus_access (frames h - 1) (quiet h) (frames h') (quiet h')) \<and>
     (\<forall>h. let (v, h') = read_reg d h SJA1000_SR in has_flag v SR_RBS \<longrightarrow> 0 < frames h')"

text \<open>
  A measure of the work left: every frame counts for \<^verbatim>\<open>FRAME_GAP\<close>, and so does the time that
  has passed since the last one. An access adds at most one to it, an arrival nothing, and
  a release takes away \<^verbatim>\<open>FRAME_GAP\<close>.
\<close>

definition work_left :: "nat \<Rightarrow> nat \<Rightarrow> nat" where
  "work_left f q = FRAME_GAP * f + (FRAME_GAP - q)"

lemma bus_access_work: "bus_access f q f' q' \<Longrightarrow> f \<le> f' \<and> work_left f' q' \<le> work_left f q + 1"
  by (auto simp: bus_access_def work_left_def)

text \<open>\<open>accesses frames quiet k d d'\<close>: same settings, no frame lost, and the work of \<open>k\<close> accesses.\<close>

definition accesses :: "('h \<Rightarrow> nat) \<Rightarrow> ('h \<Rightarrow> nat) \<Rightarrow> nat \<Rightarrow> 'h net_device \<Rightarrow> 'h net_device \<Rightarrow> bool" where
  "accesses frames quiet k d d' \<longleftrightarrow> same_config d d' \<and> frames (hw d) \<le> frames (hw d') \<and>
     work_left (frames (hw d')) (quiet (hw d')) \<le> work_left (frames (hw d)) (quiet (hw d)) + k"

lemma accesses_refl [simp]: "accesses frames quiet k d d"
  by (simp add: accesses_def)

lemma accesses_trans:
  assumes "accesses frames quiet j d d1" and "accesses frames quiet k d1 d2" and "j + k \<le> n"
  shows "accesses frames quiet n d d2"
  using assms by (auto simp: accesses_def intro: same_config_trans)

lemma live_chip_accesses: "accesses frames quiet k d d' \<Longrightarrow> live_chip frames quiet d' = live_chip frames quiet d"
  by (simp add: accesses_def live_chip_def same_config_def)

lemma accesses_update [simp]:
  "accesses frames quiet k d (d'\<lparr>stats := t\<rparr>) = accesses frames quiet k d d'"
  "accesses frames quiet k d (d'\<lparr>pool := p\<rparr>) = accesses frames quiet k d d'"
  "accesses frames quiet k d (d'\<lparr>echo_skb := e\<rparr>) = accesses frames quiet k d d'"
  "accesses frames quiet k d (deliver_all m d') = accesses frames quiet k d d'"
  by (simp_all add: accesses_def deliver_all_def Let_def)

lemma accesses_rd:
  assumes "live_chip frames quiet d" and "rd r d = (v, d')"
  shows "accesses frames quiet 1 d d'" "r = SJA1000_SR \<Longrightarrow> has_flag v SR_RBS \<Longrightarrow> 0 < frames (hw d')"
proof -
  obtain h' where h': "read_reg d (hw d) r = (v, h')" "d' = d\<lparr>hw := h'\<rparr>"
    using assms(2) by (auto simp: rd_def split: prod.splits)
  have "\<forall>h r. let h' = snd (read_reg d h r) in bus_access (frames h) (quiet h) (frames h') (quiet h')"
    using assms(1) unfolding live_chip_def by blast
  from this [rule_format, of "hw d" r] show "accesses frames quiet 1 d d'"
    using h' bus_access_work by (auto simp: accesses_def)
  have "\<forall>h. let (v, h') = read_reg d h SJA1000_SR in has_flag v SR_RBS \<longrightarrow> 0 < frames h'"
    using assms(1) unfolding live_chip_def by blast
  from this [rule_format, of "hw d"]
  show "r = SJA1000_SR \<Longrightarrow> has_flag v SR_RBS \<Longrightarrow> 0 < frames (hw d')" using h' by simp
qed

lemma accesses_rd_step:
  assumes "live_chip frames quiet d" and "accesses frames quiet k d d1" and "rd r d1 = (v, d2)"
  shows "accesses frames quiet (Suc k) d d2"
  using accesses_trans [OF assms(2) accesses_rd(1) [OF _ assms(3)], of "Suc k"] assms(1)
    live_chip_accesses [OF assms(2)] by simp

lemma accesses_absent: "live_chip frames quiet d \<Longrightarrow> sja1000_is_absent d = (b, d') \<Longrightarrow> accesses frames quiet 1 d d'"
  by (auto simp: sja1000_is_absent_def dest: accesses_rd(1) split: prod.splits)

lemma accesses_timestamp:
  assumes "live_chip frames quiet d" and "rx_timestamp d = (t, d')"
  shows "accesses frames quiet 1 d d'"
proof -
  have "\<forall>h. let h' = snd (clock_ms d h) in bus_access (frames h) (quiet h) (frames h') (quiet h')"
    using assms(1) unfolding live_chip_def by blast
  from this [rule_format, of "hw d"] have "accesses frames quiet 1 d (snd (now_ms d))"
    using bus_access_work by (auto simp: accesses_def now_ms_def split: prod.splits)
  then show ?thesis
    using assms(2) by (auto simp: rx_timestamp_def split: if_splits prod.splits)
qed

lemma accesses_kfree: "kfree_skb skb d = Some d' \<Longrightarrow> accesses frames quiet k e d' = accesses frames quiet k e d"
  by (auto simp: kfree_skb_def split: bind_splits)

text \<open>Delivering a received frame reads the clock at most.\<close>

lemma accesses_netif_rx:
  assumes c: "live_chip frames quiet d" and data: "\<not> has_flag (can_id (frame skb)) CAN_ERR_FLAG"
    and rx: "netif_rx RX_FUEL skb d = Some d'"
  shows "accesses frames quiet 1 d d'"
proof -
  have rx: "rx_data skb d = Some d'"
    using rx data by (simp add: RX_FUEL_def numeral_eq_Suc)
  obtain t d1 where t: "rx_timestamp d = (t, d1)" by fastforce
  show ?thesis
    using rx t accesses_timestamp [OF c t] accesses_kfree [of skb _ d' frames quiet 1 d]
    by (auto simp: rx_data_def Let_def split: if_splits)
qed

text \<open>The release command, and the status read that follows it.\<close>

lemma accesses_release:
  assumes "live_chip frames quiet d" and d': "d' = sja1000_write_cmdreg CMD_RRB d"
  shows "same_config d d'" and "0 < frames (hw d) \<Longrightarrow>
    work_left (frames (hw d')) (quiet (hw d')) + FRAME_GAP \<le> work_left (frames (hw d)) (quiet (hw d)) + 2"
proof -
  let ?d1 = "wr SJA1000_CMR CMD_RRB d"
  have cfg: "same_config d ?d1" by (simp add: wr_def)
  have c1: "live_chip frames quiet ?d1" using assms(1) cfg by (simp add: live_chip_def same_config_def)
  have r: "accesses frames quiet 1 ?d1 d'"
    unfolding d' sja1000_write_cmdreg_def
    by (rule accesses_rd(1) [OF c1, of _ "fst (rd SJA1000_SR ?d1)"]) simp
  then show "same_config d d'" using cfg by (auto simp: accesses_def intro: same_config_trans)
  have "\<forall>h. let h' = write_reg d h SJA1000_CMR CMD_RRB
      in bus_access (frames h - 1) (quiet h) (frames h') (quiet h')"
    using assms(1) unfolding live_chip_def by blast
  from this [rule_format, of "hw d"]
  have "bus_access (frames (hw d) - 1) (quiet (hw d)) (frames (hw ?d1)) (quiet (hw ?d1))"
    by (simp add: wr_def Let_def)
  moreover have "work_left (frames (hw d) - 1) (quiet (hw d)) + FRAME_GAP = work_left (frames (hw d)) (quiet (hw d))"
    if "0 < frames (hw d)"
    using that by (cases "frames (hw d)") (simp_all add: work_left_def)
  ultimately show "work_left (frames (hw d')) (quiet (hw d')) + FRAME_GAP \<le>
      work_left (frames (hw d)) (quiet (hw d)) + 2" if "0 < frames (hw d)"
    using that bus_access_work r by (force simp: accesses_def)
qed

section \<open>The frame read\<close>

lemma accesses_bytes:
  "live_chip frames quiet d \<Longrightarrow> rx_bytes_loop n dreg d = (bs, d') \<Longrightarrow> accesses frames quiet n d d'"
proof (induction n arbitrary: dreg d bs d')
  case (Suc n)
  obtain b d1 where 1: "rd (unat dreg) d = (b, d1)" by fastforce
  obtain bs2 d2 where 2: "rx_bytes_loop n (dreg + 1) d1 = (bs2, d2)" by fastforce
  have d1: "accesses frames quiet 1 d d1" by (rule accesses_rd(1) [OF Suc.prems(1) 1])
  then have "live_chip frames quiet d1" using Suc.prems(1) live_chip_accesses by blast
  from Suc.IH [OF this 2] have "accesses frames quiet (Suc n) d d2" by (rule accesses_trans [OF d1]) simp
  then show ?case using Suc.prems(2) 1 2 by simp
qed simp

lemma accesses_rx_id:
  assumes c: "live_chip frames quiet d" and e: "rx_id fi d = (i, d')"
  shows "accesses frames quiet 4 d d'"
proof -
  obtain a d1 where 1: "rd SJA1000_ID1 d = (a, d1)" by fastforce
  obtain b d2 where 2: "rd SJA1000_ID2 d1 = (b, d2)" by fastforce
  obtain x d3 where 3: "rd SJA1000_ID3 d2 = (x, d3)" by fastforce
  obtain y d4 where 4: "rd SJA1000_ID4 d3 = (y, d4)" by fastforce
  have d2: "accesses frames quiet (Suc (Suc 0)) d d2"
    using accesses_rd_step [OF c accesses_rd_step [OF c accesses_refl 1] 2] .
  have "accesses frames quiet (Suc (Suc (Suc (Suc 0)))) d d4"
    using accesses_rd_step [OF c accesses_rd_step [OF c d2 3] 4] .
  then show ?thesis
    using e 1 2 3 4 accesses_trans [OF d2 accesses_refl, of 0 4] by (auto simp: rx_id_def numeral_eq_Suc split: if_splits)
qed

lemma rx_len: "unat (cf_len (can_frame_set_cc_len cf l m)) \<le> 8"
  by (simp add: can_frame_set_cc_len_def can_cc_dlc2len_def Let_def min_def CAN_MAX_DLEN_def word_le_nat_alt)

lemma accesses_rx_frame:
  assumes c: "live_chip frames quiet d" and e: "rx_frame cf d = (cf', d')"
  shows "accesses frames quiet 13 d d'"
proof -
  obtain fi d1 where 1: "rd SJA1000_FI d = (fi, d1)" by fastforce
  obtain i d2 where 2: "rx_id fi d1 = (i, d2)" by fastforce
  let ?n = "unat (cf_len (can_frame_set_cc_len cf (fi AND 0x0F) (ctrlmode d2)))"
  obtain bs d3 where 3: "rx_bytes_loop ?n
      (if has_flag fi SJA1000_FI_FF then SJA1000_EFF_BUF else SJA1000_SFF_BUF) d2 = (bs, d3)"
    by fastforce
  have d1: "accesses frames quiet 1 d d1" by (rule accesses_rd(1) [OF c 1])
  then have c1: "live_chip frames quiet d1" using c live_chip_accesses by blast
  have d2: "accesses frames quiet 5 d d2" by (rule accesses_trans [OF d1 accesses_rx_id [OF c1 2]]) simp
  then have c2: "live_chip frames quiet d2" using c live_chip_accesses by blast
  have "accesses frames quiet 13 d d3"
    by (rule accesses_trans [OF d2 accesses_bytes [OF c2 3]]) (use rx_len [of cf "fi AND 0x0F" "ctrlmode d2"] in simp)
  then show ?thesis
    using e 1 2 3 accesses_trans [OF d2 accesses_refl, of 0 13]
    by (cases "has_flag fi SJA1000_FI_RTR") (auto simp: rx_frame_def Let_def)
qed

text \<open>A received frame never carries the error flag: its identifier has 29 bits and two flags.\<close>

lemma err_flag_bit: "has_flag (i :: u32) CAN_ERR_FLAG \<longleftrightarrow> bit i 29"
  by (rule flag_bit) (simp add: flag_defs push_bit_eq_mult)

lemma rx_frame_data:
  assumes "rx_frame cf d = (cf', d')"
  shows "\<not> has_flag (can_id cf') CAN_ERR_FLAG"
proof -
  have id: "\<not> bit (fst (rx_id fi e)) 29" for fi and e :: "'a net_device"
    unfolding rx_id_def by (auto simp: bit_simps flag_defs dest: bit_imp_le_length split: prod.splits if_splits)
  have rtr: "\<not> bit (CAN_RTR_FLAG :: u32) 29" by (simp add: flag_defs flip: err_flag_bit)
  obtain fi d1 where 1: "rd SJA1000_FI d = (fi, d1)" by fastforce
  obtain i d2 where 2: "rx_id fi d1 = (i, d2)" by fastforce
  have "\<not> bit i 29" using id [of fi d1] 2 by simp
  then show ?thesis
    unfolding err_flag_bit using assms 1 2 rtr
    by (auto simp: rx_frame_def Let_def bit_or_iff split: prod.splits if_splits)
qed

lemma irq_inv_room:
  assumes i: "irq_inv blocks rest d0 d" and "card rest \<le> 252"
  shows "rest \<union> echo_blocks d \<noteq> blocks"
proof
  assume full: "rest \<union> echo_blocks d = blocks"
  have o: "owns blocks rest d" using i by (simp add: irq_inv_def)
  have "card (echo_blocks d) \<le> 2"
    by (rule echo_slot [OF o]) (simp_all add: card_skb_blocks)
  then have "card blocks \<le> 254"
    using assms(2) card_Un_le [of rest "echo_blocks d"] full by simp
  then show False using o by (simp add: owns_def pool_inv_def FIXED_MAX_NUM_BLOCKS_def)
qed

text \<open>
  One turn of the receive loop, up to the status read at its end: with a frame in the buffer, less
  work is left than before.
\<close>

lemma sja1000_rx_accesses:
  assumes i: "irq_inv blocks rest d0 d" and c: "live_chip frames quiet d"
    and room: "rest \<union> echo_blocks d \<noteq> blocks" and rx: "sja1000_rx d = Some d'"
  shows "same_config d d'" and "0 < frames (hw d) \<Longrightarrow>
    work_left (frames (hw d')) (quiet (hw d')) + FRAME_GAP \<le> work_left (frames (hw d)) (quiet (hw d)) + 16"
proof -
  obtain r d1 where a: "alloc_can_skb d = (r, d1)" by fastforce
  note al = irq_inv_alloc [OF i a]
  obtain skb where r: "r = Some skb" using al room by (cases r) auto
  then have "d1 = d\<lparr>pool := pool d1\<rparr>" using al by simp
  then obtain p where d1: "d1 = d\<lparr>pool := p\<rparr>" by blast
  obtain cf d2 where f: "rx_frame (frame skb) d1 = (cf, d2)" by fastforce
  let ?d2 = "count_rx_packet d2" and ?d3 = "sja1000_write_cmdreg CMD_RRB (count_rx_packet d2)"
  have e1: "accesses frames quiet 0 d d1" by (simp add: d1)
  then have c1: "live_chip frames quiet d1" using c live_chip_accesses by blast
  have e2: "accesses frames quiet 13 d ?d2"
    using accesses_trans [OF e1 accesses_rx_frame [OF c1 f]] by (simp add: count_rx_packet_def)
  then have c2: "live_chip frames quiet ?d2" using c live_chip_accesses by blast
  note e3 = accesses_release [OF c2 refl]
  have c3: "live_chip frames quiet ?d3" using c2 e3(1) by (simp add: live_chip_def same_config_def)
  have e4: "accesses frames quiet 1 ?d3 d'"
    by (rule accesses_netif_rx [OF c3, of "skb\<lparr>frame := cf\<rparr>"])
      (use rx a r f rx_frame_data [OF f] in \<open>simp_all add: sja1000_rx_def\<close>)
  have "same_config d ?d3" using e2 e3(1) by (auto simp: accesses_def intro: same_config_trans)
  then show "same_config d d'" using e4 by (auto simp: accesses_def intro: same_config_trans)
  show "work_left (frames (hw d')) (quiet (hw d')) + FRAME_GAP \<le>
      work_left (frames (hw d)) (quiet (hw d)) + 16" if "0 < frames (hw d)"
    using that e2 e3(2) e4 by (auto simp: accesses_def)
qed

section \<open>The handler returns\<close>

text \<open>
  The receive loop ends. It is entered with a status read earlier, so there may be no frame for
  its first turn; from then on the status read at the end of a turn vouches for the next one.
\<close>

lemma rx_loop_turn:
  assumes i: "irq_inv blocks rest d0 d" and c: "live_chip frames quiet d0" and left: "card rest \<le> 252"
    and more: "\<And>e s. irq_inv blocks rest d0 e \<Longrightarrow> 0 < frames (hw e) \<Longrightarrow>
      (0 < frames (hw d) \<Longrightarrow>
        work_left (frames (hw e)) (quiet (hw e)) < work_left (frames (hw d)) (quiet (hw d))) \<Longrightarrow>
      \<exists>res. rx_loop s e = Some res"
  shows "\<exists>res. rx_loop status d = Some res"
proof (cases "has_flag status SR_RBS")
  case True
  have cd: "live_chip frames quiet d" using i c by (simp add: irq_inv_def live_chip_def same_config_def)
  obtain d1 where 1: "sja1000_rx d = Some d1" "irq_inv blocks rest d0 d1"
    by (rule irq_inv_sja1000_rx [OF i])
  note rx = sja1000_rx_accesses [OF i cd irq_inv_room [OF i left] 1(1)]
  have c1: "live_chip frames quiet d1" using cd rx(1) by (simp add: live_chip_def same_config_def)
  obtain s2 d2 where 2: "rd SJA1000_SR d1 = (s2, d2)" by fastforce
  obtain ab d3 where 3: "sja1000_is_absent d2 = (ab, d3)" by fastforce
  have i23: "irq_inv blocks rest d0 d2" "irq_inv blocks rest d0 d3"
    using 1(2) irq_inv_rd [OF 2] irq_inv_absent [OF 3] by simp_all
  note d2 = accesses_rd [OF c1 2]
  then have "live_chip frames quiet d2" using c1 live_chip_accesses by blast
  note d3 = accesses_absent [OF this 3]
  have "\<exists>res. rx_loop s2 e = Some res" if e: "e = d2 \<or> e = d3" for e
  proof (cases "has_flag s2 SR_RBS")
    case False
    then have "rx_loop s2 e = Some (False, s2, e)" by (simp add: rx_loop.simps)
    then show ?thesis by blast
  next
    case True
    then have "0 < frames (hw e)" using d2(2) d3 e by (auto simp: accesses_def)
    moreover have "work_left (frames (hw e)) (quiet (hw e)) < work_left (frames (hw d)) (quiet (hw d))"
      if "0 < frames (hw d)"
      using rx(2) [OF that] d2(1) d3 e by (auto simp: accesses_def FRAME_GAP_def)
    moreover have "irq_inv blocks rest d0 e" using e i23 by blast
    ultimately show ?thesis by (intro more)
  qed
  then show ?thesis
    using True 1(1) 2 3 by (subst rx_loop.simps) (auto split: if_splits)
next
  case False
  then have "rx_loop status d = Some (False, status, d)" by (simp add: rx_loop.simps)
  then show ?thesis by blast
qed

lemma rx_loop_returns:
  assumes i: "irq_inv blocks rest d0 d" and c: "live_chip frames quiet d0" and left: "card rest \<le> 252"
  shows "\<exists>res. rx_loop status d = Some res"
proof -
  have "\<exists>res. rx_loop s e = Some res" if "irq_inv blocks rest d0 e" "0 < frames (hw e)" for s e
    using that
  proof (induction "work_left (frames (hw e)) (quiet (hw e))" arbitrary: e s rule: less_induct)
    case less
    show ?case
      by (rule rx_loop_turn [OF less.prems(1) c left]) (use less in blast)
  qed
  then show ?thesis by (intro rx_loop_turn [OF i c left]) blast
qed

lemma irq_turn_returns:
  assumes i: "irq_inv blocks rest d0 d" and c: "live_chip frames quiet d0"
    and left: "card rest \<le> 252"
  shows "\<exists>res. irq_turn isrc d = Some res"
proof -
  obtain status d1 where 1: "rd SJA1000_SR d = (status, d1)" by fastforce
  obtain ab d2 where 2: "(if status = 0xFF then sja1000_is_absent d1 else (False, d1)) = (ab, d2)" by fastforce
  have i2: "irq_inv blocks rest d0 d2"
    using i irq_inv_rd [OF 1] 2 by (auto split: if_splits simp: irq_inv_absent)
  obtain d3 where 3: "irq_tx_done isrc status d2 = Some d3" "irq_inv blocks rest d0 d3"
    by (rule irq_inv_tx_done [OF i2])
  obtain gone s4 d4 where 4: "(if has_flag isrc IRQ_RI then rx_loop status d3 else Some (False, status, d3)) = Some (gone, s4, d4)"
    using rx_loop_returns [OF 3(2) c left, of status] by (cases "has_flag isrc IRQ_RI") auto
  have i4: "irq_inv blocks rest d0 d4"
    using 4 3(2) irq_inv_rx_loop by (auto split: if_splits)
  obtain ret skb d7 where b:
    "sja1000_err isrc s4 d4 = do { d8 \<leftarrow> netif_rx RX_FUEL skb d7; Some (ret, d8) }"
    "irq_inv blocks (rest \<union> skb_blocks skb) d0 d7" "live_skb (rest \<union> skb_blocks skb) skb" "\<not> is_echo skb"
    by (rule sja1000_err_buffer [OF i4 irq_inv_room [OF i4 left]])
  obtain d8 where "netif_rx RX_FUEL skb d7 = Some d8"
    by (rule irq_inv_netif_rx [OF b(2-4)])
  then have "\<exists>res. irq_errors isrc s4 d4 = Some res"
    using b(1) by (simp add: irq_errors_def)
  then show ?thesis
    using 1 2 3(1) 4 by (auto simp: irq_turn_def)
qed

lemma irq_loop_returns:
  assumes i: "irq_inv blocks rest d0 d" and c: "live_chip frames quiet d0"
    and left: "card rest \<le> 252"
  shows "\<exists>res. irq_loop k n d = Some res"
  using i
proof (induction k arbitrary: n d)
  case (Suc k)
  obtain isrc d1 where r: "rd SJA1000_IR d = (isrc, d1)" by fastforce
  have i1: "irq_inv blocks rest d0 d1" using Suc.prems irq_inv_rd [OF r] by simp
  obtain t d2 where t: "irq_turn isrc d1 = Some (t, d2)"
    using irq_turn_returns [OF i1 c left, of isrc] by auto
  have "irq_inv blocks rest d0 d2" by (rule irq_inv_turn [OF i1 t])
  then show ?case using Suc.IH r t by (cases t) auto
qed auto

lemma interrupt_returns_aux:
  assumes o: "owns blocks rest d" and "echo_clean d" and c: "live_chip frames quiet d"
    and left: "card rest \<le> 252"
  shows "\<exists>r d'. sja1000_interrupt d = Some (r, d')"
proof -
  have i: "irq_inv blocks rest d d" using assms by (simp add: irq_inv_def)
  let ?d = "case pre_irq d of None \<Rightarrow> d | Some f \<Rightarrow> d\<lparr>hw := f (hw d)\<rparr>"
  obtain ier d1 where 1: "rd SJA1000_IER ?d = (ier, d1)" by fastforce
  have i1: "irq_inv blocks rest d d1" using i irq_inv_rd [OF 1] by (simp add: irq_inv_hook)
  obtain n wake d2 where 2: "irq_loop SJA1000_MAX_IRQ 0 d1 = Some (n, wake, d2)"
    using irq_loop_returns [OF i1 c left, of SJA1000_MAX_IRQ 0] by auto
  show ?thesis using 1 2 by (cases "ier = IRQ_OFF") (auto simp: sja1000_interrupt_def)
qed

text \<open>
  C13: the interrupt handler returns, while frames keep arriving. On a chip that takes frames
  from a live bus, one in 20 accesses of the driver at most, with no error frame in the echo
  slot and at most 252 of the 256 blocks of the pool in use outside the device,
  \<^verbatim>\<open>sja1000_interrupt\<close> ends for every register content, and the pool is in order when it does.
  Nothing is assumed about the chip's reaction to writes other than the release command, or
  about the restart options.
\<close>

theorem interrupt_returns:
  assumes "owns blocks rest d" and "echo_clean d" and "live_chip frames quiet d" and "card rest \<le> 252"
  shows "\<exists>r d'. sja1000_interrupt d = Some (r, d') \<and> owns blocks rest d'"
  using interrupt_returns_aux [OF assms] irq_inv_interrupt [of blocks rest d d] assms(1,2)
  by (auto simp: irq_inv_def)

text \<open>
  A small chip for the witnesses: the frames in the receive buffer, each a standard frame with
  identifier 8 and two zero bytes, the accesses until the next frame, and the number of
  frames still to come on the bus.
\<close>

type_synonym sample_chip = "nat \<times> nat \<times> nat"

fun chip_tick :: "sample_chip \<Rightarrow> sample_chip" where
  "chip_tick (n, w, c) =
     (if 0 < w then (n, w - 1, c) else if 0 < c then (n + 1, FRAME_GAP, c - 1) else (n, w, c))"

definition chip_read :: "sample_chip \<Rightarrow> nat \<Rightarrow> u8 \<times> sample_chip" where
  "chip_read h r =
     (let h' = chip_tick h
      in (if r = SJA1000_SR \<or> r = SJA1000_IR then if 0 < fst h' then 1 else 0
          else if r = SJA1000_IER then 0xFF else if r = SJA1000_FI then 2
          else if r = SJA1000_ID1 then 1 else 0, h'))"

definition chip_write :: "sample_chip \<Rightarrow> nat \<Rightarrow> u8 \<Rightarrow> sample_chip" where
  "chip_write h r v = (if r = SJA1000_CMR \<and> v = CMD_RRB then chip_tick (fst h - 1, snd h) else h)"

definition bus_dev :: "sample_chip \<Rightarrow> sample_chip net_device" where
  "bus_dev h = net_device.make h chip_read chip_write None None (\<lambda>h. (7, chip_tick h)) True
     0 0 0 0 IFF_ECHO CAN_MTU 5 (stats vcan_dev) (can_stats vcan_dev) CAN_STATE_ERROR_ACTIVE 0 0x15F 0 None
     8000000 timing_250k zero_timing (Some sja1000_bittiming_const) None 0
     None None None (tdc vcan_dev) True True True [None] (pool vcan_dev)
     (fresh_queue 15) [\<lparr>mfilter = 0xFFFFFFFF, rx_queue = fresh_queue 1024\<rparr>] False False 0 0 0"

lemma chip_tick_access:
  "bus_access (fst h) (fst (snd h)) (fst (chip_tick h)) (fst (snd (chip_tick h)))"
  by (cases h) (auto simp: bus_access_def)

lemma bus_dev_ok:
  "owns {..<256} {} (bus_dev h)" "echo_clean (bus_dev h)" "live_chip fst (fst \<circ> snd) (bus_dev h)"
proof -
  show "owns {..<256} {} (bus_dev h)" "echo_clean (bus_dev h)"
    using vcan_dev_pool
    by (simp_all add: owns_def echo_blocks_def echo_clean_def bus_dev_def net_device.defs)
  have d: "read_reg (bus_dev h) = chip_read" "write_reg (bus_dev h) = chip_write"
    "clock_ms (bus_dev h) = (\<lambda>h. (7, chip_tick h))"
    by (simp_all add: bus_dev_def net_device.defs)
  have "bus_access (fst g - 1) (fst (snd g)) (fst (chip_write g SJA1000_CMR CMD_RRB))
      (fst (snd (chip_write g SJA1000_CMR CMD_RRB)))" for g
    using chip_tick_access [of "(fst g - 1, snd g)"] by (simp add: chip_write_def)
  then show "live_chip fst (fst \<circ> snd) (bus_dev h)"
    unfolding live_chip_def d
    by (simp add: chip_tick_access chip_read_def Let_def reg_defs)
qed

text \<open>Three frames stored and 40 to come, the first of them after five accesses.\<close>

theorem interrupt_returns_witness:
  "\<exists>r d'. sja1000_interrupt (bus_dev (3, 5, 40)) = Some (r, d') \<and> owns {..<256} {} d'"
  using interrupt_returns [OF bus_dev_ok] by simp


end
