(* ===== verification/Msg_Transfer.thy ===== *)
theory Msg_Transfer
  imports Sja1000_Irq
begin

unbundle bit_operations_syntax

text \<open>
  From one client to another: a message given to \<^verbatim>\<open>netif_tx\<close> becomes a frame, the frame
  becomes register contents (\<^verbatim>\<open>sja1000_start_xmit\<close>), the register contents become a frame
  again (\<^verbatim>\<open>sja1000_rx\<close>) and the frame a message (\<^verbatim>\<open>netif_rx\<close>). On a register file that is
  memory the way back is the inverse of the way out.
\<close>

section \<open>Blocks of registers\<close>

lemma memory_xmit_data:
  assumes "memory_chip d" and "unat dreg + length bs < 256"
  shows "xmit_data dreg bs d =
    d\<lparr>hw := (\<lambda>r. if unat dreg \<le> r \<and> r < unat dreg + length bs then bs ! (r - unat dreg) else hw d r)\<rparr>"
  using assms
proof (induction dreg bs d rule: xmit_data.induct)
  case (1 dreg d)
  have "(\<lambda>r. if unat dreg \<le> r \<and> r < unat dreg + length [] then [] ! (r - unat dreg) else hw d r) = hw d"
    by (auto simp: fun_eq_iff)
  then show ?case by simp
next
  case (2 dreg b bs d)
  have "unat dreg + 1 < 2 ^ LENGTH(8)" using 2(3) by simp
  then have u: "unat (dreg + 1) = unat dreg + 1"
    using unat_add_lem [of dreg 1] by simp
  have "xmit_data dreg (b # bs) d = xmit_data (dreg + 1) bs (d\<lparr>hw := (hw d)(unat dreg := b)\<rparr>)"
    using 2(2) by (simp add: memory_wr)
  also have "\<dots> = d\<lparr>hw := (\<lambda>r. if unat dreg \<le> r \<and> r < unat dreg + length (b # bs)
      then (b # bs) ! (r - unat dreg) else hw d r)\<rparr>"
    using 2(1) [of ] 2(2,3) u by (simp add: memory_wr fun_eq_iff nth_Cons' le_Suc_eq)
  finally show ?case .
qed

lemma memory_rx_bytes:
  assumes "memory_chip d" and "unat dreg + n < 256"
  shows "rx_bytes_loop n dreg d = (map (\<lambda>i. hw d (unat dreg + i)) [0..<n], d)"
  using assms(2)
proof (induction n arbitrary: dreg)
  case (Suc n)
  have "unat dreg + 1 < 2 ^ LENGTH(8)" using Suc.prems by simp
  then have u: "unat (dreg + 1) = unat dreg + 1"
    using unat_add_lem [of dreg 1] by simp
  have ih: "rx_bytes_loop n (dreg + 1) d = (map (\<lambda>i. hw d (unat dreg + 1 + i)) [0..<n], d)"
    using Suc.IH [of "dreg + 1"] Suc.prems unfolding u by simp
  have "map (\<lambda>i. hw d (unat dreg + i)) [0..<Suc n] =
      hw d (unat dreg) # map (\<lambda>i. hw d (unat dreg + 1 + i)) [0..<n]"
    by (rule nth_equalityI) (auto simp: nth_Cons' simp del: upt_Suc)
  then show ?case
    using ih memory_rd [OF assms(1)] by (simp del: upt_Suc)
qed simp

section \<open>Identifiers in registers\<close>

lemma id_masks:
  "(0x1FE00000 :: u32) = push_bit 21 (mask 8)" "(0x1FE000 :: u32) = push_bit 13 (mask 8)"
  "(0x1FE0 :: u32) = push_bit 5 (mask 8)" "(0x1F :: u32) = mask 5"
  "(0x7F8 :: u32) = push_bit 3 (mask 8)" "(0x7 :: u32) = mask 3"
  by (simp_all add: mask_eq_exp_minus_1 push_bit_eq_mult)

lemma id_byte:
  fixes i :: u32
  assumes "k \<le> 24"
  shows "push_bit k (ucast (ucast (drop_bit k (i AND push_bit k (mask 8))) :: u8)) = i AND push_bit k (mask 8)"
  by (rule bit_word_eqI) (use assms in \<open>auto simp: bit_simps\<close>)

lemma id_low_bits:
  fixes i :: u32
  assumes "k + l \<le> 8"
  shows "drop_bit k (ucast (ucast (push_bit k (i AND mask l)) :: u8)) = i AND mask l"
  by (rule bit_word_eqI) (use assms in \<open>auto simp: bit_simps\<close>)

lemma eff_id_registers:
  fixes i :: u32
  shows "push_bit 21 (ucast (ucast (drop_bit 21 (i AND 0x1FE00000)) :: u8)) OR
    push_bit 13 (ucast (ucast (drop_bit 13 (i AND 0x1FE000)) :: u8)) OR
    push_bit 5 (ucast (ucast (drop_bit 5 (i AND 0x1FE0)) :: u8)) OR
    drop_bit 3 (ucast (ucast (push_bit 3 (i AND 0x1F)) :: u8)) = i AND CAN_EFF_MASK" (is "?l = _")
proof -
  have "?l = (i AND 0x1FE00000) OR (i AND 0x1FE000) OR (i AND 0x1FE0) OR (i AND 0x1F)"
    using id_byte [of 21 i, folded id_masks] id_byte [of 13 i, folded id_masks]
      id_byte [of 5 i, folded id_masks] id_low_bits [of 3 5 i, folded id_masks] by simp
  also have "\<dots> = i AND 0x1FFFFFFF"
    unfolding bit.conj_disj_distrib [symmetric] by simp
  finally show ?thesis by (simp add: CAN_EFF_MASK_def)
qed

lemma sff_id_registers:
  fixes i :: u32
  shows "push_bit 3 (ucast (ucast (drop_bit 3 (i AND 0x7F8)) :: u8)) OR
    drop_bit 5 (ucast (ucast (push_bit 5 (i AND 0x7)) :: u8)) = i AND CAN_SFF_MASK" (is "?l = _")
proof -
  have "?l = (i AND 0x7F8) OR (i AND 0x7)"
    using id_byte [of 3 i, folded id_masks] id_low_bits [of 5 3 i, folded id_masks] by simp
  also have "\<dots> = i AND 0x7FF"
    unfolding bit.conj_disj_distrib [symmetric] by simp
  finally show ?thesis by (simp add: CAN_SFF_MASK_def)
qed

section \<open>The frame information byte\<close>

lemma dlc_bound: "cf_len cf \<le> CAN_MAX_DLEN \<Longrightarrow> can_get_cc_dlc cf mode \<le> 15"
  by (auto simp: can_get_cc_dlc_def CAN_MAX_DLEN_def CAN_MAX_RAW_DLC_def word_le_nat_alt)

lemma nibble:
  fixes x :: u8
  assumes "x \<le> 15"
  shows "x AND 0xF = x"
proof -
  have "unat x < 2 ^ 4" using assms by (simp add: word_le_nat_alt)
  then have "take_bit 4 x = x" by (rule unat_less_take_bit)
  then show ?thesis by (simp add: take_bit_eq_mask mask_eq_exp_minus_1)
qed

lemma xmit_fi_fields:
  assumes "cf_len cf \<le> CAN_MAX_DLEN"
  shows "has_flag (xmit_fi mode cf) SJA1000_FI_FF = has_flag (can_id cf) CAN_EFF_FLAG"
    "has_flag (xmit_fi mode cf) SJA1000_FI_RTR = has_flag (can_id cf) CAN_RTR_FLAG"
    "xmit_fi mode cf AND 0x0F = can_get_cc_dlc cf mode"
proof -
  let ?x = "can_get_cc_dlc cf mode"
  have x: "?x AND 0xF = ?x" by (rule nibble [OF dlc_bound [OF assms]])
  have "?x AND 0x80 = (?x AND 0xF) AND 0x80" "?x AND 0x40 = (?x AND 0xF) AND 0x40" unfolding x by simp_all
  then have z: "?x AND 0x80 = 0" "?x AND 0x40 = 0" by (simp_all add: and.assoc)
  show "has_flag (xmit_fi mode cf) SJA1000_FI_FF = has_flag (can_id cf) CAN_EFF_FLAG"
    "has_flag (xmit_fi mode cf) SJA1000_FI_RTR = has_flag (can_id cf) CAN_RTR_FLAG"
    "xmit_fi mode cf AND 0x0F = ?x"
    using x z by (auto simp: xmit_fi_def Let_def SJA1000_FI_FF_def SJA1000_FI_RTR_def bit.conj_disj_distrib2)
qed

section \<open>Frames in registers\<close>

text \<open>
  What survives of a frame on the wire: the identifier bits of its format with the format and
  remote flags, the length, the raw length code where it is enabled, and the payload.
\<close>

definition wire_id :: "u32 \<Rightarrow> u32" where
  "wire_id i =
     (if has_flag i CAN_EFF_FLAG then (i AND CAN_EFF_MASK) OR CAN_EFF_FLAG else i AND CAN_SFF_MASK) OR
     (if has_flag i CAN_RTR_FLAG then CAN_RTR_FLAG else 0)"

definition wire_frame :: "u32 \<Rightarrow> can_frame \<Rightarrow> can_frame" where
  "wire_frame mode cf =
     \<lparr>can_id = wire_id (can_id cf), cf_len = cf_len cf,
      cf_len8_dlc = (if CAN_MAX_DLEN < can_get_cc_dlc cf mode then can_get_cc_dlc cf mode else 0),
      cf_data = (if has_flag (can_id cf) CAN_RTR_FLAG then replicate 8 0
                 else take (unat (cf_len cf)) (cf_data cf) @ replicate (8 - unat (cf_len cf)) 0)\<rparr>"

text \<open>The registers after \<^verbatim>\<open>sja1000_start_xmit\<close> has written the frame.\<close>

definition payload_reg :: "can_frame \<Rightarrow> u8" where
  "payload_reg cf = (if has_flag (can_id cf) CAN_EFF_FLAG then SJA1000_EFF_BUF else SJA1000_SFF_BUF)"

lemma frame_registers:
  assumes mem: "memory_chip d" and len: "cf_len cf \<le> CAN_MAX_DLEN" "length (cf_data cf) = 8"
  defines "n \<equiv> unat (cf_len cf)" and "h \<equiv> hw (xmit_registers cf d)"
  shows "xmit_registers cf d = d\<lparr>hw := h\<rparr>" "h SJA1000_FI = xmit_fi (ctrlmode d) cf"
    "i < n \<Longrightarrow> h (unat (payload_reg cf) + i) = cf_data cf ! i"
    "has_flag (can_id cf) CAN_EFF_FLAG \<Longrightarrow>
       push_bit 21 (ucast (h SJA1000_ID1)) OR push_bit 13 (ucast (h SJA1000_ID2)) OR
       push_bit 5 (ucast (h SJA1000_ID3)) OR drop_bit 3 (ucast (h SJA1000_ID4)) = can_id cf AND CAN_EFF_MASK"
    "\<not> has_flag (can_id cf) CAN_EFF_FLAG \<Longrightarrow>
       push_bit 3 (ucast (h SJA1000_ID1)) OR drop_bit 5 (ucast (h SJA1000_ID2)) = can_id cf AND CAN_SFF_MASK"
proof -
  have n8: "n \<le> 8" using len(1) by (simp add: n_def CAN_MAX_DLEN_def word_le_nat_alt)
  have buf: "unat (payload_reg cf) + n < 256" using n8 by (simp add: payload_reg_def SJA1000_EFF_BUF_def SJA1000_SFF_BUF_def)
  have "fst (xmit_header (ctrlmode d) cf d) = payload_reg cf"
    by (simp add: xmit_header_def payload_reg_def Let_def)
  then obtain d1 where hd: "xmit_header (ctrlmode d) cf d = (payload_reg cf, d1)"
    by (metis prod.collapse)
  have d1: "d1 = d\<lparr>hw := hw d1\<rparr>" "memory_chip d1"
    using hw_only_xmit_header [OF hd] mem by (auto simp: hw_only_def)
  let ?bs = "take n (cf_data cf)"
  have "xmit_registers cf d = xmit_data (payload_reg cf) ?bs d1"
    by (simp add: xmit_registers_def hd n_def)
  also have "\<dots> = d1\<lparr>hw := (\<lambda>r. if unat (payload_reg cf) \<le> r \<and> r < unat (payload_reg cf) + length ?bs
      then ?bs ! (r - unat (payload_reg cf)) else hw d1 r)\<rparr>"
    by (rule memory_xmit_data) (use d1(2) buf n8 len(2) in auto)
  finally have x: "xmit_registers cf d = d1\<lparr>hw := (\<lambda>r. if unat (payload_reg cf) \<le> r \<and> r < unat (payload_reg cf) + n
      then ?bs ! (r - unat (payload_reg cf)) else hw d1 r)\<rparr>"
    using n8 len(2) by (simp add: min_def)
  then have h: "h r = (if unat (payload_reg cf) \<le> r \<and> r < unat (payload_reg cf) + n
      then ?bs ! (r - unat (payload_reg cf)) else hw d1 r)" for r
    by (simp add: h_def)
  show "xmit_registers cf d = d\<lparr>hw := h\<rparr>"
    unfolding h_def by (subst x, subst d1(1)) (simp add: x)
  show "i < n \<Longrightarrow> h (unat (payload_reg cf) + i) = cf_data cf ! i" by (simp add: h)
  have hd1: "hw d1 SJA1000_FI = xmit_fi (ctrlmode d) cf"
    using hd mem by (auto simp: xmit_header_def Let_def memory_wr reg_defs split: if_splits)
  then show "h SJA1000_FI = xmit_fi (ctrlmode d) cf"
    by (simp add: h payload_reg_def reg_defs)
  show "push_bit 21 (ucast (h SJA1000_ID1)) OR push_bit 13 (ucast (h SJA1000_ID2)) OR
       push_bit 5 (ucast (h SJA1000_ID3)) OR drop_bit 3 (ucast (h SJA1000_ID4)) = can_id cf AND CAN_EFF_MASK"
    if eff: "has_flag (can_id cf) CAN_EFF_FLAG"
    using hd mem eff eff_id_registers [of "can_id cf"]
    by (auto simp: h payload_reg_def xmit_header_def Let_def memory_wr reg_defs)
  show "push_bit 3 (ucast (h SJA1000_ID1)) OR drop_bit 5 (ucast (h SJA1000_ID2)) = can_id cf AND CAN_SFF_MASK"
    if sff: "\<not> has_flag (can_id cf) CAN_EFF_FLAG"
    using hd mem sff sff_id_registers [of "can_id cf"]
    by (auto simp: h payload_reg_def xmit_header_def Let_def memory_wr reg_defs)
qed

lemma set_cc_len_of_dlc:
  assumes "cf_len cf \<le> CAN_MAX_DLEN"
  shows "can_frame_set_cc_len zero_frame (can_get_cc_dlc cf mode) mode =
    zero_frame\<lparr>cf_len := cf_len cf,
      cf_len8_dlc := (if CAN_MAX_DLEN < can_get_cc_dlc cf mode then can_get_cc_dlc cf mode else 0)\<rparr>"
  using assms
  by (auto simp: can_frame_set_cc_len_def can_get_cc_dlc_def can_cc_dlc2len_def zero_frame_def min_def)

lemma rx_frame_of_registers:
  assumes mem: "memory_chip d" and len: "cf_len cf \<le> CAN_MAX_DLEN" "length (cf_data cf) = 8"
  shows "fst (rx_frame zero_frame (xmit_registers cf d)) = wire_frame (ctrlmode d) cf"
proof -
  define n where "n = unat (cf_len cf)"
  define h where "h = hw (xmit_registers cf d)"
  define x where "x = d\<lparr>hw := h\<rparr>"
  note regs = frame_registers [OF mem len, folded n_def h_def]
  have n8: "n \<le> 8" using len(1) by (simp add: n_def CAN_MAX_DLEN_def word_le_nat_alt)
  have rd: "rd r x = (h r, x)" for r using memory_rd [of x r] mem by (simp add: x_def)
  have fi: "h SJA1000_FI = xmit_fi (ctrlmode d) cf" by (rule regs(2))
  note fields = xmit_fi_fields [OF len(1), of "ctrlmode d"]
  define i where "i = (if has_flag (can_id cf) CAN_EFF_FLAG then (can_id cf AND CAN_EFF_MASK) OR CAN_EFF_FLAG
     else can_id cf AND CAN_SFF_MASK)"
  have rid: "rx_id (xmit_fi (ctrlmode d) cf) x = (i, x)"
  proof (cases "has_flag (can_id cf) CAN_EFF_FLAG")
    case True
    then show ?thesis
      using fields(1) regs(4) [OF True, symmetric] by (simp add: rx_id_def rd or.assoc i_def)
  next
    case False
    then show ?thesis using fields(1) regs(5) [OF False] by (simp add: rx_id_def rd i_def)
  qed
  have bytes: "rx_bytes_loop n (payload_reg cf) x = (take n (cf_data cf), x)"
  proof -
    have "memory_chip x" using mem by (simp add: x_def)
    moreover have "unat (payload_reg cf) + n < 256"
      using n8 by (simp add: payload_reg_def SJA1000_EFF_BUF_def SJA1000_SFF_BUF_def)
    ultimately have "rx_bytes_loop n (payload_reg cf) x = (map (\<lambda>i. hw x (unat (payload_reg cf) + i)) [0..<n], x)"
      by (rule memory_rx_bytes)
    moreover have "map (\<lambda>i. hw x (unat (payload_reg cf) + i)) [0..<n] = take n (cf_data cf)"
      by (rule nth_equalityI) (use regs(3) n8 len(2) in \<open>auto simp: x_def\<close>)
    ultimately show ?thesis by simp
  qed
  have reg: "(if has_flag (xmit_fi (ctrlmode d) cf) SJA1000_FI_FF then SJA1000_EFF_BUF else SJA1000_SFF_BUF) =
      payload_reg cf"
    by (simp only: fields(1) payload_reg_def)
  have mode: "ctrlmode x = ctrlmode d" by (simp add: x_def)
  have wid: "wire_id (can_id cf) = i OR (if has_flag (can_id cf) CAN_RTR_FLAG then CAN_RTR_FLAG else 0)"
    by (simp only: wire_id_def i_def)
  have "fst (rx_frame zero_frame x) = wire_frame (ctrlmode d) cf"
    unfolding rx_frame_def Let_def rd fi prod.case rid mode fields(2,3) reg set_cc_len_of_dlc [OF len(1)]
      wire_frame_def wid
    using bytes by (simp add: n_def zero_frame_def)
  then show ?thesis using regs(1) by (simp add: x_def)
qed

section \<open>Messages\<close>

text \<open>
  A message as a client must give it: at most eight bytes, an extended identifier of 29 bits or
  a standard identifier in bits 18 to 28.
\<close>

definition well_formed_msg :: "can_msg \<Rightarrow> bool" where
  "well_formed_msg m \<longleftrightarrow> m_len m \<le> CAN_MSG_DATA_MAX \<and> length (m_dat m) = CAN_MSG_DATA_MAX \<and>
     m_mid m AND CAN_EFF_MASK = m_mid m \<and>
     (\<not> m_is_extended_mid m \<longrightarrow> push_bit 18 (drop_bit 18 (m_mid m)) = m_mid m)"

lemma mid_no_flags:
  assumes "m AND CAN_EFF_MASK = m"
  shows "\<not> has_flag m CAN_EFF_FLAG" "\<not> has_flag m CAN_RTR_FLAG" "\<not> has_flag m CAN_ERR_FLAG"
proof -
  have *: "m AND f = m AND (CAN_EFF_MASK AND f)" for f
    by (subst assms [symmetric]) (simp add: and.assoc)
  have "CAN_EFF_MASK AND CAN_EFF_FLAG = 0" "CAN_EFF_MASK AND CAN_RTR_FLAG = 0" "CAN_EFF_MASK AND CAN_ERR_FLAG = 0"
    by (simp_all add: flag_defs)
  then show "\<not> has_flag m CAN_EFF_FLAG" "\<not> has_flag m CAN_RTR_FLAG" "\<not> has_flag m CAN_ERR_FLAG"
    using * [of CAN_EFF_FLAG] * [of CAN_RTR_FLAG] * [of CAN_ERR_FLAG] by simp_all
qed

lemma std_mid_id:
  assumes "(m :: u32) AND CAN_EFF_MASK = m"
  shows "drop_bit 18 m AND CAN_SFF_MASK = drop_bit 18 m"
proof (rule bit_word_eqI)
  fix n
  have masks: "CAN_SFF_MASK = mask 11" "CAN_EFF_MASK = mask 29"
    by (simp_all add: flag_defs mask_eq_exp_minus_1)
  have b: "n < 11" if "bit m (18 + n)"
  proof -
    have "bit (m AND mask 29) (18 + n)" using that assms unfolding masks by simp
    then show ?thesis by (simp add: bit_and_iff bit_mask_iff)
  qed
  show "bit (drop_bit 18 m AND CAN_SFF_MASK) n = bit (drop_bit 18 m) n"
    using b by (auto simp: masks bit_simps)
qed

lemma wire_id_of_tx:
  assumes w: "well_formed_msg m" and t: "tx_frame m = Some cf"
  shows "wire_id (can_id cf) = can_id cf" "\<not> has_flag (can_id cf) CAN_RTR_FLAG"
    "has_flag (can_id cf) CAN_EFF_FLAG = m_is_extended_mid m"
    "can_id cf AND CAN_ERR_MASK = (if m_is_extended_mid m then m_mid m else drop_bit 18 (m_mid m))"
proof -
  have mask: "m_mid m AND CAN_EFF_MASK = m_mid m" using w by (simp add: well_formed_msg_def)
  note nf = mid_no_flags [OF mask]
  have cf: "can_id cf = (if m_is_extended_mid m then m_mid m OR CAN_EFF_FLAG else drop_bit 18 (m_mid m))"
    using t by (auto simp: tx_frame_def split: if_splits)
  have z: "CAN_EFF_FLAG AND CAN_EFF_MASK = 0" "CAN_EFF_FLAG AND CAN_RTR_FLAG = 0" "CAN_EFF_FLAG AND CAN_EFF_FLAG \<noteq> 0"
    "CAN_ERR_MASK = CAN_EFF_MASK" "CAN_SFF_MASK AND CAN_EFF_FLAG = 0" "CAN_SFF_MASK AND CAN_RTR_FLAG = 0"
    "CAN_SFF_MASK AND CAN_EFF_MASK = CAN_SFF_MASK"
    by (simp_all add: flag_defs)
  have std: "drop_bit 18 (m_mid m) AND f = drop_bit 18 (m_mid m) AND (CAN_SFF_MASK AND f)" for f
    by (subst std_mid_id [OF mask, symmetric]) (simp add: and.assoc)
  have s: "drop_bit 18 (m_mid m) AND CAN_EFF_FLAG = 0" "drop_bit 18 (m_mid m) AND CAN_RTR_FLAG = 0"
    "drop_bit 18 (m_mid m) AND CAN_EFF_MASK = drop_bit 18 (m_mid m)"
    using std [of CAN_EFF_FLAG] std [of CAN_RTR_FLAG] std [of CAN_EFF_MASK] z std_mid_id [OF mask] by simp_all
  have e: "(m_mid m OR CAN_EFF_FLAG) AND CAN_EFF_MASK = m_mid m" "(m_mid m OR CAN_EFF_FLAG) AND CAN_RTR_FLAG = 0"
    "(m_mid m OR CAN_EFF_FLAG) AND CAN_EFF_FLAG \<noteq> 0"
    using mask nf z by (simp_all add: bit.conj_disj_distrib2)
  show "wire_id (can_id cf) = can_id cf" "\<not> has_flag (can_id cf) CAN_RTR_FLAG"
    "has_flag (can_id cf) CAN_EFF_FLAG = m_is_extended_mid m"
    "can_id cf AND CAN_ERR_MASK = (if m_is_extended_mid m then m_mid m else drop_bit 18 (m_mid m))"
    using s e std_mid_id [OF mask] unfolding cf z(4) wire_id_def by simp_all
qed

text \<open>
  C2: a message sent by a client of one device arrives at a client of another as it was sent.
  For every well-formed message, the frame \<^verbatim>\<open>netif_tx\<close> builds, written to the transmit
  registers by \<^verbatim>\<open>sja1000_start_xmit\<close>, read back from the same register contents by
  \<^verbatim>\<open>sja1000_rx\<close> and turned into a message by \<^verbatim>\<open>netif_rx\<close>, is the message itself, with the
  bytes beyond its length zero, the receiver's time stamp and the remote mark.
\<close>

theorem message_round_trip:
  assumes w: "well_formed_msg m" and mem: "memory_chip d" and t: "tx_frame m = Some cf"
  shows "rx_canmsg now (skb\<lparr>frame := fst (rx_frame zero_frame (xmit_registers cf d))\<rparr>) =
    m\<lparr>m_dat := take (m_len m) (m_dat m) @ replicate (8 - m_len m) 0,
      m_timestamp := now, m_is_remote_frame := \<not> is_echo skb\<rparr>"
proof -
  have len: "m_len m \<le> 8" "length (m_dat m) = 8" using w by (simp_all add: well_formed_msg_def CAN_MSG_DATA_MAX_def)
  have cf: "cf_len cf = of_nat (m_len m)"
    "cf_data cf = take (m_len m) (m_dat m) @ replicate (8 - m_len m) 0"
    using t by (auto simp: tx_frame_def zero_frame_def split: if_splits)
  have u: "unat (of_nat (m_len m) :: u8) = m_len m" using len(1) by (simp add: unat_of_nat)
  have f: "fst (rx_frame zero_frame (xmit_registers cf d)) = wire_frame (ctrlmode d) cf"
    by (rule rx_frame_of_registers [OF mem]) (use cf len u in \<open>simp_all add: CAN_MAX_DLEN_def word_le_nat_alt\<close>)
  note ids = wire_id_of_tx [OF w t]
  have dat: "map (\<lambda>i. (take (m_len m) (m_dat m) @ replicate (8 - m_len m) 0) ! i) [0..<8] =
      take (m_len m) (m_dat m) @ replicate (8 - m_len m) 0"
    using len map_nth [of "take (m_len m) (m_dat m) @ replicate (8 - m_len m) 0"] by simp
  have wf: "cf_data (wire_frame (ctrlmode d) cf) = take (m_len m) (m_dat m) @ replicate (8 - m_len m) 0"
    "can_id (wire_frame (ctrlmode d) cf) = can_id cf" "cf_len (wire_frame (ctrlmode d) cf) = of_nat (m_len m)"
    using ids(1,2) cf u len by (simp_all add: wire_frame_def min_def)
  have mid: "(if m_is_extended_mid m then m_mid m else push_bit 18 (drop_bit 18 (m_mid m))) = m_mid m"
    using w by (simp add: well_formed_msg_def)
  show ?thesis
    unfolding f rx_canmsg_def Let_def
    using ids(3,4) wf dat u mid by (simp add: CAN_MSG_DATA_MAX_def del: upt_Suc split: if_splits)
qed

definition three_bytes :: can_msg where
  "three_bytes = blank_msg\<lparr>m_dat := [1, 2, 3, 4, 5, 6, 7, 8], m_len := 3, m_mid := 0x48C0000\<rparr>"

theorem message_round_trip_witness:
  "\<exists>cf. tx_frame three_bytes = Some cf \<and>
     m_mid (rx_canmsg 9 ((vcan_skb 0)\<lparr>frame := fst (rx_frame zero_frame (xmit_registers cf vcan_dev))\<rparr>)) = 0x48C0000 \<and>
     m_dat (rx_canmsg 9 ((vcan_skb 0)\<lparr>frame := fst (rx_frame zero_frame (xmit_registers cf vcan_dev))\<rparr>)) =
       [1, 2, 3, 0, 0, 0, 0, 0]"
proof -
  have w: "well_formed_msg three_bytes"
    by (simp add: well_formed_msg_def three_bytes_def blank_msg_def CAN_MSG_DATA_MAX_def CAN_EFF_MASK_def
        drop_bit_eq_div push_bit_eq_mult)
  have mem: "memory_chip vcan_dev" by (simp add: memory_chip_def vcan_dev_def)
  obtain cf where cf: "tx_frame three_bytes = Some cf"
    by (simp add: tx_frame_def three_bytes_def blank_msg_def CAN_MSG_DATA_MAX_def)
  from message_round_trip [OF w mem cf, of 9 "vcan_skb 0"] cf show ?thesis
    by (simp add: three_bytes_def blank_msg_def numeral_eq_Suc)
qed

end
