(* ===== verification/Linked_List.thy ===== *)
theory Linked_List
  imports Prelude "HOL-Library.Monad_Syntax"
begin

text \<open>
  The doubly linked lists the program keeps its device sessions, client sessions, resource
  managers and blocked clients in. The C code writes the same four pieces of pointer code out
  for each of them: walk to the last cell and link a new one behind it, walk to the first cell
  with a property, unlink a given cell by cases on its two neighbours, and walk the list to
  unlink or free cells. They are modelled here once, over a store of cells; a dereference of
  NULL or of a freed cell, and a walk that never ends, are \<open>None\<close>. The operations are shown
  to implement operations on lists, and the interface \<open>registry\<close> states what their clients
  rely on.
\<close>

section \<open>Cells and operations\<close>

record 'a cell =
  c_prev :: ptr
  c_next :: ptr
  c_item :: 'a

type_synonym 'a store = "addr \<Rightarrow> 'a cell option"

record 'a dlist =
  dl_root :: ptr
  dl_cells :: "'a store"

definition dl_empty :: "'a dlist" where
  "dl_empty = \<lparr>dl_root = None, dl_cells = Map.empty\<rparr>"

text \<open>The loop \<^verbatim>\<open>while (last->next != NULL) last = last->next\<close>.\<close>

partial_function (option) last_cell :: "'a store \<Rightarrow> addr \<Rightarrow> addr option" where
  "last_cell h a =
     (case h a of
        None \<Rightarrow> None
      | Some c \<Rightarrow> (case c_next c of None \<Rightarrow> Some a | Some b \<Rightarrow> last_cell h b))"

definition append_cell :: "'a \<Rightarrow> addr \<Rightarrow> 'a dlist \<Rightarrow> 'a dlist option" where
  "append_cell x a L =
     (case dl_root L of
        None \<Rightarrow> Some (L\<lparr>dl_root := Some a,
                        dl_cells := (dl_cells L)(a \<mapsto> \<lparr>c_prev = None, c_next = None, c_item = x\<rparr>)\<rparr>)
      | Some r \<Rightarrow> do {
          l \<leftarrow> last_cell (dl_cells L) r;
          c \<leftarrow> dl_cells L l;
          Some (L\<lparr>dl_cells := (dl_cells L)(l \<mapsto> c\<lparr>c_next := Some a\<rparr>,
                                a \<mapsto> \<lparr>c_prev = Some l, c_next = None, c_item = x\<rparr>)\<rparr>) })"

text \<open>The loop \<^verbatim>\<open>while (location != NULL)\<close> that returns the first cell with a property.\<close>

partial_function (option) find_cell :: "('a \<Rightarrow> bool) \<Rightarrow> 'a store \<Rightarrow> ptr \<Rightarrow> ptr option" where
  "find_cell P h loc =
     (case loc of
        None \<Rightarrow> Some None
      | Some a \<Rightarrow>
          (case h a of
             None \<Rightarrow> None
           | Some c \<Rightarrow> if P (c_item c) then Some (Some a) else find_cell P h (c_next c)))"

definition find_first :: "('a \<Rightarrow> bool) \<Rightarrow> 'a dlist \<Rightarrow> ptr option" where
  "find_first P L = find_cell P (dl_cells L) (dl_root L)"

definition set_next :: "addr \<Rightarrow> ptr \<Rightarrow> 'a dlist \<Rightarrow> 'a dlist option" where
  "set_next a n L =
     (case dl_cells L a of
        None \<Rightarrow> None
      | Some c \<Rightarrow> Some (L\<lparr>dl_cells := (dl_cells L)(a \<mapsto> c\<lparr>c_next := n\<rparr>)\<rparr>))"

definition set_prev :: "addr \<Rightarrow> ptr \<Rightarrow> 'a dlist \<Rightarrow> 'a dlist option" where
  "set_prev a p L =
     (case dl_cells L a of
        None \<Rightarrow> None
      | Some c \<Rightarrow> Some (L\<lparr>dl_cells := (dl_cells L)(a \<mapsto> c\<lparr>c_prev := p\<rparr>)\<rparr>))"

definition free_cell :: "addr \<Rightarrow> 'a dlist \<Rightarrow> 'a dlist" where
  "free_cell a L = L\<lparr>dl_cells := (dl_cells L)(a := None)\<rparr>"

text \<open>The four cases on the neighbours of a cell that is about to be destroyed.\<close>

definition unlink_cell :: "addr \<Rightarrow> 'a dlist \<Rightarrow> 'a dlist option" where
  "unlink_cell a L =
     (case dl_cells L a of
        None \<Rightarrow> None
      | Some c \<Rightarrow>
          (case (c_prev c, c_next c) of
             (Some p, Some n) \<Rightarrow> do { L1 \<leftarrow> set_next p (Some n) L; set_prev n (Some p) L1 }
           | (Some p, None) \<Rightarrow> set_next p None L
           | (None, Some n) \<Rightarrow> do { L1 \<leftarrow> set_prev n None L; Some (L1\<lparr>dl_root := Some n\<rparr>) }
           | (None, None) \<Rightarrow> Some (L\<lparr>dl_root := None\<rparr>)))"

definition delete_cell :: "addr \<Rightarrow> 'a dlist \<Rightarrow> 'a dlist option" where
  "delete_cell a L = do { L1 \<leftarrow> unlink_cell a L; Some (free_cell a L1) }"

text \<open>
  The loop of \<^verbatim>\<open>remove_blocked_client\<close>: every cell with the property is unlinked and freed. Its
  unlinking asks for the previous cell only and sets the root to the next cell first.
\<close>

definition unlink_walking :: "addr \<Rightarrow> 'a dlist \<Rightarrow> 'a dlist option" where
  "unlink_walking a L =
     (case dl_cells L a of
        None \<Rightarrow> None
      | Some c \<Rightarrow>
          (case c_prev c of
             None \<Rightarrow>
               (let L1 = L\<lparr>dl_root := c_next c\<rparr>
                in case c_next c of None \<Rightarrow> Some L1 | Some n \<Rightarrow> set_prev n None L1)
           | Some p \<Rightarrow> do {
               L1 \<leftarrow> set_next p (c_next c) L;
               (case c_next c of None \<Rightarrow> Some L1 | Some n \<Rightarrow> set_prev n (Some p) L1) }))"

partial_function (option) remove_cells ::
  "('a \<Rightarrow> bool) \<Rightarrow> ptr \<Rightarrow> 'a dlist \<Rightarrow> 'a dlist option" where
  "remove_cells P loc L =
     (case loc of
        None \<Rightarrow> Some L
      | Some a \<Rightarrow>
          (case dl_cells L a of
             None \<Rightarrow> None
           | Some c \<Rightarrow>
               if P (c_item c)
               then do { L1 \<leftarrow> unlink_walking a L; remove_cells P (c_next c) (free_cell a L1) }
               else remove_cells P (c_next c) L))"

definition remove_all :: "('a \<Rightarrow> bool) \<Rightarrow> 'a dlist \<Rightarrow> 'a dlist option" where
  "remove_all P L = remove_cells P (dl_root L) L"

text \<open>The loop of the two functions that free a whole list.\<close>

partial_function (option) free_all :: "'a dlist \<Rightarrow> 'a dlist option" where
  "free_all L =
     (case dl_root L of
        None \<Rightarrow> Some L
      | Some a \<Rightarrow>
          (case dl_cells L a of
             None \<Rightarrow> None
           | Some c \<Rightarrow> free_all ((free_cell a L)\<lparr>dl_root := c_next c\<rparr>)))"

text \<open>A write to the contents of a cell.\<close>

definition update_cell :: "addr \<Rightarrow> ('a \<Rightarrow> 'a) \<Rightarrow> 'a dlist \<Rightarrow> 'a dlist option" where
  "update_cell a f L =
     (case dl_cells L a of
        None \<Rightarrow> None
      | Some c \<Rightarrow> Some (L\<lparr>dl_cells := (dl_cells L)(a \<mapsto> c\<lparr>c_item := f (c_item c)\<rparr>)\<rparr>))"

definition cell_item :: "addr \<Rightarrow> 'a dlist \<Rightarrow> 'a option" where
  "cell_item a L = map_option c_item (dl_cells L a)"

section \<open>The list a store represents\<close>

text \<open>
  \<open>lseg h p r xs q e\<close>: from \<open>r\<close> (whose previous cell is \<open>p\<close>) the cells of \<open>xs\<close> follow; the
  last of them is \<open>q\<close> and its next pointer is \<open>e\<close>.
\<close>

fun lseg :: "'a store \<Rightarrow> ptr \<Rightarrow> ptr \<Rightarrow> (addr \<times> 'a) list \<Rightarrow> ptr \<Rightarrow> ptr \<Rightarrow> bool" where
  "lseg h p r [] q e \<longleftrightarrow> p = q \<and> r = e"
| "lseg h p r ((a, x) # xs) q e \<longleftrightarrow>
     r = Some a \<and>
     (case h a of None \<Rightarrow> False
      | Some c \<Rightarrow> c_prev c = p \<and> c_item c = x \<and> lseg h (Some a) (c_next c) xs q e)"

text \<open>
  The list \<open>xs\<close> is in the store and everything else in the store is \<open>g\<close>: several lists of one
  kind (the clients of each device) share a store.
\<close>

definition apart :: "'a store \<Rightarrow> 'a dlist \<Rightarrow> addr set \<Rightarrow> bool" where
  "apart g L S \<longleftrightarrow> (\<forall>b\<in>S. g b = None) \<and> (\<forall>b. b \<notin> S \<longrightarrow> dl_cells L b = g b)"

definition dl_rel :: "'a store \<Rightarrow> 'a dlist \<Rightarrow> (addr \<times> 'a) list \<Rightarrow> bool" where
  "dl_rel g L xs \<longleftrightarrow>
     distinct (map fst xs) \<and> (\<exists>q. lseg (dl_cells L) None (dl_root L) xs q None) \<and>
     apart g L (fst ` set xs)"

lemma lseg_Cons [simp]:
  "lseg h p r ((a, x) # xs) q e \<longleftrightarrow>
     r = Some a \<and> (\<exists>n. h a = Some \<lparr>c_prev = p, c_next = n, c_item = x\<rparr> \<and> lseg h (Some a) n xs q e)"
proof (cases "h a")
  case (Some c)
  then show ?thesis by (cases c) auto
qed simp

declare lseg.simps(2) [simp del]

lemma lseg_append:
  "lseg h p r (xs @ ys) q e \<longleftrightarrow> (\<exists>m n. lseg h p r xs m n \<and> lseg h m n ys q e)"
proof (induction xs arbitrary: p r)
  case (Cons y xs)
  show ?case by (cases y) (auto simp: Cons.IH)
qed simp

lemma lseg_other [simp]:
  assumes "a \<notin> fst ` set xs"
  shows "lseg (h(a := v)) p r xs q e = lseg h p r xs q e"
  using assms
proof (induction xs arbitrary: p r)
  case (Cons y xs)
  then show ?case by (cases y) simp
qed simp

lemma lseg_snoc:
  "lseg h p r (xs @ [(a, x)]) q e \<longleftrightarrow>
     q = Some a \<and> (\<exists>m. lseg h p r xs m (Some a) \<and>
       h a = Some \<lparr>c_prev = m, c_next = e, c_item = x\<rparr>)"
  by (auto simp: lseg_append)

lemma last_cell_step:
  "h a = Some c \<Longrightarrow>
   last_cell h a = (case c_next c of None \<Rightarrow> Some a | Some b \<Rightarrow> last_cell h b)"
  by (subst last_cell.simps) simp

lemma lseg_last_cell:
  "lseg h p (Some r) xs q None \<Longrightarrow> xs \<noteq> [] \<Longrightarrow> last_cell h r = Some (fst (last xs))"
proof (induction xs arbitrary: p r)
  case (Cons y ys)
  obtain a x where y: "y = (a, x)" by (cases y)
  obtain n where n: "h r = Some \<lparr>c_prev = p, c_next = n, c_item = x\<rparr>" "a = r"
    "lseg h (Some r) n ys q None"
    using Cons.prems(1) unfolding y lseg_Cons by blast
  show ?case
  proof (cases ys)
    case Nil
    then show ?thesis using n(2,3) by (simp add: last_cell_step [of h r, OF n(1)] y)
  next
    case ys: (Cons z zs)
    then obtain b where b: "n = Some b"
      using n(3) by (cases z) simp
    have "last_cell h b = Some (fst (last ys))"
      using Cons.IH [of "Some r" b] n(3) b ys by simp
    then show ?thesis
      using b ys by (simp add: last_cell_step [of h r, OF n(1)])
  qed
qed simp

text \<open>Where the cells around one cell of the list are.\<close>

lemma lseg_first: "lseg h p r xs q e \<Longrightarrow> r = (if xs = [] then e else Some (fst (hd xs)))"
  by (cases xs) auto

lemma lseg_last: "lseg h p r xs q e \<Longrightarrow> q = (if xs = [] then p else Some (fst (last xs)))"
  by (cases xs rule: rev_cases) (auto simp: lseg_snoc)

lemma lseg_mid:
  "lseg h p r (ys @ (a, x) # zs) q e \<longleftrightarrow>
     (\<exists>m n. lseg h p r ys m (Some a) \<and> h a = Some \<lparr>c_prev = m, c_next = n, c_item = x\<rparr> \<and>
            lseg h (Some a) n zs q e)"
  by (auto simp: lseg_append)

lemma dl_rel_in:
  assumes "dl_rel g L xs" and "a \<in> fst ` set xs"
  shows "dl_cells L a \<noteq> None"
proof -
  obtain x ys zs where "xs = ys @ (a, x) # zs" using assms(2) by (auto simp: in_set_conv_decomp)
  with assms(1) show ?thesis by (auto simp: dl_rel_def lseg_mid)
qed

lemma dl_rel_empty [simp]: "dl_rel Map.empty dl_empty []"
  by (simp add: dl_rel_def dl_empty_def apart_def)

lemma dl_rel_item:
  assumes "dl_rel g L xs" and "(a, x) \<in> set xs"
  shows "cell_item a L = Some x"
proof -
  obtain ys zs where "xs = ys @ (a, x) # zs" using assms(2) by (auto simp: in_set_conv_decomp)
  with assms(1) show ?thesis by (auto simp: dl_rel_def lseg_mid cell_item_def)
qed

lemma dl_rel_fresh:
  "dl_rel g L xs \<Longrightarrow> g a = None \<Longrightarrow> dl_cells L a = None \<longleftrightarrow> a \<notin> fst ` set xs"
  using dl_rel_in [of g L xs a] unfolding dl_rel_def apart_def by metis

section \<open>The operations on the list\<close>

lemma append_cell_rel:
  assumes "dl_rel g L xs" and "dl_cells L a = None"
  shows "\<exists>L'. append_cell x a L = Some L' \<and> dl_rel g L' (xs @ [(a, x)])"
proof (cases xs rule: rev_cases)
  case Nil
  then show ?thesis using assms by (auto simp: dl_rel_def apart_def append_cell_def)
next
  case (snoc ys y)
  obtain l z where y: "y = (l, z)" by force
  let ?h = "dl_cells L"
  obtain q where q: "lseg ?h None (dl_root L) (ys @ [(l, z)]) q None"
    using assms by (auto simp: dl_rel_def snoc y)
  then obtain r m where r: "dl_root L = Some r" and m: "lseg ?h None (Some r) ys m (Some l)"
    "?h l = Some \<lparr>c_prev = m, c_next = None, c_item = z\<rparr>"
    by (cases "dl_root L") (cases ys; auto simp: lseg_snoc)+
  have last: "last_cell ?h r = Some l"
    using lseg_last_cell [of ?h None r "ys @ [(l, z)]" q] q r by simp
  have "a \<notin> fst ` set xs"
    using dl_rel_in [OF assms(1)] assms(2) by blast
  then have d: "l \<notin> fst ` set ys" "a \<noteq> l" "a \<notin> fst ` set ys" "distinct (map fst ys)"
    using assms(1) by (auto simp: dl_rel_def snoc y)
  have "lseg (?h(l \<mapsto> \<lparr>c_prev = m, c_next = Some a, c_item = z\<rparr>,
                 a \<mapsto> \<lparr>c_prev = Some l, c_next = None, c_item = x\<rparr>)) None (Some r)
          ((ys @ [(l, z)]) @ [(a, x)]) (Some a) None"
    using d m by (auto simp: lseg_append)
  then show ?thesis
    using assms d r last m by (auto simp: append_cell_def dl_rel_def apart_def snoc y)
qed

lemma find_cell_lseg:
  "lseg h p r xs q None \<Longrightarrow> find_cell P h r = Some (map_option fst (List.find (\<lambda>y. P (snd y)) xs))"
proof (induction xs arbitrary: p r)
  case Nil
  then show ?case by (subst find_cell.simps) simp
next
  case (Cons y ys)
  obtain a x where y: "y = (a, x)" by force
  show ?case
    using Cons.prems Cons.IH by (subst find_cell.simps) (auto simp: y)
qed

lemma find_first_rel:
  "dl_rel g L xs \<Longrightarrow> find_first P L = Some (map_option fst (List.find (\<lambda>y. P (snd y)) xs))"
  by (auto simp: dl_rel_def find_first_def find_cell_lseg)

lemma unlink_walking_eq: "unlink_walking a L = unlink_cell a L"
  by (auto simp: unlink_walking_def unlink_cell_def set_prev_def set_next_def Let_def
      split: option.splits Option.bind_splits)

lemma dl_rel_split:
  assumes "dl_rel g L xs" and "a \<in> fst ` set xs"
  obtains ys x zs m n q where "xs = ys @ (a, x) # zs"
    and "lseg (dl_cells L) None (dl_root L) ys m (Some a)"
    and "dl_cells L a = Some \<lparr>c_prev = m, c_next = n, c_item = x\<rparr>"
    and "lseg (dl_cells L) (Some a) n zs q None"
    and "distinct (map fst ys)" and "distinct (map fst zs)"
    and "a \<notin> fst ` set ys" and "a \<notin> fst ` set zs" and "fst ` set ys \<inter> fst ` set zs = {}"
    and "apart g L (insert a (fst ` set ys \<union> fst ` set zs))"
proof -
  obtain ys x zs where xs: "xs = ys @ (a, x) # zs"
    using assms(2) by (auto simp: in_set_conv_decomp)
  obtain m n q where "lseg (dl_cells L) None (dl_root L) ys m (Some a)"
    "dl_cells L a = Some \<lparr>c_prev = m, c_next = n, c_item = x\<rparr>"
    "lseg (dl_cells L) (Some a) n zs q None"
    using assms(1) unfolding dl_rel_def xs lseg_mid by blast
  from that [OF xs this] show ?thesis
    using assms(1) by (auto simp: dl_rel_def xs image_Un)
qed

lemma delete_cell_lseg:
  assumes "lseg (dl_cells L) None (dl_root L) ys m (Some a)"
    and "dl_cells L a = Some \<lparr>c_prev = m, c_next = n, c_item = x\<rparr>"
    and "lseg (dl_cells L) (Some a) n zs q None"
    and "distinct (map fst ys)" "distinct (map fst zs)" "a \<notin> fst ` set ys" "a \<notin> fst ` set zs"
      "fst ` set ys \<inter> fst ` set zs = {}"
  shows "\<exists>L1 q'. unlink_cell a L = Some L1 \<and>
    lseg (dl_cells (free_cell a L1)) None (dl_root (free_cell a L1)) ys m n \<and>
    lseg (dl_cells (free_cell a L1)) m n zs q' None"
proof (cases ys rule: rev_cases)
  case Nil
  show ?thesis
  proof (cases zs)
    case (Cons z zs')
    with assms \<open>ys = []\<close> show ?thesis
      by (cases z) (auto simp: unlink_cell_def set_prev_def free_cell_def)
  next
    case zs: Nil
    with assms Nil show ?thesis by (auto simp: unlink_cell_def free_cell_def)
  qed
next
  case (snoc ys' y)
  obtain b v where y: "y = (b, v)" by (cases y)
  show ?thesis
  proof (cases zs)
    case Nil
    with assms snoc y show ?thesis
      by (auto simp: unlink_cell_def set_next_def free_cell_def lseg_snoc)
  next
    case (Cons z zs')
    with assms snoc y show ?thesis
      by (cases z) (auto simp: unlink_cell_def set_next_def set_prev_def free_cell_def lseg_snoc)
  qed
qed

lemma apart_set_link:
  assumes "apart g L S" and "b \<in> S"
  shows "set_next b n L = Some L' \<Longrightarrow> apart g L' S" "set_prev b n L = Some L' \<Longrightarrow> apart g L' S"
  using assms by (auto simp: apart_def set_next_def set_prev_def split: option.splits)

lemma apart_root [simp]: "apart g (L\<lparr>dl_root := r\<rparr>) S = apart g L S"
  by (simp add: apart_def)

lemma apart_unlink:
  assumes "apart g L S" and "dl_cells L a = Some c" and "unlink_cell a L = Some L1"
    and "\<forall>p. c_prev c = Some p \<longrightarrow> p \<in> S" and "\<forall>n. c_next c = Some n \<longrightarrow> n \<in> S"
  shows "apart g L1 S"
  using assms
  by (auto simp: unlink_cell_def bind_eq_Some_conv split: option.splits intro: apart_set_link)

lemma apart_free: "apart g L (insert a S) \<Longrightarrow> a \<notin> S \<Longrightarrow> apart g (free_cell a L) S"
  by (auto simp: apart_def free_cell_def)

lemma delete_cell_mid:
  assumes 1: "lseg (dl_cells L) None (dl_root L) ys m (Some a)"
    and 2: "dl_cells L a = Some \<lparr>c_prev = m, c_next = n, c_item = x\<rparr>"
    and 3: "lseg (dl_cells L) (Some a) n zs q None"
    and d: "distinct (map fst ys)" "distinct (map fst zs)" "a \<notin> fst ` set ys" "a \<notin> fst ` set zs"
      "fst ` set ys \<inter> fst ` set zs = {}"
    and apart: "apart g L (insert a (fst ` set ys \<union> fst ` set zs))"
  shows "\<exists>L1. unlink_cell a L = Some L1 \<and> dl_rel g (free_cell a L1) (ys @ zs) \<and>
    lseg (dl_cells (free_cell a L1)) None (dl_root (free_cell a L1)) ys m n"
proof -
  obtain L1 q' where L1: "unlink_cell a L = Some L1"
    "lseg (dl_cells (free_cell a L1)) None (dl_root (free_cell a L1)) ys m n"
    "lseg (dl_cells (free_cell a L1)) m n zs q' None"
    using delete_cell_lseg [OF 1 2 3 d] by blast
  have "\<forall>p. m = Some p \<longrightarrow> p \<in> fst ` set ys" and "\<forall>p. n = Some p \<longrightarrow> p \<in> fst ` set zs"
    using lseg_last [OF 1] lseg_first [OF 3] by (auto split: if_splits)
  then have "apart g L1 (insert a (fst ` set ys \<union> fst ` set zs))"
    by (intro apart_unlink [OF apart 2 L1(1)]) auto
  then have "apart g (free_cell a L1) (fst ` set ys \<union> fst ` set zs)"
    using d by (auto intro: apart_free)
  moreover have "lseg (dl_cells (free_cell a L1)) None (dl_root (free_cell a L1)) (ys @ zs) q' None"
    using L1(2,3) by (auto simp: lseg_append)
  ultimately show ?thesis
    using L1(1,2) d by (auto simp: dl_rel_def image_Un)
qed

lemma filter_absent [simp]: "a \<notin> fst ` set us \<Longrightarrow> filter (\<lambda>y. fst y \<noteq> a) us = us"
  by (induction us) auto

lemma delete_cell_rel:
  assumes "dl_rel g L xs" and "a \<in> fst ` set xs"
  shows "\<exists>L'. delete_cell a L = Some L' \<and> dl_rel g L' (filter (\<lambda>y. fst y \<noteq> a) xs)"
  using assms
proof (rule dl_rel_split)
  fix ys x zs m n q
  assume *: "xs = ys @ (a, x) # zs" "lseg (dl_cells L) None (dl_root L) ys m (Some a)"
    "dl_cells L a = Some \<lparr>c_prev = m, c_next = n, c_item = x\<rparr>"
    "lseg (dl_cells L) (Some a) n zs q None"
    "distinct (map fst ys)" "distinct (map fst zs)" "a \<notin> fst ` set ys" "a \<notin> fst ` set zs"
    "fst ` set ys \<inter> fst ` set zs = {}" 
    "apart g L (insert a (fst ` set ys \<union> fst ` set zs))"
  show ?thesis
    using delete_cell_mid [OF *(2-10)] by (auto simp: delete_cell_def *(1,7,8))
qed

lemma lseg_unique:
  "lseg h p r xs m e \<Longrightarrow> lseg h p r xs m' e' \<Longrightarrow> m = m' \<and> e = e'"
proof (induction xs arbitrary: p r)
  case (Cons y xs)
  then show ?case by (cases y) auto
qed auto

lemma remove_cells_rel:
  assumes "dl_rel g L (ys @ zs)" and "lseg (dl_cells L) None (dl_root L) ys m loc"
  shows "\<exists>L'. remove_cells P loc L = Some L' \<and> dl_rel g L' (ys @ filter (\<lambda>y. \<not> P (snd y)) zs)"
  using assms
proof (induction zs arbitrary: ys m loc L)
  case Nil
  then have "loc = None"
    by (auto simp: dl_rel_def dest: lseg_unique)
  then show ?case using Nil by (subst remove_cells.simps) simp
next
  case (Cons z zs)
  obtain a x where z: "z = (a, x)" by (cases z)
  obtain m' n' q where "lseg (dl_cells L) None (dl_root L) ys m' n'"
    and "lseg (dl_cells L) m' n' ((a, x) # zs) q None"
    using Cons.prems(1) by (auto simp: dl_rel_def z lseg_append)
  then obtain n where n: "loc = Some a" "dl_cells L a = Some \<lparr>c_prev = m, c_next = n, c_item = x\<rparr>"
    "lseg (dl_cells L) (Some a) n zs q None"
    using lseg_unique [OF Cons.prems(2)] by auto
  have d: "distinct (map fst ys)" "distinct (map fst zs)" "a \<notin> fst ` set ys" "a \<notin> fst ` set zs"
    "fst ` set ys \<inter> fst ` set zs = {}" 
    "apart g L (insert a (fst ` set ys \<union> fst ` set zs))"
    using Cons.prems(1) by (auto simp: dl_rel_def z image_Un)
  show ?case
  proof (cases "P x")
    case True
    obtain L1 where L1: "unlink_cell a L = Some L1" "dl_rel g (free_cell a L1) (ys @ zs)"
      "lseg (dl_cells (free_cell a L1)) None (dl_root (free_cell a L1)) ys m n"
      using delete_cell_mid [OF Cons.prems(2) [unfolded n(1)] n(2,3) d] by blast
    then show ?thesis
      using Cons.IH [OF L1(2,3)] True n
      by (subst remove_cells.simps) (simp add: unlink_walking_eq z)
  next
    case False
    have "lseg (dl_cells L) None (dl_root L) (ys @ [(a, x)]) (Some a) n"
      using Cons.prems(2) n by (simp add: lseg_snoc)
    then show ?thesis
      using Cons.IH [of L "ys @ [(a, x)]" "Some a" n] Cons.prems(1) False n
      by (subst remove_cells.simps) (simp add: z)
  qed
qed

lemma remove_all_rel:
  assumes "dl_rel g L xs"
  shows "\<exists>L'. remove_all P L = Some L' \<and> dl_rel g L' (filter (\<lambda>y. \<not> P (snd y)) xs)"
  using remove_cells_rel [of g L "[]" xs None "dl_root L" P] assms by (simp add: remove_all_def)

lemma free_all_lseg:
  assumes "lseg (dl_cells L) p (dl_root L) xs q None" and "distinct (map fst xs)"
    and "apart g L (fst ` set xs)"
  shows "free_all L = Some \<lparr>dl_root = None, dl_cells = g\<rparr>"
  using assms
proof (induction xs arbitrary: L p)
  case Nil
  then have "L = \<lparr>dl_root = None, dl_cells = g\<rparr>" by (cases L) (simp add: fun_eq_iff apart_def)
  then show ?case by (subst free_all.simps) simp
next
  case (Cons y xs)
  obtain a x where y: "y = (a, x)" by (cases y)
  obtain n where n: "dl_root L = Some a" "dl_cells L a = Some \<lparr>c_prev = p, c_next = n, c_item = x\<rparr>"
    "lseg (dl_cells L) (Some a) n xs q None"
    using Cons.prems(1) by (auto simp: y)
  have "free_all ((free_cell a L)\<lparr>dl_root := n\<rparr>) = Some \<lparr>dl_root = None, dl_cells = g\<rparr>"
  proof (rule Cons.IH)
    show "lseg (dl_cells ((free_cell a L)\<lparr>dl_root := n\<rparr>)) (Some a)
            (dl_root ((free_cell a L)\<lparr>dl_root := n\<rparr>)) xs q None"
      using n(3) Cons.prems(2) by (simp add: free_cell_def y)
    show "distinct (map fst xs)" using Cons.prems(2) by simp
    show "apart g ((free_cell a L)\<lparr>dl_root := n\<rparr>) (fst ` set xs)"
      using Cons.prems(2,3) by (auto simp: free_cell_def apart_def y)
  qed
  then show ?case using n by (subst free_all.simps) simp
qed

lemma free_all_rel: "dl_rel g L xs \<Longrightarrow> free_all L = Some \<lparr>dl_root = None, dl_cells = g\<rparr>"
  by (auto simp: dl_rel_def intro: free_all_lseg)

lemma update_cell_rel:
  assumes "dl_rel g L xs" and "a \<in> fst ` set xs"
  shows "\<exists>L'. update_cell a f L = Some L' \<and>
    dl_rel g L' (map (\<lambda>(b, x). (b, if b = a then f x else x)) xs)"
  using assms
proof (rule dl_rel_split)
  fix ys x zs m n q
  assume *: "xs = ys @ (a, x) # zs" "lseg (dl_cells L) None (dl_root L) ys m (Some a)"
    "dl_cells L a = Some \<lparr>c_prev = m, c_next = n, c_item = x\<rparr>"
    "lseg (dl_cells L) (Some a) n zs q None"
    "distinct (map fst ys)" "distinct (map fst zs)" "a \<notin> fst ` set ys" "a \<notin> fst ` set zs"
    "fst ` set ys \<inter> fst ` set zs = {}" 
    "apart g L (insert a (fst ` set ys \<union> fst ` set zs))"
  have keep: "map (\<lambda>(b, x). (b, if b = a then f x else x)) us = us"
    if "a \<notin> fst ` set us" for us
    using that by (induction us) auto
  show ?thesis
    using *(2-10) by (auto simp: update_cell_def dl_rel_def apart_def *(1) keep lseg_mid)
qed

text \<open>The root is read by no case of the unlinking, and written only for the first cell.\<close>

lemma unlink_cell_root:
  assumes "dl_cells L a = Some c"
  shows "unlink_cell a (L\<lparr>dl_root := r\<rparr>) =
    map_option (\<lambda>L'. if c_prev c = None then L' else L'\<lparr>dl_root := r\<rparr>) (unlink_cell a L)"
  using assms
  by (auto simp: unlink_cell_def set_next_def set_prev_def bind_eq_Some_conv
      split: option.splits)

lemma unlink_cell_keeps_root:
  assumes "unlink_cell a L = Some L'" and "dl_cells L a = Some c" and "c_prev c \<noteq> None"
  shows "dl_root L' = dl_root L"
  using assms
  by (auto simp: unlink_cell_def set_next_def set_prev_def bind_eq_Some_conv split: option.splits)

section \<open>One list of a shared store\<close>

text \<open>The list alone, without saying what else is in the store.\<close>

definition dl_in :: "'a dlist \<Rightarrow> (addr \<times> 'a) list \<Rightarrow> bool" where
  "dl_in L xs \<longleftrightarrow>
     distinct (map fst xs) \<and> (\<exists>q. lseg (dl_cells L) None (dl_root L) xs q None)"

definition rest :: "'a dlist \<Rightarrow> (addr \<times> 'a) list \<Rightarrow> 'a store" where
  "rest L xs = (\<lambda>b. if b \<in> fst ` set xs then None else dl_cells L b)"

lemma dl_in_rel: "dl_in L xs \<longleftrightarrow> dl_rel (rest L xs) L xs"
  by (auto simp: dl_in_def dl_rel_def apart_def rest_def)

lemma dl_rel_dl_in: "dl_rel g L xs \<Longrightarrow> dl_in L xs"
  by (simp add: dl_in_def dl_rel_def)

lemma dl_in_Nil [simp]: "dl_in L [] \<longleftrightarrow> dl_root L = None"
  by (auto simp: dl_in_def)

lemma lseg_cong:
  "(\<And>b. b \<in> fst ` set xs \<Longrightarrow> h b = h' b) \<Longrightarrow> lseg h p r xs q e = lseg h' p r xs q e"
proof (induction xs arbitrary: p r)
  case (Cons y xs)
  then show ?case by (cases y) simp
qed simp

lemma dl_in_cong:
  assumes "dl_in L xs" and "dl_root L' = dl_root L"
    and "\<And>b. b \<in> fst ` set xs \<Longrightarrow> dl_cells L' b = dl_cells L b"
  shows "dl_in L' xs"
  using assms lseg_cong [of xs "dl_cells L'" "dl_cells L"] by (auto simp: dl_in_def)

lemma dl_in_dom: "dl_in L xs \<Longrightarrow> fst ` set xs \<subseteq> dom (dl_cells L)"
  using dl_rel_in [of "rest L xs" L xs] by (auto simp: dl_in_rel)

lemma dl_rel_dom:
  assumes "dl_rel g L xs"
  shows "dom (dl_cells L) = fst ` set xs \<union> dom g"
proof -
  have "b \<in> dom (dl_cells L) \<longleftrightarrow> b \<in> fst ` set xs \<union> dom g" for b
    using dl_rel_in [OF assms, of b] assms
    by (cases "b \<in> fst ` set xs") (simp_all add: dl_rel_def apart_def dom_def)
  then show ?thesis by blast
qed

lemma append_cell_in:
  assumes "dl_in L xs" and "dl_cells L a = None"
  shows "\<exists>L'. append_cell x a L = Some L' \<and> dl_in L' (xs @ [(a, x)]) \<and>
    (\<forall>b. b \<notin> insert a (fst ` set xs) \<longrightarrow> dl_cells L' b = dl_cells L b) \<and>
    dom (dl_cells L') = insert a (dom (dl_cells L))"
proof -
  obtain L' where L': "append_cell x a L = Some L'" "dl_rel (rest L xs) L' (xs @ [(a, x)])"
    using append_cell_rel [of "rest L xs" L xs a x] assms unfolding dl_in_rel by blast
  moreover have "dl_cells L' b = dl_cells L b" if "b \<notin> insert a (fst ` set xs)" for b
    using L'(2) that by (simp add: dl_rel_def apart_def rest_def image_Un)
  moreover have "dom (dl_cells L') = insert a (dom (dl_cells L))"
    using dl_rel_dom [OF L'(2)] dl_rel_dom [of "rest L xs" L xs] assms(1)
    by (simp add: dl_in_rel image_Un)
  ultimately show ?thesis using dl_rel_dl_in by blast
qed

lemma delete_cell_in:
  assumes "dl_in L xs" and "a \<in> fst ` set xs"
  shows "\<exists>L'. delete_cell a L = Some L' \<and> dl_in L' (filter (\<lambda>y. fst y \<noteq> a) xs) \<and>
    (\<forall>b. b \<notin> fst ` set xs \<longrightarrow> dl_cells L' b = dl_cells L b) \<and>
    dom (dl_cells L') = dom (dl_cells L) - {a}"
proof -
  let ?xs = "filter (\<lambda>y. fst y \<noteq> a) xs"
  have set: "fst ` set ?xs = fst ` set xs - {a}" by auto
  obtain L' where L': "delete_cell a L = Some L'" "dl_rel (rest L xs) L' ?xs"
    using delete_cell_rel [of "rest L xs" L xs a] assms unfolding dl_in_rel by blast
  moreover have "dl_cells L' b = dl_cells L b" if "b \<notin> fst ` set xs" for b
    using L'(2) that set by (simp add: dl_rel_def apart_def rest_def)
  moreover have "a \<notin> dom (rest L xs)" using assms(2) by (simp add: rest_def dom_def)
  then have "dom (dl_cells L') = dom (dl_cells L) - {a}"
    using dl_rel_dom [OF L'(2)] dl_rel_dom [of "rest L xs" L xs] assms(1) set
    by (auto simp: dl_in_rel)
  ultimately show ?thesis using dl_rel_dl_in by blast
qed

section \<open>The interface\<close>

text \<open>
  What the sessions and the resource managers rely on: a store with a relation to lists of
  addresses and contents, on which the operations work as on the list and do not fault.
\<close>

datatype 'a reg_op = Add 'a addr | Del addr

fun reg_spec :: "'a reg_op \<Rightarrow> (addr \<times> 'a) list \<Rightarrow> (addr \<times> 'a) list" where
  "reg_spec (Add x a) xs = xs @ [(a, x)]"
| "reg_spec (Del a) xs = filter (\<lambda>y. fst y \<noteq> a) xs"

text \<open>New cells come from \<^verbatim>\<open>malloc\<close> and are fresh, destroyed cells are in the list.\<close>

fun reg_ok :: "'a reg_op list \<Rightarrow> (addr \<times> 'a) list \<Rightarrow> bool" where
  "reg_ok [] xs \<longleftrightarrow> True"
| "reg_ok (Add x a # ops) xs \<longleftrightarrow> a \<notin> fst ` set xs \<and> reg_ok ops (xs @ [(a, x)])"
| "reg_ok (Del a # ops) xs \<longleftrightarrow> a \<in> fst ` set xs \<and> reg_ok ops (filter (\<lambda>y. fst y \<noteq> a) xs)"

fun reg_run ::
  "('a \<Rightarrow> addr \<Rightarrow> 's \<Rightarrow> 's option) \<Rightarrow> (addr \<Rightarrow> 's \<Rightarrow> 's option) \<Rightarrow> 'a reg_op list \<Rightarrow> 's \<Rightarrow> 's option" where
  "reg_run add del [] s = Some s"
| "reg_run add del (Add x a # ops) s = Option.bind (add x a s) (reg_run add del ops)"
| "reg_run add del (Del a # ops) s = Option.bind (del a s) (reg_run add del ops)"

locale registry =
  fixes rel :: "'s \<Rightarrow> (addr \<times> 'a) list \<Rightarrow> bool"
    and add :: "'a \<Rightarrow> addr \<Rightarrow> 's \<Rightarrow> 's option"
    and del :: "addr \<Rightarrow> 's \<Rightarrow> 's option"
    and look :: "('a \<Rightarrow> bool) \<Rightarrow> 's \<Rightarrow> ptr option"
  assumes add_law: "rel s xs \<Longrightarrow> a \<notin> fst ` set xs \<Longrightarrow>
      \<exists>s'. add x a s = Some s' \<and> rel s' (xs @ [(a, x)])"
    and del_law: "rel s xs \<Longrightarrow> a \<in> fst ` set xs \<Longrightarrow>
      \<exists>s'. del a s = Some s' \<and> rel s' (filter (\<lambda>y. fst y \<noteq> a) xs)"
    and look_law: "rel s xs \<Longrightarrow> look P s = Some (map_option fst (List.find (\<lambda>y. P (snd y)) xs))"
begin

lemma run_refines:
  "rel s xs \<Longrightarrow> reg_ok ops xs \<Longrightarrow> \<exists>s'. reg_run add del ops s = Some s' \<and> rel s' (fold reg_spec ops xs)"
proof (induction ops arbitrary: s xs)
  case (Cons op ops)
  show ?case
  proof (cases op)
    case (Add x a)
    then show ?thesis
      using Cons.prems Cons.IH add_law [of s xs a x] by auto
  next
    case (Del a)
    then show ?thesis
      using Cons.prems Cons.IH del_law [of s xs a] by auto
  qed
qed simp

lemma look_added:
  assumes "rel s xs" and "a \<notin> fst ` set xs" and "P x" and "\<forall>y\<in>set xs. \<not> P (snd y)"
  shows "\<exists>s'. add x a s = Some s' \<and> look P s' = Some (Some a)"
proof -
  obtain s' where s': "add x a s = Some s'" "rel s' (xs @ [(a, x)])"
    using add_law [OF assms(1,2)] by blast
  moreover have "List.find (\<lambda>y. P (snd y)) (xs @ [(a, x)]) = Some (a, x)"
    using assms(3,4) by (induction xs) auto
  ultimately show ?thesis using look_law [of s' _ P] by simp
qed

end

interpretation dlist: registry "dl_rel Map.empty" append_cell delete_cell find_first
  by unfold_locales (simp_all add: append_cell_rel delete_cell_rel find_first_rel dl_rel_fresh)

end
