(* ===== verification/Can_Dev.thy ===== *)
theory Can_Dev
  imports Netif_Rx Sja1000_Irq
begin

unbundle bit_operations_syntax

text \<open>
  The life cycle of a device: the rest of \<^verbatim>\<open>dev/dev.c\<close> (allocation, opening, closing, the
  MTU), the open, close, allocation and registration functions of \<^verbatim>\<open>sja1000.c\<close>, and the change
  of link parameters, \<^verbatim>\<open>can_changelink\<close> of \<^verbatim>\<open>dev/netlink.c\<close>. \<open>None\<close> is a trap, a wild access
  or a loop that does not end.
\<close>

section \<open>States and error counters\<close>

fun can_get_state_str :: "can_state \<Rightarrow> string" where
  "can_get_state_str CAN_STATE_ERROR_ACTIVE = ''Error Active''"
| "can_get_state_str CAN_STATE_ERROR_WARNING = ''Error Warning''"
| "can_get_state_str CAN_STATE_ERROR_PASSIVE = ''Error Passive''"
| "can_get_state_str CAN_STATE_BUS_OFF = ''Bus Off''"
| "can_get_state_str CAN_STATE_STOPPED = ''Stopped''"
| "can_get_state_str CAN_STATE_SLEEPING = ''Sleeping''"

definition can_state_get_by_berr_counter :: "u16 \<Rightarrow> u16 \<Rightarrow> can_state \<times> can_state" where
  "can_state_get_by_berr_counter txerr rxerr =
     (can_state_err_to_state txerr, can_state_err_to_state rxerr)"

text \<open>The work function of the restart timer; the timer has fired and is no longer armed.\<close>

definition can_restart_work :: "'h net_device \<Rightarrow> 'h net_device option" where
  "can_restart_work d = map_option snd (can_restart (netif_rx RX_FUEL) (d\<lparr>restart_pending := None\<rparr>))"

section \<open>Allocation\<close>

definition can_setup :: "'h net_device \<Rightarrow> 'h net_device" where
  "can_setup d = d\<lparr>dev_mtu := CAN_MTU, dev_flags := IFF_NOARP\<rparr>"

text \<open>
  The two blocks of \<^verbatim>\<open>alloc_candev_mqs\<close> after \<^verbatim>\<open>memset\<close>. The argument supplies the part of
  the model's record that is not in these blocks: the chip, its access functions and the clock
  (the board code sets the pointers later), the block pool, the sessions and the options.
\<close>

definition zero_device :: "'h net_device \<Rightarrow> 'h net_device" where
  "zero_device d = d\<lparr>pre_irq := None, post_irq := None, reg_base := False, priv_flags := 0, ocr := 0,
     cdr := 0, dev_state := 0, dev_flags := 0, dev_mtu := 0, dev_irq := 0,
     stats := \<lparr>rx_packets = 0, tx_packets = 0, rx_bytes = 0, tx_bytes = 0, rx_errors = 0,
       tx_errors = 0, rx_dropped = 0, tx_dropped = 0, rx_over_errors = 0, tx_aborted_errors = 0\<rparr>,
     can_stats := \<lparr>bus_error = 0, error_warning = 0, error_passive = 0, bus_off = 0,
       arbitration_lost = 0, restarts = 0\<rparr>,
     can_state := CAN_STATE_ERROR_ACTIVE, ctrlmode := 0, ctrlmode_supported := 0, restart_ms := 0,
     restart_pending := None, clock_freq := 0, bittiming := zero_timing, data_bittiming := zero_timing,
     bittiming_const := None, bitrate_const := None, bitrate_max := 0, data_bittiming_const := None,
     data_bitrate_const := None, tdc_const := None, tdc := \<lparr>tdcv = 0, tdco = 0, tdcf = 0\<rparr>,
     do_set_bittiming := False, do_set_btr := False, do_set_mode := False, echo_skb := []\<rparr>"

text \<open>
  \<open>m_dev\<close>, \<open>m_priv\<close> and \<open>m_echo\<close> say whether the three calls of \<^verbatim>\<open>malloc\<close> succeed; the
  result of the third is not tested before it is written to. The result is \<open>Some None\<close> for
  NULL.
\<close>

definition alloc_candev_mqs ::
  "bool \<Rightarrow> bool \<Rightarrow> bool \<Rightarrow> nat \<Rightarrow> 'h net_device \<Rightarrow> 'h net_device option option" where
  "alloc_candev_mqs m_dev m_priv m_echo echo_max d =
     (if \<not> m_dev \<or> \<not> m_priv then Some None
      else if echo_max \<noteq> 0 \<and> \<not> m_echo then None
      else Some (Some ((zero_device d)\<lparr>echo_skb := replicate echo_max None,
                                      can_state := CAN_STATE_STOPPED\<rparr>)))"

definition SJA1000_ECHO_SKB_MAX :: nat where
  "SJA1000_ECHO_SKB_MAX = 1"

definition sja1000_ctrlmode_supported :: u32 where
  "sja1000_ctrlmode_supported = CAN_CTRLMODE_LOOPBACK OR CAN_CTRLMODE_LISTENONLY OR
     CAN_CTRLMODE_3_SAMPLES OR CAN_CTRLMODE_ONE_SHOT OR CAN_CTRLMODE_BERR_REPORTING OR
     CAN_CTRLMODE_PRESUME_ACK OR CAN_CTRLMODE_CC_LEN8_DLC"

definition alloc_sja1000dev ::
  "bool \<Rightarrow> bool \<Rightarrow> bool \<Rightarrow> 'h net_device \<Rightarrow> 'h net_device option option" where
  "alloc_sja1000dev m_dev m_priv m_echo d = do {
     r \<leftarrow> alloc_candev_mqs m_dev m_priv m_echo SJA1000_ECHO_SKB_MAX d;
     Some (map_option (\<lambda>dev. dev\<lparr>bittiming_const := Some sja1000_bittiming_const,
       do_set_bittiming := True, do_set_btr := True, do_set_mode := True,
       ctrlmode_supported := sja1000_ctrlmode_supported\<rparr>) r) }"

section \<open>MTU\<close>

definition can_get_static_ctrlmode :: "'h net_device \<Rightarrow> u32" where
  "can_get_static_ctrlmode d = ctrlmode d AND NOT (ctrlmode_supported d)"

definition can_change_mtu :: "nat \<Rightarrow> 'h net_device \<Rightarrow> rc \<times> 'h net_device" where
  "can_change_mtu new_mtu d =
     (let static = can_get_static_ctrlmode d in
      if has_flag (dev_flags d) IFF_UP then (Err EBUSY, d)
      else if new_mtu = CAN_MTU
      then (if has_flag static CAN_CTRLMODE_FD then (Err EINVAL, d)
            else (EOK, d\<lparr>ctrlmode := ctrlmode d AND NOT CAN_CTRLMODE_FD, dev_mtu := new_mtu\<rparr>))
      else if new_mtu = CANFD_MTU
      then (if \<not> has_flag (ctrlmode_supported d) CAN_CTRLMODE_FD \<and> \<not> has_flag static CAN_CTRLMODE_FD
            then (Err EINVAL, d)
            else (EOK, d\<lparr>ctrlmode := ctrlmode d OR CAN_CTRLMODE_FD, dev_mtu := new_mtu\<rparr>))
      else (Err EINVAL, d))"

section \<open>Opening and closing\<close>

definition open_candev :: "'h net_device \<Rightarrow> rc \<times> 'h net_device" where
  "open_candev d =
     (if bt_bitrate (bittiming d) = 0 then (Err EINVAL, d)
      else if has_flag (ctrlmode d) CAN_CTRLMODE_FD \<and>
        (bt_bitrate (data_bittiming d) = 0 \<or>
         bt_bitrate (data_bittiming d) < bt_bitrate (bittiming d))
      then (Err EINVAL, d)
      else (EOK, if netif_carrier_ok d then d else netif_carrier_on d))"

definition close_candev :: "'h net_device \<Rightarrow> 'h net_device option" where
  "close_candev d = can_flush_echo_skb (d\<lparr>restart_pending := None\<rparr>)"

text \<open>\<open>r_irq\<close> is the result of \<^verbatim>\<open>request_threaded_irq\<close>.\<close>

definition sja1000_open :: "rc \<Rightarrow> 'h net_device \<Rightarrow> (rc \<times> 'h net_device) option" where
  "sja1000_open r_irq d =
     (let d1 = set_reset_mode d; (e, d2) = open_candev d1 in
      if e \<noteq> EOK then Some (e, d2)
      else if \<not> has_flag (priv_flags d2) SJA1000_CUSTOM_IRQ_HANDLER \<and> r_irq \<noteq> EOK
      then do { d3 \<leftarrow> close_candev d2; Some (Err EAGAIN, d3) }
      else Some (EOK, sja1000_start d2))"

text \<open>
  \<^verbatim>\<open>free_irq\<close>, called here for devices without a handler of their own, works on the
  interrupt tables only.
\<close>

definition sja1000_close :: "'h net_device \<Rightarrow> 'h net_device option" where
  "sja1000_close d = close_candev (set_reset_mode (netif_stop_queue d))"

text \<open>
  \<^verbatim>\<open>register_candev\<close> and \<^verbatim>\<open>register_sja1000dev\<close> up to the call of \<^verbatim>\<open>register_netdev\<close>, which is
  the argument \<open>reg\<close>; an empty table of fixed bit rates with a non-null pointer is refused.
\<close>

definition register_candev ::
  "('h net_device \<Rightarrow> (rc \<times> 'h net_device) option) \<Rightarrow> 'h net_device \<Rightarrow> (rc \<times> 'h net_device) option" where
  "register_candev reg d =
     (if bitrate_const d = Some [] \<or> data_bitrate_const d = Some [] then Some (Err EINVAL, d)
      else reg (netif_carrier_off d))"

definition register_sja1000dev ::
  "('h net_device \<Rightarrow> (rc \<times> 'h net_device) option) \<Rightarrow> 'h net_device \<Rightarrow> (rc \<times> 'h net_device) option" where
  "register_sja1000dev reg d =
     (let (found, d1) = sja1000_probe_chip d in
      if \<not> found then Some (Err ENODEV, d1)
      else register_candev reg
             (chipset_init (set_reset_mode (d1\<lparr>dev_flags := dev_flags d1 OR IFF_ECHO\<rparr>))))"

section \<open>Link parameters\<close>

text \<open>\<^verbatim>\<open>struct user_dev_setup\<close> of \<^verbatim>\<open>resmgr.h\<close>.\<close>

record user_dev_setup =
  u_bittiming :: can_bittiming
  u_data_bittiming :: can_bittiming
  u_btr0 :: u8
  u_btr1 :: u8
  u_mask :: u32
  u_flags :: u32
  u_restart_ms :: int
  u_termination :: u16
  set_bittiming :: bool
  set_data_bittiming :: bool
  set_btr :: bool
  set_ctrlmode :: bool
  set_restart_ms :: bool
  set_restart :: bool
  set_tdc :: bool
  set_termination :: bool

text \<open>The branches of \<^verbatim>\<open>can_changelink\<close>, in their order. An error ends the function.\<close>

definition and_then ::
  "(rc \<times> 'd) option \<Rightarrow> ('d \<Rightarrow> (rc \<times> 'd) option) \<Rightarrow> (rc \<times> 'd) option" where
  "and_then r f = do { (e, d) \<leftarrow> r; if e \<noteq> EOK then Some (e, d) else f d }"

definition rate_exceeds :: "'h net_device \<Rightarrow> can_bittiming \<Rightarrow> bool" where
  "rate_exceeds d bt \<longleftrightarrow> bitrate_max d \<noteq> 0 \<and> bitrate_max d < bt_bitrate bt"

definition link_bittiming :: "user_dev_setup \<Rightarrow> 'h net_device \<Rightarrow> (rc \<times> 'h net_device) option" where
  "link_bittiming user d =
     (if \<not> set_bittiming user then Some (EOK, d)
      else if has_flag (dev_flags d) IFF_UP then Some (Err EBUSY, d)
      else if bittiming_const d = None \<and> \<not> do_set_bittiming d \<and> bitrate_const d = None
      then Some (Err EOPNOTSUPP, d)
      else case can_get_bittiming (clock_freq d) (u_bittiming user) (bittiming_const d) (bitrate_const d) of
             Some (Ret (e, bt)) \<Rightarrow>
               (if e \<noteq> EOK then Some (e, d)
                else if rate_exceeds d bt then Some (Err EINVAL, d)
                else let d1 = d\<lparr>bittiming := bt\<rparr>
                     in Some (EOK, if do_set_bittiming d1 then sja1000_set_bittiming d1 else d1))
           | _ \<Rightarrow> None)"

text \<open>The second component is \<^verbatim>\<open>tdc_mask\<close>.\<close>

definition link_ctrlmode :: "user_dev_setup \<Rightarrow> 'h net_device \<Rightarrow> rc \<times> u32 \<times> 'h net_device" where
  "link_ctrlmode user d =
     (if \<not> set_ctrlmode user then (EOK, 0, d)
      else if has_flag (dev_flags d) IFF_UP then (Err EBUSY, 0, d)
      else let static = can_get_static_ctrlmode d;
               maskedflags = u_flags user AND u_mask user
           in if has_flag maskedflags (NOT (ctrlmode_supported d OR static)) then (Err EOPNOTSUPP, 0, d)
           else let static1 = (if has_flag maskedflags CAN_CTRLMODE_FD then static
                               else static AND NOT CAN_CTRLMODE_FD_NON_ISO)
           in if maskedflags AND static1 \<noteq> static1 then (Err EOPNOTSUPP, 0, d)
           else let mode = (ctrlmode d AND NOT (u_mask user)) OR maskedflags;
                    d1 = (if has_flag mode CAN_CTRLMODE_FD
                          then d\<lparr>ctrlmode := mode, dev_mtu := CANFD_MTU\<rparr>
                          else d\<lparr>ctrlmode := mode AND NOT CAN_CTRLMODE_FD_TDC_MASK, dev_mtu := CAN_MTU,
                                 data_bittiming := zero_timing, tdc := \<lparr>tdcv = 0, tdco = 0, tdcf = 0\<rparr>\<rparr>);
                    tdc_mask = u_mask user AND CAN_CTRLMODE_FD_TDC_MASK
                in (EOK, tdc_mask,
                    if tdc_mask \<noteq> 0
                    then d1\<lparr>ctrlmode := ctrlmode d1 AND (u_flags user OR NOT CAN_CTRLMODE_FD_TDC_MASK)\<rparr>
                    else d1))"

definition link_restart_ms :: "user_dev_setup \<Rightarrow> 'h net_device \<Rightarrow> rc \<times> 'h net_device" where
  "link_restart_ms user d =
     (if \<not> set_restart_ms user then (EOK, d)
      else if has_flag (dev_flags d) IFF_UP then (Err EBUSY, d)
      else (EOK, d\<lparr>restart_ms := u_restart_ms user\<rparr>))"

definition link_restart :: "user_dev_setup \<Rightarrow> 'h net_device \<Rightarrow> (rc \<times> 'h net_device) option" where
  "link_restart user d =
     (if \<not> set_restart user then Some (EOK, d)
      else if \<not> has_flag (dev_flags d) IFF_UP then Some (Err EINVAL, d)
      else can_restart_now (netif_rx RX_FUEL) d)"

text \<open>
  The delay compensation is calculated from the data bit timing of the device before it is
  replaced.
\<close>

definition link_data_bittiming ::
  "u32 \<Rightarrow> user_dev_setup \<Rightarrow> 'h net_device \<Rightarrow> (rc \<times> 'h net_device) option" where
  "link_data_bittiming tdc_mask user d =
     (if \<not> set_data_bittiming user then Some (EOK, d)
      else if has_flag (dev_flags d) IFF_UP then Some (Err EBUSY, d)
      else if data_bittiming_const d = None \<and> data_bitrate_const d = None then Some (Err EOPNOTSUPP, d)
      else case can_get_bittiming (clock_freq d) (u_data_bittiming user) (data_bittiming_const d)
                  (data_bitrate_const d) of
             Some (Ret (e, dbt)) \<Rightarrow>
               (if e \<noteq> EOK then Some (e, d)
                else if rate_exceeds d dbt then Some (Err EINVAL, d)
                else let (off, mode) =
                           (if set_tdc user \<or> tdc_mask \<noteq> 0 then (0, ctrlmode d)
                            else can_calc_tdco 0 (tdc_const d) (data_bittiming d) (ctrlmode d)
                                   (ctrlmode_supported d))
                     in Some (EOK, d\<lparr>tdc := \<lparr>tdcv = 0, tdco = off, tdcf = 0\<rparr>, ctrlmode := mode,
                                     data_bittiming := dbt\<rparr>))
           | _ \<Rightarrow> None)"

definition cia_sample_point :: "u32 \<Rightarrow> u32" where
  "cia_sample_point bitrate =
     (if 800000 < bitrate then 750 else if 500000 < bitrate then 800 else 875)"

text \<open>The timing the code reads off two given register values.\<close>

definition btr_timing :: "u8 \<Rightarrow> u8 \<Rightarrow> u32 \<Rightarrow> u32 \<Rightarrow> can_bittiming \<Rightarrow> can_bittiming option" where
  "btr_timing btr0 btr1 bitrate freq bt =
     (let brp = ucast (btr0 AND 0x3F) + 1 in
      map_option (\<lambda>v64. bt\<lparr>bt_bitrate := bitrate, bt_brp := brp,
          bt_sjw := ucast (drop_bit 6 btr0 AND 0x3) + 1,
          bt_phase_seg2 := ucast (drop_bit 4 btr1 AND 0x7) + 1,
          bt_phase_seg1 := 0, bt_prop_seg := 0, bt_tq := ucast v64,
          bt_sample_point := cia_sample_point bitrate\<rparr>)
        (udiv ((ucast brp :: u64) * 1000 * 1000 * 1000) (ucast freq)))"

definition link_btr :: "user_dev_setup \<Rightarrow> 'h net_device \<Rightarrow> (rc \<times> 'h net_device) option" where
  "link_btr user d =
     (if \<not> set_btr user \<or> \<not> do_set_btr d then Some (EOK, d)
      else let d1 = sja1000_set_btr (u_btr0 user) (u_btr1 user) d in
        map_option (\<lambda>bt. (EOK, d1\<lparr>bittiming := bt,
            ctrlmode := (if has_flag (u_btr1 user) 0x80 then ctrlmode d1 OR CAN_CTRLMODE_3_SAMPLES
                         else ctrlmode d1)\<rparr>))
          (btr_timing (u_btr0 user) (u_btr1 user) (bt_bitrate (u_bittiming user)) (clock_freq d1)
             (bittiming d1)))"

text \<open>No driver installs \<^verbatim>\<open>do_set_termination\<close>.\<close>

definition link_termination :: "user_dev_setup \<Rightarrow> 'h net_device \<Rightarrow> rc \<times> 'h net_device" where
  "link_termination user d = (if set_termination user then (Err EOPNOTSUPP, d) else (EOK, d))"

definition can_changelink :: "user_dev_setup \<Rightarrow> 'h net_device \<Rightarrow> (rc \<times> 'h net_device) option" where
  "can_changelink user d =
     and_then (link_bittiming user d) (\<lambda>d1.
       case link_ctrlmode user d1 of (e, tdc_mask, d2) \<Rightarrow>
         and_then (Some (e, d2)) (\<lambda>d2.
         and_then (Some (link_restart_ms user d2)) (\<lambda>d3.
         and_then (link_restart user d3) (\<lambda>d4.
         and_then (link_data_bittiming tdc_mask user d4) (\<lambda>d5.
         and_then (link_btr user d5) (\<lambda>d6.
         Some (link_termination user d6)))))))"

section \<open>The settings of an SJA1000 device\<close>

text \<open>
  What the allocation sets up and everything else keeps: the controller modes that are on are
  among those the controller supports, and the callbacks and limits are those of the SJA1000.
\<close>

definition sja1000_settings :: "'h net_device \<Rightarrow> bool" where
  "sja1000_settings d \<longleftrightarrow>
     ctrlmode_supported d = sja1000_ctrlmode_supported \<and>
     ctrlmode d AND NOT sja1000_ctrlmode_supported = 0 \<and>
     bittiming_const d = Some sja1000_bittiming_const \<and> data_bittiming_const d = None \<and>
     data_bitrate_const d = None \<and> do_set_bittiming d \<and> do_set_btr d \<and> do_set_mode d"

lemma no_other_bits: "a AND NOT b = 0 \<longleftrightarrow> (\<forall>n. bit a n \<longrightarrow> bit b n)" for a b :: "'a::len word"
  by (auto simp: bit_eq_iff bit_simps dest: bit_imp_le_length)

lemma sja1000_settings_same_config: "same_config d d' \<Longrightarrow> sja1000_settings d' = sja1000_settings d"
  by (simp add: sja1000_settings_def same_config_def)

lemma same_config_wr [simp]: "same_config d (wr r v d') = same_config d d'"
  by (simp add: wr_def)

lemma same_config_set_reset_mode [simp]: "same_config d (set_reset_mode d') = same_config d d'"
  by (rule same_config_chip_only [OF chip_only_set_reset_mode])

lemma sja1000_settings_bittiming [simp]:
  "sja1000_settings (d\<lparr>bittiming := bt\<rparr>) = sja1000_settings d"
  by (simp add: sja1000_settings_def)

lemma sja1000_settings_set_btr [simp]:
  "sja1000_settings (sja1000_set_btr b0 b1 d) = sja1000_settings d"
  using sja1000_settings_same_config [of d "sja1000_set_btr b0 b1 d"]
  by (simp add: sja1000_set_btr_def)

lemma alloc_sja1000dev_settings:
  "alloc_sja1000dev a b c d = Some (Some d') \<Longrightarrow> sja1000_settings d'"
  by (auto simp: alloc_sja1000dev_def alloc_candev_mqs_def zero_device_def sja1000_settings_def
      split: if_splits)

lemma no_other_bits_mono: "a AND NOT b = 0 \<Longrightarrow> (a AND c) AND NOT b = 0" for a b c :: "'a::len word"
  by (simp add: no_other_bits bit_simps)

lemma no_other_bits_or:
  "a AND NOT b = 0 \<Longrightarrow> c AND NOT b = 0 \<Longrightarrow> (a OR c) AND NOT b = 0" for a b c :: "'a::len word"
  by (auto simp: no_other_bits bit_simps)

lemma can_change_mtu_settings:
  assumes "sja1000_settings d"
  shows "sja1000_settings (snd (can_change_mtu n d))"
proof -
  have "\<not> has_flag (ctrlmode_supported d) CAN_CTRLMODE_FD"
    using assms by (simp add: sja1000_settings_def sja1000_ctrlmode_supported_def flag_defs)
  moreover have "can_get_static_ctrlmode d = 0"
    using assms by (simp add: sja1000_settings_def can_get_static_ctrlmode_def)
  ultimately show ?thesis
    using assms by (auto simp: can_change_mtu_def sja1000_settings_def Let_def no_other_bits_mono)
qed

text \<open>The branches of \<^verbatim>\<open>can_changelink\<close> one by one.\<close>

lemma link_bittiming_settings:
  "sja1000_settings d \<Longrightarrow> link_bittiming user d = Some (e, d') \<Longrightarrow> sja1000_settings d'"
  by (auto simp: link_bittiming_def sja1000_set_bittiming_def Let_def
      split: if_splits option.splits exec.splits prod.splits)

lemma link_ctrlmode_settings:
  assumes "sja1000_settings d" and "link_ctrlmode user d = (e, m, d')"
  shows "sja1000_settings d'"
proof -
  let ?masked = "u_flags user AND u_mask user"
  have s: "can_get_static_ctrlmode d = 0" "ctrlmode_supported d = sja1000_ctrlmode_supported"
    using assms(1) by (simp_all add: sja1000_settings_def can_get_static_ctrlmode_def)
  have "(ctrlmode d AND NOT (u_mask user) OR ?masked) AND NOT sja1000_ctrlmode_supported = 0"
    if "\<not> has_flag ?masked (NOT sja1000_ctrlmode_supported)"
    using no_other_bits_mono [of "ctrlmode d" sja1000_ctrlmode_supported "NOT (u_mask user)"] assms(1) that
    by (intro no_other_bits_or) (simp_all add: sja1000_settings_def)
  then show ?thesis
    using assms s
    by (auto simp: link_ctrlmode_def Let_def sja1000_settings_def no_other_bits_mono split: if_splits)
qed

lemma link_restart_settings:
  assumes "owns blocks rest d" and "sja1000_settings d" and "link_restart user d = Some (e, d')"
  shows "sja1000_settings d'"
proof -
  obtain r d1 where "can_restart_now (netif_rx RX_FUEL) d = Some (r, d1)" "same_config d d1"
    using receiver.can_restart_now_owns [OF assms(1) less_imp_le [OF skbs_left_RX_FUEL]] by blast
  then show ?thesis
    using assms(2,3) sja1000_settings_same_config [of d d1]
    by (auto simp: link_restart_def split: if_splits)
qed

lemma link_btr_settings:
  assumes "sja1000_settings d" and "link_btr user d = Some (e, d')"
  shows "sja1000_settings d'"
proof -
  have "CAN_CTRLMODE_3_SAMPLES AND NOT sja1000_ctrlmode_supported = 0"
    by (simp add: sja1000_ctrlmode_supported_def flag_defs)
  moreover have "sja1000_settings (sja1000_set_btr (u_btr0 user) (u_btr1 user) d)"
    using assms(1) by simp
  ultimately show ?thesis
    using assms
    by (auto simp: link_btr_def Let_def sja1000_settings_def no_other_bits_or split: if_splits)
qed

lemma and_then_Some:
  "and_then r f = Some (e, d') \<longleftrightarrow>
     (e \<noteq> EOK \<and> r = Some (e, d')) \<or> (\<exists>d. r = Some (EOK, d) \<and> f d = Some (e, d'))"
  by (auto simp: and_then_def bind_eq_Some_conv split: if_splits)

lemma sja1000_set_btr_keeps [simp]:
  "pool (sja1000_set_btr b0 b1 d) = pool d" "echo_skb (sja1000_set_btr b0 b1 d) = echo_skb d"
  "dev_flags (sja1000_set_btr b0 b1 d) = dev_flags d" "bittiming (sja1000_set_btr b0 b1 d) = bittiming d"
  "ctrlmode (sja1000_set_btr b0 b1 d) = ctrlmode d" "clock_freq (sja1000_set_btr b0 b1 d) = clock_freq d"
  by (simp_all add: sja1000_set_btr_def wr_def)

lemma link_bittiming_keeps:
  "link_bittiming user d = Some (e, d') \<Longrightarrow>
   pool d' = pool d \<and> echo_skb d' = echo_skb d \<and> dev_flags d' = dev_flags d"
  by (auto simp: link_bittiming_def sja1000_set_bittiming_def Let_def
      split: if_splits option.splits exec.splits prod.splits)

lemma link_ctrlmode_keeps:
  "link_ctrlmode user d = (e, m, d') \<Longrightarrow>
   pool d' = pool d \<and> echo_skb d' = echo_skb d \<and> dev_flags d' = dev_flags d \<and> hw d' = hw d \<and>
   bittiming d' = bittiming d"
  by (auto simp: link_ctrlmode_def Let_def split: if_splits)

lemma link_restart_ms_keeps:
  "link_restart_ms user d = (e, d') \<Longrightarrow>
   pool d' = pool d \<and> echo_skb d' = echo_skb d \<and> dev_flags d' = dev_flags d \<and> hw d' = hw d \<and>
   bittiming d' = bittiming d \<and> (sja1000_settings d' \<longleftrightarrow> sja1000_settings d)"
  by (auto simp: link_restart_ms_def sja1000_settings_def split: if_splits)

lemma link_data_bittiming_refused:
  assumes "sja1000_settings d" and "link_data_bittiming m user d = Some (e, d')"
  shows "d' = d"
  using assms by (auto simp: link_data_bittiming_def sja1000_settings_def split: if_splits)

lemma can_changelink_steps:
  assumes "can_changelink user d = Some (EOK, d')"
  obtains d1 m d2 d3 d4 d5 where "link_bittiming user d = Some (EOK, d1)"
    "link_ctrlmode user d1 = (EOK, m, d2)" "link_restart_ms user d2 = (EOK, d3)"
    "link_restart user d3 = Some (EOK, d4)" "link_data_bittiming m user d4 = Some (EOK, d5)"
    "link_btr user d5 = Some (EOK, d')"
proof -
  obtain d1 where 1: "link_bittiming user d = Some (EOK, d1)"
    using assms by (auto simp: can_changelink_def and_then_Some)
  obtain e m d2 where 2: "link_ctrlmode user d1 = (e, m, d2)" by (cases "link_ctrlmode user d1")
  then show ?thesis
    using assms 1 that
    by (auto simp: can_changelink_def and_then_Some link_termination_def split: if_splits)
qed

lemma can_changelink_settings:
  assumes o: "owns blocks rest d" and s: "sja1000_settings d"
    and c: "can_changelink user d = Some (e, d')"
  shows "sja1000_settings d'"
proof -
  obtain e1 d1 where 1: "link_bittiming user d = Some (e1, d1)"
    using c by (auto simp: can_changelink_def and_then_Some)
  note s1 = link_bittiming_settings [OF s 1]
  obtain e2 m d2 where 2: "link_ctrlmode user d1 = (e2, m, d2)" by (cases "link_ctrlmode user d1")
  note s2 = link_ctrlmode_settings [OF s1 2]
  obtain e3 d3 where 3: "link_restart_ms user d2 = (e3, d3)" by (cases "link_restart_ms user d2")
  have s3: "sja1000_settings d3" using s2 link_restart_ms_keeps [OF 3] by simp
  have o3: "owns blocks rest d3"
    using o owns_cong [of d3 d] link_bittiming_keeps [OF 1] link_ctrlmode_keeps [OF 2]
      link_restart_ms_keeps [OF 3] by simp
  have "sja1000_settings d'" if c': "and_then (link_restart user d3) (\<lambda>d4.
         and_then (link_data_bittiming m user d4) (\<lambda>d5.
         and_then (link_btr user d5) (\<lambda>d6. Some (link_termination user d6)))) = Some (e, d')"
  proof -
    obtain e4 d4 where 4: "link_restart user d3 = Some (e4, d4)"
      using c' by (auto simp: and_then_Some)
    note s4 = link_restart_settings [OF o3 s3 4]
    show ?thesis
      using c' 4 s4 unfolding and_then_Some link_termination_def
      by (auto split: if_splits) (metis link_btr_settings link_data_bittiming_refused)+
  qed
  then show ?thesis
    using c 1 2 3 s1 s2 s3 by (auto simp: can_changelink_def and_then_Some split: prod.splits)
qed

text \<open>
  C19: the settings of an SJA1000 device are well-formed from its allocation on: every
  controller mode that is on is one the controller supports (so CAN FD never is), and the limits
  and callbacks are those of the controller. Every call of \<^verbatim>\<open>can_changelink\<close>, whatever it asks
  for and whether it succeeds or not, and every call of \<^verbatim>\<open>can_change_mtu\<close> keep this.
\<close>

theorem settings_well_formed:
  assumes "alloc_sja1000dev True True True d0 = Some (Some d1)"
    and "owns blocks rest d" and "sja1000_settings d"
  shows "sja1000_settings d1 \<and>
    (\<forall>user e d'. can_changelink user d = Some (e, d') \<longrightarrow> sja1000_settings d') \<and>
    (\<forall>n. sja1000_settings (snd (can_change_mtu n d)))"
  using alloc_sja1000dev_settings [OF assms(1)] can_changelink_settings [OF assms(2,3)]
    can_change_mtu_settings [OF assms(3)] by blast

lemma vcan_dev_settings: "sja1000_settings vcan_dev"
  by (simp add: sja1000_settings_def vcan_dev_def sja1000_ctrlmode_supported_def flag_defs)

theorem settings_well_formed_witness:
  "sja1000_settings (the (the (alloc_sja1000dev True True True vcan_dev))) \<and>
   sja1000_settings (snd (can_change_mtu 72 vcan_dev))"
proof -
  obtain d1 where "alloc_sja1000dev True True True vcan_dev = Some (Some d1)"
    by (simp add: alloc_sja1000dev_def alloc_candev_mqs_def)
  with settings_well_formed [OF this vcan_dev_owns vcan_dev_settings] show ?thesis by simp
qed

section \<open>Bit timing through the link parameters\<close>

lemma memory_set_btr:
  assumes "memory_chip d"
  shows "hw (sja1000_set_btr b0 b1 d) = (hw d)(SJA1000_BTR0 := b0, SJA1000_BTR1 := b1)"
  using assms by (simp add: sja1000_set_btr_def memory_wr)

text \<open>A timing request the calculation is defined for: a bit rate alone, or given segments.\<close>

definition link_request :: "u32 \<Rightarrow> can_bittiming \<Rightarrow> bool" where
  "link_request freq bt \<longleftrightarrow> freq \<noteq> 0 \<and> (bt_tq bt = 0 \<longrightarrow> request_ok freq bt)"

lemma can_get_bittiming_in_range:
  assumes "link_request freq bt"
    and "can_get_bittiming freq bt (Some sja1000_bittiming_const) k = Some (Ret (EOK, bt'))"
  shows "timing_in_range sja1000_bittiming_const bt'"
proof (cases "bt_tq bt = 0")
  case True
  then have "request_ok freq bt" using assms(1) by (simp add: link_request_def)
  then show ?thesis
    using can_calc_bittiming_spec [OF sja1000_btc_ok _ sja1000_tseg1_min, of freq bt] assms(2) True
    by (auto simp: can_get_bittiming_def request_ok_def split: if_splits)
next
  case False
  then show ?thesis
    using can_fixup_bittiming_spec [OF sja1000_btc_ok, of freq bt] assms
    by (auto simp: can_get_bittiming_def link_request_def split: if_splits)
qed

text \<open>
  A change of the timing writes the two timing registers and nothing else, with the bytes that
  encode the timing stored; this holds for every chip.
\<close>

lemma changelink_writes:
  assumes s: "sja1000_settings d"
    and req: "set_bittiming user" "\<not> set_btr user" "link_request (clock_freq d) (u_bittiming user)"
    and ok: "can_changelink user d = Some (EOK, d')"
  shows "timing_in_range sja1000_bittiming_const (bittiming d') \<and>
    hw d' = hw (sja1000_set_btr (sja1000_btr0 (bittiming d')) (sja1000_btr1 (ctrlmode d) (bittiming d')) d)"
proof -
  obtain d1 m d2 d3 d4 d5 where c: "link_bittiming user d = Some (EOK, d1)"
    "link_ctrlmode user d1 = (EOK, m, d2)" "link_restart_ms user d2 = (EOK, d3)"
    "link_restart user d3 = Some (EOK, d4)" "link_data_bittiming m user d4 = Some (EOK, d5)"
    "d' = d5"
    by (rule can_changelink_steps [OF ok]) (use req(2) in \<open>auto simp: link_btr_def\<close>)
  obtain bt where bt: "can_get_bittiming (clock_freq d) (u_bittiming user)
      (Some sja1000_bittiming_const) (bitrate_const d) = Some (Ret (EOK, bt))"
    and d1: "d1 = sja1000_set_bittiming (d\<lparr>bittiming := bt\<rparr>)" and down: "\<not> has_flag (dev_flags d) IFF_UP"
    using c(1) req(1) s
    by (auto simp: link_bittiming_def sja1000_settings_def Let_def
        split: if_splits option.splits exec.splits prod.splits)
  note k = link_ctrlmode_keeps [OF c(2)] link_restart_ms_keeps [OF c(3)]
  have down3: "\<not> has_flag (dev_flags d3) IFF_UP"
    using k down link_bittiming_keeps [OF c(1)] by simp
  have d4: "d4 = d3" using c(4) down3 by (auto simp: link_restart_def split: if_splits)
  have "sja1000_settings d3"
    using k(2) link_ctrlmode_settings [OF link_bittiming_settings [OF s c(1)] c(2)] by simp
  then have d': "d' = d3" using link_data_bittiming_refused c(5,6) d4 by blast
  have "hw (sja1000_set_btr b0 b1 (d\<lparr>bittiming := bt\<rparr>)) = hw (sja1000_set_btr b0 b1 d)" for b0 b1
    by (simp add: sja1000_set_btr_def wr_def)
  then show ?thesis
    using d' k d1 can_get_bittiming_in_range [OF req(3) bt] by (simp add: sja1000_set_bittiming_def)
qed

lemma changelink_timing:
  assumes chip: "memory_chip d" and s: "sja1000_settings d"
    and req: "set_bittiming user" "\<not> set_btr user" "link_request (clock_freq d) (u_bittiming user)"
    and ok: "can_changelink user d = Some (EOK, d')"
  shows "timing_in_range sja1000_bittiming_const (bittiming d') \<and>
    unat (hw d' SJA1000_BTR0 AND 0x3F) + 1 = unat (bt_brp (bittiming d')) \<and>
    unat (drop_bit 6 (hw d' SJA1000_BTR0)) + 1 = unat (bt_sjw (bittiming d')) \<and>
    unat (hw d' SJA1000_BTR1 AND 0xF) + 1 = unat (bt_prop_seg (bittiming d') + bt_phase_seg1 (bittiming d')) \<and>
    unat (drop_bit 4 (hw d' SJA1000_BTR1) AND 0x7) + 1 = unat (bt_phase_seg2 (bittiming d'))"
proof -
  note w = changelink_writes [OF s req ok]
  then have "timing_in_range sja1000_bittiming_const (bittiming d')" by simp
  with w btr_fields [OF this, of "ctrlmode d"] show ?thesis
    by (simp add: memory_set_btr [OF chip] SJA1000_BTR0_def SJA1000_BTR1_def)
qed

text \<open>
  C20: a successful change of the bit timing leaves the device with a timing inside the limits
  of the SJA1000, and the two timing registers of the chip hold exactly this timing: prescaler,
  jump width and both segments can be read back from them. This covers both ways to ask, by
  bit rate and by segments, and requests that change other parameters in the same call.
\<close>

theorem changelink_programs_timing:
  assumes chip: "memory_chip d" and s: "sja1000_settings d"
    and req: "set_bittiming user" "\<not> set_btr user" "link_request (clock_freq d) (u_bittiming user)"
    and ok: "can_changelink user d = Some (EOK, d')"
  shows "timing_in_range sja1000_bittiming_const (bittiming d') \<and>
    unat (hw d' SJA1000_BTR0 AND 0x3F) + 1 = unat (bt_brp (bittiming d')) \<and>
    unat (drop_bit 6 (hw d' SJA1000_BTR0)) + 1 = unat (bt_sjw (bittiming d')) \<and>
    unat (hw d' SJA1000_BTR1 AND 0xF) + 1 = unat (bt_prop_seg (bittiming d') + bt_phase_seg1 (bittiming d')) \<and>
    unat (drop_bit 4 (hw d' SJA1000_BTR1) AND 0x7) + 1 = unat (bt_phase_seg2 (bittiming d'))"
  using changelink_timing [OF assms] .

definition no_setup :: user_dev_setup where
  "no_setup = \<lparr>u_bittiming = zero_timing, u_data_bittiming = zero_timing, u_btr0 = 0, u_btr1 = 0,
     u_mask = 0, u_flags = 0, u_restart_ms = 0, u_termination = 0, set_bittiming = False,
     set_data_bittiming = False, set_btr = False, set_ctrlmode = False, set_restart_ms = False,
     set_restart = False, set_tdc = False, set_termination = False\<rparr>"

lemma vcan_dev_memory: "memory_chip vcan_dev"
  by (simp add: memory_chip_def vcan_dev_def)

lemma link_request_250k: "link_request 8000000 (bitrate_request 250000)"
  by (simp add: link_request_def bitrate_request_ok)

theorem changelink_programs_timing_witness:
  "\<exists>d'. can_changelink (no_setup\<lparr>set_bittiming := True, u_bittiming := bitrate_request 250000\<rparr>) vcan_dev =
       Some (EOK, d') \<and>
     timing_in_range sja1000_bittiming_const (bittiming d') \<and>
     unat (hw d' SJA1000_BTR0 AND 0x3F) + 1 = unat (bt_brp (bittiming d'))"
proof -
  let ?user = "no_setup\<lparr>set_bittiming := True, u_bittiming := bitrate_request 250000\<rparr>"
  have "can_get_bittiming 8000000 (bitrate_request 250000) (Some sja1000_bittiming_const) None =
      Some (Ret (EOK, timing_250k))"
    using calc_250k by (simp add: can_get_bittiming_def bitrate_request_def)
  then obtain d' where ok: "can_changelink ?user vcan_dev = Some (EOK, d')"
    by (simp add: can_changelink_def and_then_def link_bittiming_def link_ctrlmode_def
        link_restart_ms_def link_restart_def link_data_bittiming_def link_btr_def
        link_termination_def no_setup_def vcan_dev_def flag_defs rate_exceeds_def Let_def)
  have "clock_freq vcan_dev = 8000000" by (simp add: vcan_dev_def)
  then show ?thesis
    using changelink_programs_timing [OF vcan_dev_memory vcan_dev_settings _ _ _ ok] ok
      link_request_250k by (simp add: no_setup_def)
qed











section \<open>Opening and closing\<close>

lemma netif_stop_queue_keeps [simp]:
  "owns blocks rest (netif_stop_queue d) = owns blocks rest d"
  "mod_reads_back (netif_stop_queue d) = mod_reads_back d"
  by (simp_all add: netif_stop_queue_def mod_reads_back_def)

text \<open>
  C22: closing a device always succeeds and leaves nothing behind: the controller is stopped,
  the restart timer is cancelled, the frame that waited for its echo is given back to the pool,
  and no other block changes hands. The chip has to show the reset mode bit it was given.
\<close>

theorem sja1000_close_releases:
  assumes o: "owns blocks rest d" and chip: "mod_reads_back d"
  shows "\<exists>d'. sja1000_close d = Some d' \<and> owns blocks rest d' \<and> echo_skb d' = [None] \<and>
    restart_pending d' = None \<and> can_state d' = CAN_STATE_STOPPED \<and> same_config d d' \<and>
    netif_queue_stopped d'"
proof -
  let ?d = "(set_reset_mode (netif_stop_queue d))\<lparr>restart_pending := None\<rparr>"
  have co: "chip_only (netif_stop_queue d) (set_reset_mode (netif_stop_queue d))"
    by (rule chip_only_set_reset_mode)
  have "owns blocks rest ?d"
    using o owns_chip_only [OF co] by simp
  then obtain d' where d': "can_flush_echo_skb ?d = Some d'" "owns blocks rest d'" "echo_skb d' = [None]"
    "d' = ?d\<lparr>pool := pool d', echo_skb := [None], stats := stats d'\<rparr>"
    by (rule owns_flush_echo)
  have st: "can_state ?d = CAN_STATE_STOPPED"
    using set_reset_mode_stops [of "netif_stop_queue d"] chip by simp
  have q: "netif_queue_stopped ?d"
    using co by (elim chip_onlyE) (simp add: netif_queue_stopped_def netif_stop_queue_def queue_defs)
  have "restart_pending d' = None" "can_state d' = CAN_STATE_STOPPED" "same_config d d'"
    "netif_queue_stopped d'"
    by (subst d'(4), use st q in \<open>simp add: netif_queue_stopped_def\<close>)+
  then show ?thesis
    using d'(1-3) by (simp add: sja1000_close_def close_candev_def)
qed

theorem sja1000_close_releases_witness:
  "\<exists>d'. sja1000_close vcan_dev = Some d' \<and> owns {..<256} {} d' \<and> can_state d' = CAN_STATE_STOPPED"
proof -
  have "mod_reads_back vcan_dev"
    by (rule vcan_mod_reads_back) (simp_all add: vcan_dev_def)
  from sja1000_close_releases [OF vcan_dev_owns this] show ?thesis by blast
qed

end
