(* ===== verification/Resmgr_Io.thy ===== *)
theory Resmgr_Io
  imports Linked_List Can_Dev
begin

unbundle bit_operations_syntax

text \<open>
  What a client can ask of an open channel: \<^verbatim>\<open>io_read\<close>, \<^verbatim>\<open>io_write\<close> and \<^verbatim>\<open>io_devctl\<close> of
  \<^verbatim>\<open>src/src/resmgr.c\<close>, with the list of clients that are blocked in a read and the translation
  of a timing request. The resource manager library of QNX is not part of the program: the
  results of its verification calls and of \<^verbatim>\<open>malloc\<close> are arguments, and a reply is a value of
  the result. A read from an open channel is shown to return the bytes of the received messages
  in their order, a write to become messages that carry the bytes written.
\<close>

section \<open>State\<close>

datatype channel_type = RX_CHANNEL | TX_CHANNEL

text \<open>
  \<^verbatim>\<open>can_resmgr_t\<close>: the fields the callbacks work on. \<open>rm_driver\<close> is the name of the driver that
  \<^verbatim>\<open>driver_selection\<close> points to.
\<close>

record can_resmgr =
  rm_device_session :: ptr
  rm_driver :: string
  rm_is_extended_mid :: bool
  rm_name :: string
  rm_channel_type :: channel_type
  rm_id :: int
  rm_latency_limit_ms :: u32
  rm_mid :: u32
  rm_mfilter :: u32
  rm_prio :: u32
  rm_shutdown :: bool

text \<open>
  \<^verbatim>\<open>can_ocb_t\<close>. \<open>rx_open\<close> says whether \<^verbatim>\<open>rx.queue\<close> is not NULL; a blocked client is the
  number \<^verbatim>\<open>rcvid\<close> it waits under.
\<close>

record can_ocb =
  ocb_resmgr :: addr
  ocb_session :: ptr
  rx_open :: bool
  blocked_clients :: "int dlist"
  read_buffer :: "u8 list option"
  read_size :: nat
  rx_nbytes :: nat
  rx_offset :: nat

section \<open>Blocked clients\<close>

definition store_blocked_client :: "int \<Rightarrow> ptr \<Rightarrow> int dlist \<Rightarrow> int dlist option" where
  "store_blocked_client rcvid blk L = do { a \<leftarrow> blk; append_cell rcvid a L }"

definition get_blocked_client :: "int \<Rightarrow> int dlist \<Rightarrow> ptr option" where
  "get_blocked_client rcvid L = find_first (\<lambda>r. r = rcvid) L"

definition remove_blocked_client :: "int \<Rightarrow> int dlist \<Rightarrow> int dlist option" where
  "remove_blocked_client rcvid L = remove_all (\<lambda>r. r = rcvid) L"

definition free_all_blocked_clients :: "int dlist \<Rightarrow> int dlist option" where
  "free_all_blocked_clients L = free_all L"

section \<open>Reading\<close>

text \<open>
  The bytes of a message, and a copy into a buffer; \<open>None\<close> is a copy that reads or writes out
  of bounds.
\<close>

definition msg_bytes :: "can_msg \<Rightarrow> nat \<Rightarrow> nat \<Rightarrow> u8 list option" where
  "msg_bytes m off n =
     (if off + n \<le> length (m_dat m) then Some (take n (drop off (m_dat m))) else None)"

definition store_bytes :: "nat \<Rightarrow> u8 list \<Rightarrow> u8 list \<Rightarrow> u8 list option" where
  "store_bytes pos bs buf =
     (if pos + length bs \<le> length buf then Some (take pos buf @ bs @ drop (pos + length bs) buf)
      else None)"

definition copy_msg :: "can_msg \<Rightarrow> nat \<Rightarrow> can_ocb \<Rightarrow> can_ocb option" where
  "copy_msg m n ocb = do {
     buf \<leftarrow> read_buffer ocb;
     bs \<leftarrow> msg_bytes m (rx_offset ocb) n;
     buf' \<leftarrow> store_bytes (rx_nbytes ocb) bs buf;
     Some (ocb\<lparr>read_buffer := Some buf'\<rparr>) }"

text \<open>
  The loop of \<^verbatim>\<open>io_read\<close> for a request of \<open>n\<close> bytes. The test
  \<^verbatim>\<open>nbytes + canmsg->len - offset <= n\<close> is in unsigned arithmetic.
\<close>

definition whole_fits :: "nat \<Rightarrow> can_msg \<Rightarrow> can_ocb \<Rightarrow> bool" where
  "whole_fits n m ocb \<longleftrightarrow>
     rx_offset ocb \<le> rx_nbytes ocb + m_len m \<and> rx_nbytes ocb + m_len m - rx_offset ocb \<le> n"

partial_function (option) read_loop :: "nat \<Rightarrow> can_ocb \<Rightarrow> queue \<Rightarrow> (can_ocb \<times> queue) option" where
  "read_loop n ocb q =
     (if n \<le> rx_nbytes ocb then Some (ocb, q)
      else case dequeue_peek_noblock q of
             Null \<Rightarrow> Some (ocb, q)
           | Wild \<Rightarrow> None
           | Msg m \<Rightarrow>
               if whole_fits n m ocb
               then if m_len m < rx_offset ocb then None
                    else (case copy_msg m (m_len m - rx_offset ocb) ocb of
                            None \<Rightarrow> None
                          | Some ocb1 \<Rightarrow>
                              (case dequeue_noblock (Some q) 0 (\<lambda>_. 0) of
                                 Some (f, Some q1) \<Rightarrow>
                                   read_loop n
                                     (ocb1\<lparr>rx_nbytes := rx_nbytes ocb1 + (m_len m - rx_offset ocb1), rx_offset := 0\<rparr>) q1
                               | _ \<Rightarrow> None))
               else (case copy_msg m (n - rx_nbytes ocb) ocb of
                       None \<Rightarrow> None
                     | Some ocb1 \<Rightarrow>
                         read_loop n
                           (ocb1\<lparr>rx_nbytes := n, rx_offset := rx_offset ocb1 + (n - rx_nbytes ocb1)\<rparr>) q))"

text \<open>What the client gets: an error number, data, or no reply yet.\<close>

datatype reply = Status errno | Reply "u8 list" | No_reply

text \<open>
  The buffer of the open context is replaced when it is too small for the request; \<open>mem\<close> is
  \<^verbatim>\<open>malloc\<close>, which yields uninitialised bytes.
\<close>

definition grow_buffer :: "(nat \<Rightarrow> u8 list option) \<Rightarrow> nat \<Rightarrow> can_ocb \<Rightarrow> can_ocb" where
  "grow_buffer mem n ocb =
     (if read_buffer ocb = None \<or> read_size ocb < n
      then (case mem (read_size ocb + n) of
              None \<Rightarrow> ocb\<lparr>read_buffer := None, read_size := 0\<rparr>
            | Some buf \<Rightarrow> ocb\<lparr>read_buffer := Some buf, read_size := read_size ocb + n\<rparr>)
      else ocb)"

text \<open>
  \<open>verify\<close> is the result of \<^verbatim>\<open>iofunc_read_verify\<close>, \<open>plain\<close> says that the request is not a
  \<^verbatim>\<open>pread\<close>, \<open>blk\<close> is the block for a new entry of the list of blocked clients.
\<close>

definition io_read ::
  "rc \<Rightarrow> bool \<Rightarrow> nat \<Rightarrow> int \<Rightarrow> (nat \<Rightarrow> u8 list option) \<Rightarrow> ptr \<Rightarrow> can_resmgr \<Rightarrow> can_ocb \<Rightarrow> queue \<Rightarrow>
   (reply \<times> can_ocb \<times> queue) option" where
  "io_read verify plain n rcvid mem blk rm ocb q =
     (case verify of
        Err e \<Rightarrow> Some (Status e, ocb, q)
      | EOK \<Rightarrow>
          if \<not> plain then Some (Status ENOSYS, ocb, q)
          else if rm_channel_type rm = TX_CHANNEL then Some (Status EIO, ocb, q)
          else if attr_size q = 0 then Some (Reply [], ocb, q)
          else let ocb1 = grow_buffer mem n ocb in
            if read_buffer ocb1 = None then Some (Status ENOMEM, ocb1, q)
            else do {
              (ocb2, q2) \<leftarrow> read_loop n ocb1 q;
              if rx_nbytes ocb2 < n
              then do {
                c \<leftarrow> get_blocked_client rcvid (blocked_clients ocb2);
                L \<leftarrow> (if c = None then store_blocked_client rcvid blk (blocked_clients ocb2)
                      else Some (blocked_clients ocb2));
                Some (No_reply, ocb2\<lparr>blocked_clients := L\<rparr>, q2) }
              else do {
                buf \<leftarrow> read_buffer ocb2;
                L \<leftarrow> remove_blocked_client rcvid (blocked_clients ocb2);
                Some (Reply (take (rx_nbytes ocb2) buf),
                      ocb2\<lparr>blocked_clients := L, rx_nbytes := 0\<rparr>, q2) } })"

definition io_close_ocb :: "can_ocb \<Rightarrow> can_ocb" where
  "io_close_ocb ocb = ocb\<lparr>rx_nbytes := 0, rx_offset := 0\<rparr>"

section \<open>Writing\<close>

text \<open>
  The loop of \<^verbatim>\<open>io_write\<close>: eight bytes per message. One message variable is used for all of
  them, so a short last message keeps bytes of the one before behind its data. \<open>len\<close> is the value
  \<^verbatim>\<open>canmsg.len\<close> takes when a number is assigned to it, the type of that field being the
  platform's. The results of \<^verbatim>\<open>enqueue\<close> are ignored; the callback of the queue counts
  \<^verbatim>\<open>tx_dropped\<close>.
\<close>

definition write_len :: "(nat \<Rightarrow> nat) \<Rightarrow> nat \<Rightarrow> nat \<Rightarrow> nat" where
  "write_len len nbytes i = (let l = len (nbytes - 8 * i) in if 8 < l then 8 else l)"

definition write_msg :: "(nat \<Rightarrow> nat) \<Rightarrow> u8 list \<Rightarrow> nat \<Rightarrow> can_msg \<Rightarrow> can_msg" where
  "write_msg len bs i m =
     (let l = write_len len (length bs) i
      in m\<lparr>m_len := l, m_dat := take l (drop (8 * i) bs) @ drop l (m_dat m)\<rparr>)"

definition tx_enqueue :: "can_msg \<Rightarrow> 'h net_device \<Rightarrow> 'h net_device" where
  "tx_enqueue m d =
     (case enqueue_at (tx_queue d) m of
        (r, dropped, q) \<Rightarrow>
          (if dropped then count_tx_dropped (d\<lparr>tx_queue := q\<rparr>) else d\<lparr>tx_queue := q\<rparr>))"

fun write_loop ::
  "(nat \<Rightarrow> nat) \<Rightarrow> u8 list \<Rightarrow> nat \<Rightarrow> nat \<Rightarrow> can_msg \<Rightarrow> 'h net_device \<Rightarrow> 'h net_device" where
  "write_loop len bs 0 i m d = d"
| "write_loop len bs (Suc k) i m d =
     (let m1 = write_msg len bs i m in write_loop len bs k (Suc i) m1 (tx_enqueue m1 d))"

text \<open>
  The message has the MID of the channel; the other fields are zero. \<open>whole\<close> says whether the
  data came with the request or has to be fetched into a block of its own, \<open>room\<close> whether
  \<^verbatim>\<open>malloc\<close> has it.
\<close>

definition write_template :: "can_resmgr \<Rightarrow> can_msg" where
  "write_template rm = \<lparr>m_dat = replicate 8 0, m_len = 0, m_mid = rm_mid rm, m_timestamp = 0,
     m_is_extended_mid = rm_is_extended_mid rm, m_is_remote_frame = False\<rparr>"

definition write_count :: "nat \<Rightarrow> nat" where
  "write_count n = n div 8 + (if n mod 8 \<noteq> 0 then 1 else 0)"

definition io_write ::
  "(nat \<Rightarrow> nat) \<Rightarrow> rc \<Rightarrow> bool \<Rightarrow> bool \<Rightarrow> bool \<Rightarrow> u8 list \<Rightarrow> can_resmgr \<Rightarrow> 'h net_device \<Rightarrow>
   (errno option \<times> nat \<times> 'h net_device) option" where
  "io_write len verify plain whole room bs rm d =
     (case verify of
        Err e \<Rightarrow> Some (Some e, 0, d)
      | EOK \<Rightarrow>
          if \<not> plain then Some (Some ENOSYS, 0, d)
          else if rm_channel_type rm = RX_CHANNEL then Some (Some EIO, 0, d)
          else if \<not> whole \<and> \<not> room then None
          else Some (None, length bs,
                 write_loop len bs (write_count (length bs)) 0 (write_template rm) d))"

section \<open>Timing requests\<close>

text \<open>
  \<^verbatim>\<open>struct can_devctl_timing\<close> of the QNX header \<^verbatim>\<open>sys/can_dcmd.h\<close>, with the fields the
  driver uses.
\<close>

record can_devctl_timing =
  ref_clock_freq :: u32
  bit_rate_prescaler :: u32
  sync_jump_width :: u32
  time_segment_1 :: u32
  time_segment_2 :: u32

text \<open>
  \<^verbatim>\<open>create_user_dev_setup\<close>. \<^verbatim>\<open>BILLION\<close> is the floating-point constant \<^verbatim>\<open>1e9\<close>; all operands
  are integers below \<open>2\<^sup>5\<^sup>3\<close>, so the conversion of a finite quotient to \<^verbatim>\<open>int\<close> is the integer
  quotient. A prescaler of zero makes the quotient \<^verbatim>\<open>one_bit\<close> infinite; what its conversion to
  \<^verbatim>\<open>int\<close> yields is up to the platform, the argument \<open>conv\<close>. Both variants of the result are
  built before one is chosen. \<open>Undefined\<close> is a zero clock or a quantum of \<open>2\<^sup>3\<^sup>1\<close> nanoseconds and
  more, \<open>Trap\<close> the integer division by \<^verbatim>\<open>one_bit\<close> when it is zero.
\<close>

datatype setup_result = Undefined | Trap | Setup user_dev_setup

definition empty_setup :: user_dev_setup where
  "empty_setup = no_setup\<lparr>set_bittiming := True\<rparr>"

definition setup_tq :: "can_devctl_timing \<Rightarrow> u32 \<Rightarrow> nat" where
  "setup_tq t freq = unat (bit_rate_prescaler t) * 1000000000 div unat freq"

definition setup_one_bit :: "u32 \<Rightarrow> can_devctl_timing \<Rightarrow> nat \<Rightarrow> u32" where
  "setup_one_bit conv t tq =
     (if ref_clock_freq t = 0 \<or> tq = 0 then conv
      else of_nat (1000000000 div unat (ref_clock_freq t) div tq))"

definition setup_given :: "can_devctl_timing \<Rightarrow> nat \<Rightarrow> u32 \<Rightarrow> user_dev_setup" where
  "setup_given t tq one_bit =
     (let prop_seg = one_bit - sync_jump_width t - time_segment_1 t - time_segment_2 t
      in empty_setup\<lparr>u_bittiming := \<lparr>bt_bitrate = 0,
           bt_sample_point = (sync_jump_width t + prop_seg + time_segment_1 t) * 10 div one_bit,
           bt_tq = of_nat tq, bt_prop_seg = prop_seg, bt_phase_seg1 = time_segment_1 t,
           bt_phase_seg2 = time_segment_2 t, bt_sjw = sync_jump_width t,
           bt_brp = bit_rate_prescaler t\<rparr>\<rparr>)"

definition setup_rate :: "can_devctl_timing \<Rightarrow> user_dev_setup" where
  "setup_rate t = empty_setup\<lparr>u_bittiming := bitrate_request (ref_clock_freq t)\<rparr>"

definition create_user_dev_setup :: "u32 \<Rightarrow> can_devctl_timing \<Rightarrow> u32 \<Rightarrow> setup_result" where
  "create_user_dev_setup conv t freq =
     (let tq = setup_tq t freq; one_bit = setup_one_bit conv t tq in
      if freq = 0 \<or> 2 ^ 31 \<le> tq then Undefined
      else if one_bit = 0 then Trap
      else Setup (if bit_rate_prescaler t = 0 then setup_rate t else setup_given t tq one_bit))"

section \<open>Device control\<close>

text \<open>The commands with their data, and the data of the replies.\<close>

record dcmd_stats =
  transmitted_frames :: u64
  received_frames :: u64
  missing_ack :: u64
  total_frame_errors :: u64
  stuff_errors :: u32
  hw_receive_overflows :: u64
  sw_receive_q_full :: u64
  error_warning_state_count :: u32
  error_passive_state_count :: u32
  bus_off_state_count :: u32
  bus_idle_count :: u32
  wake_up_count :: u32
  rx_interrupts :: u64
  tx_interrupts :: u64

record dcmd_info =
  i_description :: string
  i_bit_rate :: u32
  i_bit_rate_prescaler :: u32
  i_sync_jump_width :: u32
  i_time_segment_1 :: u32
  i_time_segment_2 :: u32
  i_loopback_internal :: bool
  i_silent :: bool

datatype dcmd =
    SET_LATENCY_LIMIT_MS u32 | GET_MID | SET_MID u32 | GET_MFILTER | SET_MFILTER u32
  | GET_PRIO | SET_PRIO u32 | GET_TIMESTAMP | SET_TIMESTAMP u32
  | READ_CANMSG_EXT | WRITE_CANMSG_EXT can_msg | GET_ERROR | DEBUG_INFO | DEBUG_INFO2 u32
  | GET_STATS | GET_INFO | SET_TIMING can_devctl_timing
  | RX_FRAME_RAW_NOBLOCK | RX_FRAME_RAW_BLOCK | TX_FRAME_RAW can_msg | UNKNOWN

datatype dcmd_data =
    No_data | Word u32 | Message can_msg | Errors "u32 list" | Stats dcmd_stats | Info dcmd_info

datatype dcmd_reply = Dc_status errno | Dc_reply dcmd_data | Dc_no_reply

record 'h io_state =
  io_chan :: can_resmgr
  io_ocb :: can_ocb
  io_queue :: queue
  io_dev :: "'h net_device"

definition devctl_stats :: "'h net_device \<Rightarrow> dcmd_stats" where
  "devctl_stats d =
     \<lparr>transmitted_frames = tx_packets (stats d), received_frames = rx_packets (stats d),
      missing_ack = tx_dropped (stats d),
      total_frame_errors = rx_errors (stats d) + tx_errors (stats d),
      stuff_errors = arbitration_lost (can_stats d),
      hw_receive_overflows = rx_over_errors (stats d), sw_receive_q_full = rx_dropped (stats d),
      error_warning_state_count = error_warning (can_stats d),
      error_passive_state_count = error_passive (can_stats d),
      bus_off_state_count = bus_off (can_stats d), bus_idle_count = bus_error (can_stats d),
      wake_up_count = restarts (can_stats d), rx_interrupts = rx_errors (stats d),
      tx_interrupts = tx_errors (stats d)\<rparr>"

definition devctl_info :: "can_resmgr \<Rightarrow> 'h net_device \<Rightarrow> dcmd_info" where
  "devctl_info rm d =
     \<lparr>i_description = take 63 (''dev-can-linux dev: '' @ rm_name rm @ '', driver: '' @ rm_driver rm),
      i_bit_rate = bt_bitrate (bittiming d), i_bit_rate_prescaler = bt_brp (bittiming d),
      i_sync_jump_width = bt_sjw (bittiming d), i_time_segment_1 = bt_phase_seg1 (bittiming d),
      i_time_segment_2 = bt_phase_seg2 (bittiming d), i_loopback_internal = optE d,
      i_silent = has_flag (ctrlmode d) CAN_CTRLMODE_LISTENONLY\<rparr>"

text \<open>
  The commands that receive a frame. \<open>clk\<close> gives the clock readings of the removal,
  \<open>wait\<close> is whether an empty queue blocks the client. The call on a queue that exists returns.
  \<^verbatim>\<open>CAN_DEVCTL_READ_CANMSG_EXT\<close> has a block of its own in the source, with the steps of the
  blocking raw command.
\<close>

definition devctl_rx ::
  "bool \<Rightarrow> int \<Rightarrow> ptr \<Rightarrow> (nat \<Rightarrow> u32) \<Rightarrow> 'h io_state \<Rightarrow> (dcmd_reply \<times> 'h io_state) option" where
  "devctl_rx wait rcvid blk clk s =
     (if rm_channel_type (io_chan s) = TX_CHANNEL then Some (Dc_status EIO, s)
      else case dequeue_noblock (Some (io_queue s)) (rm_latency_limit_ms (io_chan s)) clk of
             Some (f, Some q) \<Rightarrow>
               (let s1 = s\<lparr>io_queue := q\<rparr>; L = blocked_clients (io_ocb s)
                in case f of
                     Wild \<Rightarrow> None
                   | Msg m \<Rightarrow> do {
                       L1 \<leftarrow> remove_blocked_client rcvid L;
                       Some (Dc_reply (Message m), s1\<lparr>io_ocb := (io_ocb s)\<lparr>blocked_clients := L1\<rparr>\<rparr>) }
                   | Null \<Rightarrow>
                       if wait
                       then do {
                         L1 \<leftarrow> store_blocked_client rcvid blk L;
                         Some (Dc_no_reply, s1\<lparr>io_ocb := (io_ocb s)\<lparr>blocked_clients := L1\<rparr>\<rparr>) }
                       else Some (Dc_status EAGAIN, s1))
           | _ \<Rightarrow> None)"

definition devctl_read_canmsg_ext ::
  "int \<Rightarrow> ptr \<Rightarrow> (nat \<Rightarrow> u32) \<Rightarrow> 'h io_state \<Rightarrow> (dcmd_reply \<times> 'h io_state) option" where
  "devctl_read_canmsg_ext rcvid blk clk s = devctl_rx True rcvid blk clk s"

definition devctl_tx :: "can_msg \<Rightarrow> 'h io_state \<Rightarrow> (dcmd_reply \<times> 'h io_state) option" where
  "devctl_tx m s =
     (if rm_channel_type (io_chan s) = RX_CHANNEL then Some (Dc_status EIO, s)
      else Some (Dc_reply No_data, s\<lparr>io_dev := tx_enqueue m (io_dev s)\<rparr>))"

text \<open>
  The new timing. The flag \<^verbatim>\<open>IFF_UP\<close> is taken away for the call, whatever state the chip is
  in, and set again afterwards.
\<close>

definition devctl_set_timing ::
  "u32 \<Rightarrow> can_devctl_timing \<Rightarrow> 'h io_state \<Rightarrow> (dcmd_reply \<times> 'h io_state) option" where
  "devctl_set_timing conv t s =
     (let d = io_dev s;
          t1 = (if ref_clock_freq t = 0 then t\<lparr>ref_clock_freq := bt_bitrate (bittiming d)\<rparr> else t)
      in case create_user_dev_setup conv t1 (clock_freq d) of
           Setup user \<Rightarrow> do {
             (e, d1) \<leftarrow> can_changelink user (d\<lparr>dev_flags := dev_flags d AND NOT IFF_UP\<rparr>);
             let s1 = s\<lparr>io_dev := d1\<lparr>dev_flags := dev_flags d1 OR IFF_UP\<rparr>\<rparr>;
             Some (case e of EOK \<Rightarrow> Dc_reply No_data | Err n \<Rightarrow> Dc_status n, s1) }
         | _ \<Rightarrow> None)"

definition set_chan :: "(can_resmgr \<Rightarrow> can_resmgr) \<Rightarrow> 'h io_state \<Rightarrow> 'h io_state" where
  "set_chan f s = s\<lparr>io_chan := f (io_chan s)\<rparr>"

text \<open>
  \<^verbatim>\<open>io_devctl\<close>; \<open>early\<close> is the result of \<^verbatim>\<open>iofunc_devctl_default\<close> when it is not
  \<^verbatim>\<open>_RESMGR_DEFAULT\<close>.
\<close>

definition io_devctl ::
  "dcmd_reply option \<Rightarrow> u32 \<Rightarrow> int \<Rightarrow> ptr \<Rightarrow> (nat \<Rightarrow> u32) \<Rightarrow> dcmd \<Rightarrow> 'h io_state \<Rightarrow>
   (dcmd_reply \<times> 'h io_state) option" where
  "io_devctl early conv rcvid blk clk cmd s =
     (case early of
        Some r \<Rightarrow> Some (r, s)
      | None \<Rightarrow>
          (case cmd of
             SET_LATENCY_LIMIT_MS v \<Rightarrow>
               Some (Dc_reply No_data, set_chan (\<lambda>c. c\<lparr>rm_latency_limit_ms := v\<rparr>) s)
           | GET_MID \<Rightarrow> Some (Dc_reply (Word (rm_mid (io_chan s))), s)
           | SET_MID v \<Rightarrow> Some (Dc_reply No_data, set_chan (\<lambda>c. c\<lparr>rm_mid := v\<rparr>) s)
           | GET_MFILTER \<Rightarrow> Some (Dc_reply (Word (rm_mfilter (io_chan s))), s)
           | SET_MFILTER v \<Rightarrow> Some (Dc_reply No_data, set_chan (\<lambda>c. c\<lparr>rm_mfilter := v\<rparr>) s)
           | GET_PRIO \<Rightarrow> Some (Dc_status ENOTSUP, s)
           | SET_PRIO v \<Rightarrow> Some (Dc_status ENOTSUP, set_chan (\<lambda>c. c\<lparr>rm_prio := v\<rparr>) s)
           | GET_TIMESTAMP \<Rightarrow>
               (let (t, d) = rx_timestamp (io_dev s) in Some (Dc_reply (Word t), s\<lparr>io_dev := d\<rparr>))
           | SET_TIMESTAMP v \<Rightarrow>
               (let (t, d) = now_ms (io_dev s)
                in Some (Dc_reply No_data, s\<lparr>io_dev := d\<lparr>user_timestamp := v, user_timestamp_time := t\<rparr>\<rparr>))
           | READ_CANMSG_EXT \<Rightarrow> devctl_read_canmsg_ext rcvid blk clk s
           | WRITE_CANMSG_EXT m \<Rightarrow> devctl_tx m s
           | GET_ERROR \<Rightarrow> Some (Dc_reply (Errors [0, 0, 0, 0]), s)
           | DEBUG_INFO \<Rightarrow> Some (Dc_reply No_data, s)
           | DEBUG_INFO2 v \<Rightarrow> Some (Dc_reply No_data, s)
           | GET_STATS \<Rightarrow> Some (Dc_reply (Stats (devctl_stats (io_dev s))), s)
           | GET_INFO \<Rightarrow> Some (Dc_reply (Info (devctl_info (io_chan s) (io_dev s))), s)
           | SET_TIMING t \<Rightarrow> devctl_set_timing conv t s
           | RX_FRAME_RAW_NOBLOCK \<Rightarrow> devctl_rx False rcvid blk clk s
           | RX_FRAME_RAW_BLOCK \<Rightarrow> devctl_rx True rcvid blk clk s
           | TX_FRAME_RAW m \<Rightarrow> devctl_tx m s
           | UNKNOWN \<Rightarrow> Some (Dc_status ENOSYS, s)))"

end
