(* ===== verification/Resmgr_Stream.thy ===== *)
theory Resmgr_Stream
  imports Resmgr_Io
begin

text \<open>
  Reading and writing as byte streams. A receive channel holds a stream of bytes: what is
  already in the buffer of the open context, followed by what the messages of the receive
  queue carry. A read takes bytes from its front; a write appends messages to the transmit
  queue that carry the bytes written.
\<close>

section \<open>The stream of a receive channel\<close>

definition payload :: "can_msg \<Rightarrow> u8 list" where
  "payload m = take (m_len m) (m_dat m)"

definition msg_ok :: "can_msg \<Rightarrow> bool" where
  "msg_ok m \<longleftrightarrow> m_len m \<le> length (m_dat m)"

definition buffered :: "can_ocb \<Rightarrow> u8 list" where
  "buffered ocb = take (rx_nbytes ocb) (the (read_buffer ocb))"

definition pending :: "can_ocb \<Rightarrow> queue \<Rightarrow> u8 list" where
  "pending ocb q = buffered ocb @ drop (rx_offset ocb) (concat (map payload (contents q)))"

text \<open>The offset lies inside the first message, and is zero when there is none.\<close>

fun offset_in :: "nat \<Rightarrow> can_msg list \<Rightarrow> bool" where
  "offset_in off [] \<longleftrightarrow> off = 0"
| "offset_in off (m # ms) \<longleftrightarrow> off \<le> m_len m"

definition reader_inv :: "can_ocb \<Rightarrow> queue \<Rightarrow> bool" where
  "reader_inv ocb q \<longleftrightarrow>
     queue_wf q \<and> session_up q \<and> attr_size q \<noteq> 0 \<and> (\<forall>m \<in> set (contents q). msg_ok m) \<and>
     (\<exists>buf. read_buffer ocb = Some buf \<and> length buf = read_size ocb) \<and>
     rx_nbytes ocb \<le> read_size ocb \<and>
     offset_in (rx_offset ocb) (contents q)"

text \<open>What the loop of a read leaves of the context.\<close>

definition same_ctx :: "can_ocb \<Rightarrow> can_ocb \<Rightarrow> bool" where
  "same_ctx ocb ocb' \<longleftrightarrow> blocked_clients ocb' = blocked_clients ocb \<and> rx_open ocb' = rx_open ocb"

lemma offset_in_0 [simp]: "offset_in 0 ms"
  by (cases ms) simp_all

lemma peek_head:
  assumes "queue_wf q" and "session_up q" and "attr_size q \<noteq> 0"
  shows "dequeue_peek_noblock q = (case contents q of [] \<Rightarrow> Null | m # ms \<Rightarrow> Msg m)"
proof (cases "contents q")
  case Nil
  then show ?thesis
    using assms contents_Nil_iff [of q] by (simp add: dequeue_peek_noblock_def)
next
  case (Cons m ms)
  then have ne: "q_begin q \<noteq> q_end q" using contents_Nil_iff [OF assms(1)] by simp
  have "data q ! q_begin q = m"
    using take_head_wf(2) [OF assms(1) ne] unfolding Cons by simp
  then show ?thesis
    using assms(2,3) ne take_head_wf(3) [OF assms(1) ne] Cons
    by (simp add: dequeue_peek_noblock_def read_head_def)
qed

lemma pop_head:
  assumes "queue_wf q" and "session_up q" and "contents q = m # ms"
  shows "\<exists>q1. dequeue_noblock (Some q) 0 clk = Some (Msg m, Some q1) \<and> queue_wf q1 \<and>
    session_up q1 \<and> attr_size q1 = attr_size q \<and> contents q1 = ms"
proof -
  obtain f q1 where q1: "dequeue_noblock_loop 0 clk 0 q = Some (f, q1)" "f \<noteq> Wild" "queue_wf q1"
    "attr_size q1 = attr_size q" "session_up q1 = session_up q"
    "(fetch_option f, contents q1) = first_fresh 0 clk 0 (contents q)"
    using dequeue_noblock_loop_refines [OF assms(1), of 0 clk 0] by blast
  have "fetch_option f = Some m" "contents q1 = ms"
    using q1(6) unfolding assms(3) first_fresh_no_limit by simp_all
  then have "f = Msg m"
    by (simp add: fetch_option_def split: fetch.splits)
  then show ?thesis
    using q1(1,3,4,5) assms(2) \<open>contents q1 = ms\<close> by (simp add: dequeue_noblock_def)
qed

text \<open>One copy of the loop appends to what is buffered.\<close>

lemma copy_msg_appends:
  assumes "read_buffer ocb = Some buf" and "rx_nbytes ocb + k \<le> length buf"
    and "msg_ok m" and "rx_offset ocb + k \<le> m_len m"
  shows "\<exists>buf'. copy_msg m k ocb = Some (ocb\<lparr>read_buffer := Some buf'\<rparr>) \<and>
    length buf' = length buf \<and>
    take (rx_nbytes ocb + k) buf' = take (rx_nbytes ocb) buf @ take k (drop (rx_offset ocb) (payload m))"
proof -
  let ?bs = "take k (drop (rx_offset ocb) (m_dat m))"
  have len: "length ?bs = k" using assms(3,4) by (simp add: msg_ok_def)
  have "take k (drop (rx_offset ocb) (payload m)) = ?bs"
    using assms(4) by (simp add: payload_def drop_take min_def)
  moreover have "msg_bytes m (rx_offset ocb) k = Some ?bs"
    using assms(3,4) by (simp add: msg_bytes_def msg_ok_def)
  moreover define buf' where
    "buf' = take (rx_nbytes ocb) buf @ ?bs @ drop (rx_nbytes ocb + k) buf"
  ultimately have "copy_msg m k ocb = Some (ocb\<lparr>read_buffer := Some buf'\<rparr>)"
    using assms(1,2) len by (simp add: copy_msg_def store_bytes_def)
  moreover have "length buf' = length buf"
    "take (rx_nbytes ocb + k) buf' = take (rx_nbytes ocb) buf @ ?bs"
    using assms(2) len by (simp_all add: buf'_def)
  ultimately show ?thesis
    using \<open>take k (drop (rx_offset ocb) (payload m)) = ?bs\<close> by auto
qed

lemma drop_first_payload:
  assumes "msg_ok m" and "off \<le> m_len m"
  shows "drop off (concat (map payload (m # ms))) = drop off (payload m) @ concat (map payload ms)"
  using assms by (simp add: payload_def msg_ok_def)

text \<open>The two kinds of rounds: a message that fits whole, and one that is taken in part.\<close>

lemma read_loop_whole:
  assumes inv: "reader_inv ocb q" and c: "contents q = m # ms" and lt: "rx_nbytes ocb < n"
    and n: "n \<le> read_size ocb" and fits: "rx_nbytes ocb + (m_len m - rx_offset ocb) \<le> n"
  shows "\<exists>ocb1 q1. read_loop n ocb q = read_loop n ocb1 q1 \<and> reader_inv ocb1 q1 \<and>
    contents q1 = ms \<and> rx_nbytes ocb1 \<le> n \<and> read_size ocb1 = read_size ocb \<and>
    same_ctx ocb ocb1 \<and> pending ocb1 q1 = pending ocb q"
proof -
  let ?k = "m_len m - rx_offset ocb"
  obtain buf where buf: "read_buffer ocb = Some buf" "length buf = read_size ocb"
    using inv by (auto simp: reader_inv_def)
  have off: "rx_offset ocb \<le> m_len m" and ok: "msg_ok m" and ms: "\<forall>x \<in> set ms. msg_ok x"
    and q: "queue_wf q" "session_up q" "attr_size q \<noteq> 0"
    using inv c by (simp_all add: reader_inv_def)
  obtain buf' where b': "copy_msg m ?k ocb = Some (ocb\<lparr>read_buffer := Some buf'\<rparr>)"
    "length buf' = length buf"
    "take (rx_nbytes ocb + ?k) buf' =
       take (rx_nbytes ocb) buf @ take ?k (drop (rx_offset ocb) (payload m))"
    using copy_msg_appends [OF buf(1), of ?k m] fits n buf(2) ok off by auto
  obtain q1 where q1: "dequeue_noblock (Some q) 0 (\<lambda>_. 0) = Some (Msg m, Some q1)" "queue_wf q1"
    "session_up q1" "attr_size q1 = attr_size q" "contents q1 = ms"
    using pop_head [OF q(1,2) c] by blast
  let ?o = "ocb\<lparr>read_buffer := Some buf', rx_nbytes := rx_nbytes ocb + ?k, rx_offset := 0\<rparr>"
  have "whole_fits n m ocb" using fits off by (simp add: whole_fits_def)
  then have "read_loop n ocb q = read_loop n ?o q1"
    using lt off b'(1) q1(1) peek_head [OF q] c
    by (subst read_loop.simps) simp
  moreover have "reader_inv ?o q1"
    using q1 q ms b'(2) buf(2) fits n by (simp add: reader_inv_def)
  moreover have "take ?k (drop (rx_offset ocb) (payload m)) = drop (rx_offset ocb) (payload m)"
    using off by (simp add: payload_def)
  then have "pending ?o q1 = pending ocb q"
    using b'(3) buf(1) q1(5) ok off
    by (simp add: pending_def buffered_def c drop_first_payload del: drop_append concat.simps list.map)
  ultimately show ?thesis
    using fits q1(5) by (intro exI [of _ ?o] exI [of _ q1]) (simp add: same_ctx_def)
qed

lemma read_loop_part:
  assumes inv: "reader_inv ocb q" and c: "contents q = m # ms" and lt: "rx_nbytes ocb < n"
    and n: "n \<le> read_size ocb" and part: "n < rx_nbytes ocb + (m_len m - rx_offset ocb)"
  shows "\<exists>ocb1. read_loop n ocb q = Some (ocb1, q) \<and> reader_inv ocb1 q \<and>
    rx_nbytes ocb1 = n \<and> read_size ocb1 = read_size ocb \<and>
    same_ctx ocb ocb1 \<and> pending ocb1 q = pending ocb q"
proof -
  let ?k = "n - rx_nbytes ocb"
  obtain buf where buf: "read_buffer ocb = Some buf" "length buf = read_size ocb"
    using inv by (auto simp: reader_inv_def)
  have off: "rx_offset ocb + ?k \<le> m_len m" and ok: "msg_ok m"
    and q: "queue_wf q" "session_up q" "attr_size q \<noteq> 0"
    using inv c part lt by (simp_all add: reader_inv_def)
  obtain buf' where b': "copy_msg m ?k ocb = Some (ocb\<lparr>read_buffer := Some buf'\<rparr>)"
    "length buf' = length buf"
    "take (rx_nbytes ocb + ?k) buf' =
       take (rx_nbytes ocb) buf @ take ?k (drop (rx_offset ocb) (payload m))"
    using copy_msg_appends [OF buf(1), of ?k m] lt n buf(2) ok off by auto
  let ?o = "ocb\<lparr>read_buffer := Some buf', rx_nbytes := n, rx_offset := rx_offset ocb + ?k\<rparr>"
  have "\<not> whole_fits n m ocb" using part lt unfolding whole_fits_def by arith
  then have "read_loop n ocb q = read_loop n ?o q"
    using lt b'(1) peek_head [OF q] c by (subst read_loop.simps) simp
  also have "\<dots> = Some (?o, q)" by (subst read_loop.simps) simp
  finally have "read_loop n ocb q = Some (?o, q)" .
  moreover have "reader_inv ?o q"
    using inv b'(2) buf(2) n c off by (simp add: reader_inv_def)
  moreover have "drop (rx_offset ocb) (payload m) =
      take ?k (drop (rx_offset ocb) (payload m)) @ drop (rx_offset ocb + ?k) (payload m)"
    by (metis append_take_drop_id drop_drop add.commute)
  then have "pending ?o q = pending ocb q"
    using b'(3) buf(1) ok off lt
    by (simp add: pending_def buffered_def c drop_first_payload del: drop_append concat.simps list.map)
  ultimately show ?thesis by (intro exI [of _ ?o]) (simp add: same_ctx_def)
qed

lemma read_loop_stream:
  assumes "reader_inv ocb q" and "rx_nbytes ocb \<le> n" and "n \<le> read_size ocb"
  shows "\<exists>ocb' q'. read_loop n ocb q = Some (ocb', q') \<and> reader_inv ocb' q' \<and>
    rx_nbytes ocb' \<le> n \<and> (rx_nbytes ocb' < n \<longrightarrow> contents q' = []) \<and>
    read_size ocb' = read_size ocb \<and> same_ctx ocb ocb' \<and> pending ocb' q' = pending ocb q"
  using assms
proof (induction "contents q" arbitrary: ocb q)
  case Nil
  have "dequeue_peek_noblock q = Null"
    using peek_head [of q] Nil by (simp add: reader_inv_def)
  then have "read_loop n ocb q = Some (ocb, q)" by (subst read_loop.simps) simp
  then show ?case using Nil by (auto simp: same_ctx_def)
next
  case (Cons m ms)
  consider (full) "rx_nbytes ocb = n"
    | (whole) "rx_nbytes ocb < n" "rx_nbytes ocb + (m_len m - rx_offset ocb) \<le> n"
    | (part) "rx_nbytes ocb < n" "n < rx_nbytes ocb + (m_len m - rx_offset ocb)"
    using Cons.prems(2) by linarith
  then show ?case
  proof cases
    case full
    then have "read_loop n ocb q = Some (ocb, q)" by (subst read_loop.simps) simp
    then show ?thesis using Cons.prems full by (auto simp: same_ctx_def)
  next
    case whole
    obtain ocb1 q1 where s: "read_loop n ocb q = read_loop n ocb1 q1" "reader_inv ocb1 q1"
      "contents q1 = ms" "rx_nbytes ocb1 \<le> n" "read_size ocb1 = read_size ocb"
      "same_ctx ocb ocb1" "pending ocb1 q1 = pending ocb q"
      using read_loop_whole [OF Cons.prems(1) Cons.hyps(2) [symmetric] whole(1) Cons.prems(3) whole(2)]
      by blast
    have "n \<le> read_size ocb1" using Cons.prems(3) s(5) by simp
    from Cons.hyps(1) [OF s(3) [symmetric] s(2) s(4) this] show ?thesis
      using s(6) unfolding s(1,5,7) same_ctx_def by simp
  next
    case part
    obtain ocb1 where "read_loop n ocb q = Some (ocb1, q)" "reader_inv ocb1 q" "rx_nbytes ocb1 = n"
      "read_size ocb1 = read_size ocb" "same_ctx ocb ocb1" "pending ocb1 q = pending ocb q"
      using read_loop_part [OF Cons.prems(1) Cons.hyps(2) [symmetric] part(1) Cons.prems(3) part(2)]
      by blast
    then show ?thesis by (intro exI [of _ ocb1] exI [of _ q]) simp
  qed
qed

text \<open>
  A larger buffer replaces the old one. Nothing is lost when nothing was buffered.
\<close>

lemma grow_buffer_keeps:
  assumes "reader_inv ocb q" and "n \<le> read_size ocb \<or> rx_nbytes ocb = 0"
    and "\<forall>k. \<exists>b. mem k = Some b \<and> length b = k"
  shows "reader_inv (grow_buffer mem n ocb) q \<and> n \<le> read_size (grow_buffer mem n ocb) \<and>
    rx_nbytes (grow_buffer mem n ocb) = rx_nbytes ocb \<and> same_ctx ocb (grow_buffer mem n ocb) \<and>
    pending (grow_buffer mem n ocb) q = pending ocb q"
proof -
  obtain b where "mem (read_size ocb + n) = Some b" "length b = read_size ocb + n"
    using assms(3) by blast
  then show ?thesis
    using assms(1,2)
    by (auto simp: grow_buffer_def reader_inv_def pending_def buffered_def same_ctx_def)
qed

lemma reader_inv_blocked [simp]:
  "reader_inv (ocb\<lparr>blocked_clients := L\<rparr>) q = reader_inv ocb q"
  "pending (ocb\<lparr>blocked_clients := L\<rparr>) q = pending ocb q"
  by (simp_all add: reader_inv_def pending_def buffered_def)

lemma buffered_full:
  assumes "reader_inv ocb q" and "rx_nbytes ocb = n"
  shows "buffered ocb = take n (pending ocb q) \<and> n \<le> length (pending ocb q) \<and>
    pending (ocb\<lparr>rx_nbytes := 0\<rparr>) q = drop n (pending ocb q)"
proof -
  have "length (buffered ocb) = n" using assms by (auto simp: reader_inv_def buffered_def)
  then show ?thesis using assms(2) by (simp add: pending_def) (simp add: buffered_def)
qed

lemma buffered_short:
  assumes "reader_inv ocb q" and "rx_nbytes ocb < n" and "contents q = []"
  shows "length (pending ocb q) < n"
  using assms by (auto simp: reader_inv_def pending_def buffered_def)

section \<open>Reading\<close>

text \<open>
  A read on a receive channel whose context satisfies the invariant: no more is buffered than
  is asked for, nothing is buffered if the buffer has to grow, \<open>mem\<close> has blocks of every size,
  \<open>xs\<close> are the blocked clients and \<open>a\<close> is a free block.
\<close>

definition read_ready ::
  "int store \<Rightarrow> (addr \<times> int) list \<Rightarrow> addr \<Rightarrow> (nat \<Rightarrow> u8 list option) \<Rightarrow> nat \<Rightarrow> can_resmgr \<Rightarrow> can_ocb \<Rightarrow>
   queue \<Rightarrow> bool" where
  "read_ready g xs a mem n rm ocb q \<longleftrightarrow>
     reader_inv ocb q \<and> rm_channel_type rm = RX_CHANNEL \<and> rx_nbytes ocb \<le> n \<and>
     (n \<le> read_size ocb \<or> rx_nbytes ocb = 0) \<and> (\<forall>k. \<exists>b. mem k = Some b \<and> length b = k) \<and>
     dl_rel g (blocked_clients ocb) xs \<and> dl_cells (blocked_clients ocb) a = None"

lemma read_ready_loop:
  assumes "read_ready g xs a mem n rm ocb q"
  obtains ocb' q' b b' where "read_loop n (grow_buffer mem n ocb) q = Some (ocb', q')"
    "reader_inv ocb' q'" "rx_nbytes ocb' \<le> n" "rx_nbytes ocb' < n \<longrightarrow> contents q' = []"
    "same_ctx ocb ocb'" "pending ocb' q' = pending ocb q"
    "read_buffer (grow_buffer mem n ocb) = Some b" "read_buffer ocb' = Some b'" "attr_size q \<noteq> 0"
    "n \<le> read_size ocb'"
proof -
  let ?o = "grow_buffer mem n ocb"
  have "reader_inv ocb q" "n \<le> read_size ocb \<or> rx_nbytes ocb = 0"
    "\<forall>k. \<exists>b. mem k = Some b \<and> length b = k"
    using assms by (simp_all add: read_ready_def)
  note g = grow_buffer_keeps [OF this]
  then obtain ocb' q' where l: "read_loop n ?o q = Some (ocb', q')" "reader_inv ocb' q'"
    "rx_nbytes ocb' \<le> n" "rx_nbytes ocb' < n \<longrightarrow> contents q' = []"
    "same_ctx ocb ocb'" "pending ocb' q' = pending ocb q" "n \<le> read_size ocb'"
    using read_loop_stream [of ?o q n] assms by (auto simp: read_ready_def same_ctx_def)
  moreover obtain b b' where "read_buffer ?o = Some b" "read_buffer ocb' = Some b'" "attr_size q \<noteq> 0"
    using g l(2) unfolding reader_inv_def by blast
  ultimately show thesis using that by blast
qed

lemma io_read_blocks:
  assumes r: "read_ready g xs a mem n rm ocb q" and short: "length (pending ocb q) < n"
  shows "\<exists>ocb' q'. io_read EOK True n rcvid mem (Some a) rm ocb q = Some (No_reply, ocb', q') \<and>
    reader_inv ocb' q' \<and> contents q' = [] \<and> pending ocb' q' = pending ocb q \<and>
    rx_nbytes ocb' \<le> n \<and> n \<le> read_size ocb' \<and> rx_open ocb' = rx_open ocb \<and>
    dl_rel g (blocked_clients ocb') (if rcvid \<in> snd ` set xs then xs else xs @ [(a, rcvid)])"
proof -
  obtain ocb' q' b b' where l: "read_loop n (grow_buffer mem n ocb) q = Some (ocb', q')"
    "reader_inv ocb' q'" "rx_nbytes ocb' \<le> n" "rx_nbytes ocb' < n \<longrightarrow> contents q' = []"
    "same_ctx ocb ocb'" "pending ocb' q' = pending ocb q"
    "read_buffer (grow_buffer mem n ocb) = Some b" "read_buffer ocb' = Some b'" "attr_size q \<noteq> 0"
    "n \<le> read_size ocb'"
    using read_ready_loop [OF r] .
  have bl: "dl_rel g (blocked_clients ocb) xs" "dl_cells (blocked_clients ocb) a = None"
    and rx: "rm_channel_type rm = RX_CHANNEL"
    using r by (simp_all add: read_ready_def)
  have lt: "rx_nbytes ocb' < n" using buffered_full [OF l(2)] short l(3,6) by fastforce
  obtain L where L: "append_cell rcvid a (blocked_clients ocb) = Some L" "dl_rel g L (xs @ [(a, rcvid)])"
    using append_cell_rel [OF bl] by blast
  have listed: "(List.find (\<lambda>y. snd y = rcvid) xs = None) = (rcvid \<notin> snd ` set xs)"
    by (auto simp: find_None_iff image_iff)
  let ?L = "if rcvid \<in> snd ` set xs then blocked_clients ocb else L"
  have "io_read EOK True n rcvid mem (Some a) rm ocb q = Some (No_reply, ocb'\<lparr>blocked_clients := ?L\<rparr>, q')"
    using lt l(1,5,7-9) rx L(1) listed
    by (simp add: io_read_def get_blocked_client_def find_first_rel [OF bl(1)] store_blocked_client_def
        same_ctx_def)
  then show ?thesis using lt l(2,4-6,10) bl L(2) by (simp add: same_ctx_def)
qed

lemma io_read_replies:
  assumes r: "read_ready g xs a mem n rm ocb q" and enough: "n \<le> length (pending ocb q)"
  shows "\<exists>ocb' q'. io_read EOK True n rcvid mem (Some a) rm ocb q =
      Some (Reply (take n (pending ocb q)), ocb', q') \<and>
    reader_inv ocb' q' \<and> pending ocb' q' = drop n (pending ocb q) \<and>
    dl_rel g (blocked_clients ocb') (filter (\<lambda>y. snd y \<noteq> rcvid) xs)"
proof -
  obtain ocb' q' b b' where l: "read_loop n (grow_buffer mem n ocb) q = Some (ocb', q')"
    "reader_inv ocb' q'" "rx_nbytes ocb' \<le> n" "rx_nbytes ocb' < n \<longrightarrow> contents q' = []"
    "same_ctx ocb ocb'" "pending ocb' q' = pending ocb q"
    "read_buffer (grow_buffer mem n ocb) = Some b" "read_buffer ocb' = Some b'" "attr_size q \<noteq> 0"
    "n \<le> read_size ocb'"
    using read_ready_loop [OF r] .
  have bl: "dl_rel g (blocked_clients ocb) xs" and rx: "rm_channel_type rm = RX_CHANNEL"
    using r by (simp_all add: read_ready_def)
  have full: "rx_nbytes ocb' = n" using buffered_short [OF l(2), of n] l(3,4,6) enough by fastforce
  obtain L where L: "remove_blocked_client rcvid (blocked_clients ocb) = Some L"
    "dl_rel g L (filter (\<lambda>y. snd y \<noteq> rcvid) xs)"
    using remove_all_rel [OF bl, of "\<lambda>r. r = rcvid"] unfolding remove_blocked_client_def by blast
  let ?o = "ocb'\<lparr>blocked_clients := L, rx_nbytes := 0\<rparr>"
  have "io_read EOK True n rcvid mem (Some a) rm ocb q = Some (Reply (buffered ocb'), ?o, q')"
    using full l(1,5,7-9) rx L(1) by (simp add: io_read_def buffered_def same_ctx_def)
  moreover have "reader_inv ?o q'" using l(2) by (simp add: reader_inv_def)
  moreover have "pending ?o q' = pending (ocb'\<lparr>rx_nbytes := 0\<rparr>) q'"
    by (simp add: pending_def buffered_def)
  ultimately show ?thesis using buffered_full [OF l(2) full] l(6) L(2) by simp
qed

text \<open>
  C23: A read of \<open>n\<close> bytes from a receive channel takes from the front of the stream. When the
  stream has \<open>n\<close> bytes the client gets exactly the first \<open>n\<close>, in order, the rest stays, and
  the client is no longer listed as blocked; otherwise there is no reply, not a byte is lost,
  and the client is listed once, to be served when more is received. The read always returns,
  and keeps the invariant of the open context.
\<close>

theorem io_read_stream:
  assumes "read_ready g xs a mem n rm ocb q"
  shows "\<exists>r ocb' q'. io_read EOK True n rcvid mem (Some a) rm ocb q = Some (r, ocb', q') \<and>
    reader_inv ocb' q' \<and>
    (if n \<le> length (pending ocb q)
     then r = Reply (take n (pending ocb q)) \<and> pending ocb' q' = drop n (pending ocb q) \<and>
       dl_rel g (blocked_clients ocb') (filter (\<lambda>y. snd y \<noteq> rcvid) xs)
     else r = No_reply \<and> pending ocb' q' = pending ocb q \<and>
       dl_rel g (blocked_clients ocb') (if rcvid \<in> snd ` set xs then xs else xs @ [(a, rcvid)]))"
proof (cases "n \<le> length (pending ocb q)")
  case True
  then show ?thesis using io_read_replies [OF assms True, of rcvid] by (simp only: if_True) blast
next
  case False
  then have "length (pending ocb q) < n" by simp
  then show ?thesis using io_read_blocks [OF assms, of rcvid] False by (simp only: if_False) blast
qed

text \<open>A receive channel with a buffer of sixteen bytes and two messages of eight.\<close>

definition data_msg :: "u8 list \<Rightarrow> can_msg" where
  "data_msg bs = \<lparr>m_dat = bs, m_len = length bs, m_mid = 0, m_timestamp = 0,
     m_is_extended_mid = False, m_is_remote_frame = False\<rparr>"

definition rx_chan :: can_resmgr where
  "rx_chan = \<lparr>rm_device_session = Some 1, rm_driver = ''sja1000'', rm_is_extended_mid = False,
     rm_name = ''/dev/can0/rx0'', rm_channel_type = RX_CHANNEL, rm_id = 1, rm_latency_limit_ms = 0,
     rm_mid = 0, rm_mfilter = 0, rm_prio = 0, rm_shutdown = False\<rparr>"

definition rx_ocb :: can_ocb where
  "rx_ocb = \<lparr>ocb_resmgr = 1, ocb_session = Some 2, rx_open = True,
     blocked_clients = \<lparr>dl_root = None, dl_cells = Map.empty\<rparr>,
     read_buffer = Some (replicate 16 0), read_size = 16, rx_nbytes = 0, rx_offset = 0\<rparr>"

definition rx_queue2 :: queue where
  "rx_queue2 = (fresh_queue 4)\<lparr>data := [data_msg [1,2,3,4,5,6,7,8],
     data_msg [9,10,11,12,13,14,15,16], blank_msg, blank_msg], q_end := 2\<rparr>"

lemma rx_queue2_contents:
  "contents rx_queue2 = [data_msg [1,2,3,4,5,6,7,8], data_msg [9,10,11,12,13,14,15,16]]"
  by (simp add: rx_queue2_def contents_def fresh_queue_def create_queue_at_def blank_queue_def)

lemma rx_ready:
  "read_ready Map.empty [] 5 (\<lambda>k. Some (replicate k 0)) n rx_chan rx_ocb rx_queue2"
  by (simp add: read_ready_def reader_inv_def rx_queue2_contents)
    (simp add: rx_queue2_def queue_wf_def fresh_queue_def create_queue_at_def blank_queue_def
      data_msg_def msg_ok_def rx_ocb_def rx_chan_def dl_rel_def apart_def)

lemma rx_pending: "pending rx_ocb rx_queue2 = [1,2,3,4,5,6,7,8,9,10,11,12,13,14,15,16]"
  by (simp add: pending_def buffered_def rx_queue2_contents data_msg_def payload_def rx_ocb_def)

theorem io_read_stream_witness:
  "\<exists>ocb' q'. io_read EOK True 12 7 (\<lambda>k. Some (replicate k 0)) (Some 5) rx_chan rx_ocb rx_queue2 =
      Some (Reply [1,2,3,4,5,6,7,8,9,10,11,12], ocb', q') \<and> pending ocb' q' = [13,14,15,16]"
  using io_read_stream [OF rx_ready [of 12], of 7] by (simp add: rx_pending) blast

text \<open>
  A read that is given up leaves what it collected in the buffer, and the next read does
  not look at how much that is. After a read of more bytes than there are, a read of fewer
  bytes than were collected is answered with all of them, more than the client asked for.
\<close>

lemma io_read_overlong_reply:
  assumes "read_ready g xs a mem n rm ocb q" and "length (pending ocb q) < n"
    and "k < length (pending ocb q)"
  shows "\<exists>ocb1 q1 ocb2 q2. io_read EOK True n rcvid mem (Some a) rm ocb q = Some (No_reply, ocb1, q1) \<and>
    io_read EOK True k rcvid' mem blk rm ocb1 q1 = Some (Reply (pending ocb q), ocb2, q2)"
proof -
  obtain ocb1 q1 ys where o: "io_read EOK True n rcvid mem (Some a) rm ocb q = Some (No_reply, ocb1, q1)"
    "reader_inv ocb1 q1" "contents q1 = []" "pending ocb1 q1 = pending ocb q"
    "dl_rel g (blocked_clients ocb1) ys"
    using io_read_blocks [OF assms(1,2), of rcvid] by blast
  obtain b where b: "read_buffer ocb1 = Some b" "length b = read_size ocb1" "attr_size q1 \<noteq> 0"
    "rx_nbytes ocb1 \<le> read_size ocb1" "rm_channel_type rm = RX_CHANNEL"
    using o(2) assms(1) unfolding reader_inv_def read_ready_def by blast
  have "pending ocb q = take (rx_nbytes ocb1) b"
    unfolding o(4) [symmetric] using o(3) b(1) by (simp add: pending_def buffered_def)
  then have all: "take (rx_nbytes ocb1) b = pending ocb q" "length (pending ocb q) = rx_nbytes ocb1"
    using b(2,4) by simp_all
  obtain L where "remove_blocked_client rcvid' (blocked_clients ocb1) = Some L"
    using remove_all_rel [OF o(5), of "\<lambda>r. r = rcvid'"] unfolding remove_blocked_client_def by blast
  moreover have "grow_buffer mem k ocb1 = ocb1"
    using b all(2) assms(3) by (simp add: grow_buffer_def)
  moreover have "read_loop k ocb1 q1 = Some (ocb1, q1)"
    using all(2) assms(3) by (subst read_loop.simps) simp
  ultimately have "\<exists>ocb2 q2. io_read EOK True k rcvid' mem blk rm ocb1 q1 =
      Some (Reply (pending ocb q), ocb2, q2)"
    using b all assms(3) by (simp add: io_read_def)
  then show ?thesis using o(1) by blast
qed

lemma io_read_overlong_reply_witness:
  "\<exists>ocb1 q1 ocb2 q2.
    io_read EOK True 100 7 (\<lambda>k. Some (replicate k 0)) (Some 5) rx_chan rx_ocb rx_queue2 =
      Some (No_reply, ocb1, q1) \<and>
    io_read EOK True 4 8 (\<lambda>k. Some (replicate k 0)) None rx_chan ocb1 q1 =
      Some (Reply [1,2,3,4,5,6,7,8,9,10,11,12,13,14,15,16], ocb2, q2)"
  using io_read_overlong_reply [OF rx_ready [of 100], of 4 7 8 None] by (simp add: rx_pending)

section \<open>Writing\<close>

text \<open>The messages the loop enqueues, one after the other.\<close>

fun written :: "(nat \<Rightarrow> nat) \<Rightarrow> u8 list \<Rightarrow> nat \<Rightarrow> nat \<Rightarrow> can_msg \<Rightarrow> can_msg list" where
  "written len bs 0 i m = []"
| "written len bs (Suc k) i m = (let m1 = write_msg len bs i m in m1 # written len bs k (Suc i) m1)"

lemma length_written [simp]: "length (written len bs k i m) = k"
  by (induction k arbitrary: i m) (simp_all add: Let_def)

lemma write_msg_header [simp]:
  "m_mid (write_msg len bs i m) = m_mid m"
  "m_is_extended_mid (write_msg len bs i m) = m_is_extended_mid m"
  "m_is_remote_frame (write_msg len bs i m) = m_is_remote_frame m"
  "m_len (write_msg len bs i m) \<le> 8"
  by (simp_all add: write_msg_def write_len_def Let_def)

lemma written_header:
  "x \<in> set (written len bs k i m) \<Longrightarrow>
   m_mid x = m_mid m \<and> m_is_extended_mid x = m_is_extended_mid m \<and>
   m_is_remote_frame x = m_is_remote_frame m \<and> m_len x \<le> 8"
proof (induction k arbitrary: i m)
  case (Suc k)
  consider "x = write_msg len bs i m" | "x \<in> set (written len bs k (Suc i) (write_msg len bs i m))"
    using Suc.prems by (auto simp: Let_def)
  then show ?case using Suc.IH [of "Suc i" "write_msg len bs i m"] by cases simp_all
qed simp

lemma payload_write_msg:
  assumes "\<forall>k \<le> length bs. len k = k"
  shows "payload (write_msg len bs i m) = take 8 (drop (8 * i) bs)"
  using assms by (simp add: payload_def write_msg_def write_len_def Let_def)

lemma concat_written:
  assumes "\<forall>k \<le> length bs. len k = k"
  shows "concat (map payload (written len bs k i m)) = take (8 * k) (drop (8 * i) bs)"
proof (induction k arbitrary: i m)
  case (Suc k)
  have "take (8 + 8 * k) (drop (8 * i) bs) = take 8 (drop (8 * i) bs) @ take (8 * k) (drop (8 + 8 * i) bs)"
    by (simp add: take_add)
  then show ?case using Suc by (simp add: Let_def payload_write_msg [OF assms])
qed simp

lemma write_count_covers: "n \<le> 8 * write_count n"
  unfolding write_count_def by (split if_split) presburger

lemma tx_enqueue_appends:
  assumes "queue_wf (tx_queue d)" and "session_up (tx_queue d)"
    and "length (contents (tx_queue d)) < attr_size (tx_queue d) - 1"
  shows "contents (tx_queue (tx_enqueue m d)) = contents (tx_queue d) @ [m] \<and>
    queue_wf (tx_queue (tx_enqueue m d)) \<and> session_up (tx_queue (tx_enqueue m d)) \<and>
    attr_size (tx_queue (tx_enqueue m d)) = attr_size (tx_queue d)"
proof -
  let ?q = "snd (snd (enqueue_at (tx_queue d) m))"
  have "tx_queue (tx_enqueue m d) = ?q"
    by (simp add: tx_enqueue_def count_tx_dropped_def split: prod.split)
  then show ?thesis
    using assms contents_enqueue_at [OF assms(1,2), of m] enqueue_spec_room [OF assms(1,3), of m]
      queue_wf_enqueue_at [OF assms(1), of m]
    by (simp add: frame_rules)
qed

lemma write_loop_appends:
  assumes "queue_wf (tx_queue d)" and "session_up (tx_queue d)"
    and "length (contents (tx_queue d)) + k < attr_size (tx_queue d)"
  shows "contents (tx_queue (write_loop len bs k i m d)) = contents (tx_queue d) @ written len bs k i m"
  using assms
proof (induction k arbitrary: i m d)
  case (Suc k)
  then have "length (contents (tx_queue d)) < attr_size (tx_queue d) - 1" by simp
  note e = tx_enqueue_appends [OF Suc.prems(1,2) this, of "write_msg len bs i m"]
  then show ?case
    using Suc.IH [of "tx_enqueue (write_msg len bs i m) d" "Suc i" "write_msg len bs i m"] Suc.prems(3)
    by (simp add: Let_def)
qed simp

text \<open>
  C24: A write on a transmit channel whose queue has room becomes messages that carry exactly
  the bytes written: they are appended to the transmit queue in order, each with at most eight
  bytes and the identifier of the channel, and their data put together is what the client
  wrote. The client is told that all of it was accepted.
\<close>

theorem io_write_roundtrip:
  assumes "rm_channel_type rm = TX_CHANNEL" and "whole \<or> room"
    and "\<forall>k \<le> length bs. len k = k"
    and "queue_wf (tx_queue d)" and "session_up (tx_queue d)"
    and "length (contents (tx_queue d)) + write_count (length bs) < attr_size (tx_queue d)"
  shows "\<exists>ms d'. io_write len EOK True whole room bs rm d = Some (None, length bs, d') \<and>
    contents (tx_queue d') = contents (tx_queue d) @ ms \<and> concat (map payload ms) = bs \<and>
    length ms = write_count (length bs) \<and>
    (\<forall>m \<in> set ms. m_mid m = rm_mid rm \<and> m_is_extended_mid m = rm_is_extended_mid rm \<and>
       \<not> m_is_remote_frame m \<and> m_len m \<le> 8)"
proof -
  let ?k = "write_count (length bs)"
  let ?ms = "written len bs ?k 0 (write_template rm)"
  have "concat (map payload ?ms) = bs"
    using concat_written [OF assms(3)] write_count_covers [of "length bs"] by simp
  moreover have "\<forall>m \<in> set ?ms. m_mid m = rm_mid rm \<and> m_is_extended_mid m = rm_is_extended_mid rm \<and>
      \<not> m_is_remote_frame m \<and> m_len m \<le> 8"
    using written_header [of _ len bs ?k 0 "write_template rm"] by (simp add: write_template_def)
  moreover have "io_write len EOK True whole room bs rm d =
      Some (None, length bs, write_loop len bs ?k 0 (write_template rm) d)"
    using assms(1,2) by (auto simp: io_write_def)
  ultimately show ?thesis
    using write_loop_appends [OF assms(4-6)] length_written by blast
qed

definition tx_chan :: can_resmgr where
  "tx_chan = rx_chan\<lparr>rm_name := ''/dev/can0/tx0'', rm_channel_type := TX_CHANNEL, rm_mid := 42\<rparr>"

theorem io_write_roundtrip_witness:
  "\<exists>ms d'. io_write (\<lambda>k. k mod 256) EOK True True False [1,2,3,4,5,6,7,8,9,10] tx_chan
      (vcan_dev\<lparr>tx_queue := fresh_queue 8\<rparr>) = Some (None, 10, d') \<and>
    contents (tx_queue d') = ms \<and> concat (map payload ms) = [1,2,3,4,5,6,7,8,9,10] \<and> length ms = 2"
proof -
  let ?bs = "[1,2,3,4,5,6,7,8,9,10] :: u8 list"
  have "length ?bs = 10" "write_count 10 = 2" by (simp_all add: write_count_def)
  then show ?thesis
    using io_write_roundtrip [of tx_chan True False ?bs "\<lambda>k. k mod 256"
        "vcan_dev\<lparr>tx_queue := fresh_queue 8\<rparr>"]
    by (simp only:) (simp add: tx_chan_def fresh_queue_ok, blast)
qed

end
