(* ===== verification/Resmgr_Devctl.thy ===== *)
theory Resmgr_Devctl
  imports Resmgr_Stream
begin

unbundle bit_operations_syntax

text \<open>
  Properties of the device control commands: receiving a frame, and setting the bit timing of a
  device that is in use.
\<close>

section \<open>Timing requests\<close>

lemma setup_one_bit_zero:
  assumes "ref_clock_freq t \<noteq> 0" and "0 < tq"
  shows "setup_one_bit conv t tq = 0 \<longleftrightarrow> 1000000000 div unat (ref_clock_freq t) < tq"
proof -
  let ?n = "1000000000 div unat (ref_clock_freq t) div tq"
  have "?n \<le> 1000000000"
    by (rule le_trans [OF div_le_dividend div_le_dividend])
  then have "(of_nat ?n :: u32) = 0 \<longleftrightarrow> ?n = 0"
    by (auto simp: word_of_nat_eq_0_iff dest: dvd_imp_le)
  then show ?thesis using assms by (simp add: setup_one_bit_def div_eq_0_iff)
qed

text \<open>
  A timing request whose time quantum, the prescaler applied to the clock of the
  controller, is longer than one bit of the requested rate stops the driver with an integer
  division by zero. Every other request with a quantum and a rate yields a setup.
\<close>

lemma timing_request_traps:
  assumes "freq \<noteq> 0" and "ref_clock_freq t \<noteq> 0" and "0 < setup_tq t freq"
    and "setup_tq t freq < 2 ^ 31"
  shows "create_user_dev_setup conv t freq =
    (if 1000000000 div unat (ref_clock_freq t) < setup_tq t freq then Trap
     else Setup (setup_given t (setup_tq t freq) (setup_one_bit conv t (setup_tq t freq))))"
proof -
  have "bit_rate_prescaler t \<noteq> 0" using assms(3) by (auto simp: setup_tq_def)
  then show ?thesis
    using assms setup_one_bit_zero [OF assms(2,3), of conv]
    by (simp add: create_user_dev_setup_def Let_def)
qed

definition timing_1M_64 :: can_devctl_timing where
  "timing_1M_64 = \<lparr>ref_clock_freq = 1000000, bit_rate_prescaler = 64, sync_jump_width = 1,
     time_segment_1 = 3, time_segment_2 = 2\<rparr>"

lemma timing_request_traps_witness:
  "create_user_dev_setup 0x80000000 timing_1M_64 8000000 = Trap"
  using timing_request_traps [of 8000000 timing_1M_64 "0x80000000"]
  by (simp add: timing_1M_64_def setup_tq_def)

text \<open>The rate a request asks for: its own, or the one in force.\<close>

definition requested_rate :: "can_devctl_timing \<Rightarrow> 'h net_device \<Rightarrow> u32" where
  "requested_rate t d = (if ref_clock_freq t = 0 then bt_bitrate (bittiming d) else ref_clock_freq t)"

lemma setup_tq_pos:
  assumes "bit_rate_prescaler t \<noteq> 0" and "freq \<noteq> 0" and "freq \<le> 1000000000"
  shows "0 < setup_tq t freq"
proof -
  have "unat freq \<le> 1000000000" using assms(3) by (simp add: word_le_nat_alt)
  moreover have "0 < unat (bit_rate_prescaler t)" "0 < unat freq"
    using assms(1,2) by (simp_all add: unat_gt_0)
  ultimately have "unat freq \<le> unat (bit_rate_prescaler t) * 1000000000"
    using mult_le_mono [of 1 "unat (bit_rate_prescaler t)" "unat freq" 1000000000] by simp
  then show ?thesis using \<open>0 < unat freq\<close> by (simp add: setup_tq_def div_greater_zero_iff)
qed

lemma create_user_dev_setup_request:
  assumes "create_user_dev_setup conv t freq = Setup user" and "freq \<le> 1000000000"
    and "bit_rate_prescaler t = 0 \<longrightarrow> request_ok freq (bitrate_request (ref_clock_freq t))"
  shows "set_bittiming user \<and> \<not> set_btr user \<and> link_request freq (u_bittiming user)"
proof (cases "bit_rate_prescaler t = 0")
  case True
  then show ?thesis
    using assms
    by (auto simp: create_user_dev_setup_def setup_rate_def empty_setup_def no_setup_def link_request_def
        Let_def split: if_splits)
next
  case False
  let ?tq = "setup_tq t freq"
  have u: "user = setup_given t ?tq (setup_one_bit conv t ?tq)" "freq \<noteq> 0" "?tq < 2 ^ 31"
    using assms(1) False by (auto simp: create_user_dev_setup_def Let_def not_le split: if_splits)
  have "(of_nat ?tq :: u32) \<noteq> 0"
    using setup_tq_pos [OF False u(2) assms(2)] u(3)
    by (auto simp: word_of_nat_eq_0_iff dest: dvd_imp_le)
  then show ?thesis
    using u(1,2) by (simp add: setup_given_def empty_setup_def no_setup_def link_request_def Let_def)
qed

text \<open>
  C25: A client that sets the timing of a device, by a rate alone or with a prescaler and
  segments, and gets a success for it, has made the driver write the two timing registers, \<^verbatim>\<open>BTR0\<close>
  and then \<^verbatim>\<open>BTR1\<close>, and nothing else, with bytes that encode the timing the driver now
  remembers; this timing is inside the limits of the SJA1000, and the interface is up
  afterwards. The driver does not put the chip into reset mode for it: whether a running chip
  takes the two writes is up to the chip and not claimed.
\<close>

theorem set_timing_writes_registers:
  assumes "sja1000_settings (io_dev s)" and "clock_freq (io_dev s) \<le> 1000000000"
    and "bit_rate_prescaler t = 0 \<longrightarrow>
      request_ok (clock_freq (io_dev s)) (bitrate_request (requested_rate t (io_dev s)))"
    and "io_devctl None conv rcvid blk clk (SET_TIMING t) s = Some (Dc_reply r, s')"
  shows "\<exists>b0 b1. timing_in_range sja1000_bittiming_const (bittiming (io_dev s')) \<and>
    hw (io_dev s') = write_reg (io_dev s) (write_reg (io_dev s) (hw (io_dev s)) SJA1000_BTR0 b0) SJA1000_BTR1 b1 \<and>
    unat (b0 AND 0x3F) + 1 = unat (bt_brp (bittiming (io_dev s'))) \<and>
    unat (drop_bit 6 b0) + 1 = unat (bt_sjw (bittiming (io_dev s'))) \<and>
    unat (b1 AND 0xF) + 1 = unat (bt_prop_seg (bittiming (io_dev s')) + bt_phase_seg1 (bittiming (io_dev s'))) \<and>
    unat (drop_bit 4 b1 AND 0x7) + 1 = unat (bt_phase_seg2 (bittiming (io_dev s'))) \<and>
    bit b1 7 = has_flag (ctrlmode (io_dev s)) CAN_CTRLMODE_3_SAMPLES \<and>
    has_flag (dev_flags (io_dev s')) IFF_UP"
proof -
  define d where "d = io_dev s"
  define t1 where "t1 = t\<lparr>ref_clock_freq := requested_rate t d\<rparr>"
  have t1: "(if ref_clock_freq t = 0 then t\<lparr>ref_clock_freq := bt_bitrate (bittiming d)\<rparr> else t) = t1"
    by (simp add: t1_def requested_rate_def)
  have "devctl_set_timing conv t s = Some (Dc_reply r, s')" using assms(4) by (simp add: io_devctl_def)
  then obtain user e d1 where u: "create_user_dev_setup conv t1 (clock_freq d) = Setup user"
    "can_changelink user (d\<lparr>dev_flags := dev_flags d AND NOT IFF_UP\<rparr>) = Some (e, d1)"
    "s' = s\<lparr>io_dev := d1\<lparr>dev_flags := dev_flags d1 OR IFF_UP\<rparr>\<rparr>"
    "Dc_reply r = (case e of EOK \<Rightarrow> Dc_reply No_data | Err n \<Rightarrow> Dc_status n)"
    unfolding devctl_set_timing_def d_def [symmetric] Let_def t1
    by (auto split: setup_result.splits Option.bind_splits)
  have e: "e = EOK" using u(4) by (cases e) simp_all
  let ?d = "d\<lparr>dev_flags := dev_flags d AND NOT IFF_UP\<rparr>"
  have "set_bittiming user \<and> \<not> set_btr user \<and> link_request (clock_freq ?d) (u_bittiming user)"
    using create_user_dev_setup_request [OF u(1)] assms(2,3) by (simp add: d_def t1_def)
  then have req: "set_bittiming user" "\<not> set_btr user" "link_request (clock_freq ?d) (u_bittiming user)"
    by simp_all
  have "sja1000_settings ?d" using assms(1) by (simp add: sja1000_settings_def d_def)
  note w = changelink_writes [OF this req u(2) [unfolded e]]
  then have "timing_in_range sja1000_bittiming_const (bittiming d1)" by simp
  note c = this btr_fields [OF this, of "ctrlmode d"]
  have "has_flag (dev_flags d1 OR IFF_UP) IFF_UP"
    using has_flag_or [of IFF_UP IFF_UP "dev_flags d1"] by (simp add: or.commute IFF_UP_def)
  then show ?thesis
    using c w u(3)
    by (intro exI [of _ "sja1000_btr0 (bittiming d1)"] exI [of _ "sja1000_btr1 (ctrlmode d) (bittiming d1)"])
      (simp add: d_def sja1000_set_btr_def wr_def)
qed

definition vcan_io :: "can_resmgr \<Rightarrow> queue \<Rightarrow> (nat \<Rightarrow> u8) io_state" where
  "vcan_io rm q = \<lparr>io_chan = rm, io_ocb = rx_ocb, io_queue = q, io_dev = vcan_dev\<rparr>"

definition timing_rate_250k :: can_devctl_timing where
  "timing_rate_250k = \<lparr>ref_clock_freq = 250000, bit_rate_prescaler = 0, sync_jump_width = 0,
     time_segment_1 = 0, time_segment_2 = 0\<rparr>"

text \<open>
  A chip that takes the timing registers only in reset mode, as the data sheet of the SJA1000 says,
  and otherwise keeps what is written.
\<close>

definition latched_write :: "(nat \<Rightarrow> u8) \<Rightarrow> nat \<Rightarrow> u8 \<Rightarrow> nat \<Rightarrow> u8" where
  "latched_write h r v =
     (if (r = SJA1000_BTR0 \<or> r = SJA1000_BTR1) \<and> \<not> has_flag (h SJA1000_MOD) MOD_RM then h else h(r := v))"

definition latched_io :: "(nat \<Rightarrow> u8) io_state" where
  "latched_io = (vcan_io rx_chan rx_queue2)\<lparr>io_dev := vcan_dev\<lparr>write_reg := latched_write, hw := (\<lambda>_. 0)\<rparr>\<rparr>"

lemma set_timing_250k:
  assumes "io_dev s = vcan_dev\<lparr>write_reg := w, hw := h\<rparr>"
  shows "\<exists>s'. io_devctl None 0x80000000 7 None (\<lambda>_. 0) (SET_TIMING timing_rate_250k) s =
     Some (Dc_reply No_data, s') \<and>
     hw (io_dev s') = w (w h SJA1000_BTR0 (sja1000_btr0 timing_250k)) SJA1000_BTR1 (sja1000_btr1 0 timing_250k)"
proof -
  have "can_get_bittiming 8000000 (bitrate_request 250000) (Some sja1000_bittiming_const) None =
      Some (Ret (EOK, timing_250k))"
    using calc_250k by (simp add: can_get_bittiming_def bitrate_request_def)
  then show ?thesis
    by (simp add: io_devctl_def devctl_set_timing_def assms timing_rate_250k_def
        create_user_dev_setup_def setup_tq_def setup_one_bit_def setup_rate_def empty_setup_def
        can_changelink_def and_then_def link_bittiming_def link_ctrlmode_def
        link_restart_ms_def link_restart_def link_data_bittiming_def link_btr_def
        link_termination_def no_setup_def vcan_dev_def flag_defs rate_exceeds_def Let_def
        sja1000_set_bittiming_def sja1000_set_btr_def wr_def)
qed

lemma timing_request_250k:
  assumes "io_dev s = vcan_dev\<lparr>write_reg := w, hw := h\<rparr>"
  shows "sja1000_settings (io_dev s)" "clock_freq (io_dev s) \<le> 1000000000"
    "request_ok (clock_freq (io_dev s)) (bitrate_request (requested_rate timing_rate_250k (io_dev s)))"
  using vcan_dev_settings bitrate_request_ok
  by (simp_all add: assms sja1000_settings_def vcan_dev_def requested_rate_def timing_rate_250k_def)

theorem set_timing_writes_registers_witness:
  "\<exists>s' b0 b1. io_devctl None 0x80000000 7 None (\<lambda>_. 0) (SET_TIMING timing_rate_250k) (vcan_io rx_chan rx_queue2) =
      Some (Dc_reply No_data, s') \<and>
    timing_in_range sja1000_bittiming_const (bittiming (io_dev s')) \<and>
    hw (io_dev s') = (hw vcan_dev)(SJA1000_BTR0 := b0, SJA1000_BTR1 := b1) \<and>
    has_flag (dev_flags (io_dev s')) IFF_UP"
proof -
  let ?s = "vcan_io rx_chan rx_queue2"
  have s: "io_dev ?s = vcan_dev\<lparr>write_reg := vcan_write_reg, hw := hw vcan_dev\<rparr>"
    by (simp add: vcan_io_def vcan_dev_def)
  obtain s' where s': "io_devctl None 0x80000000 7 None (\<lambda>_. 0) (SET_TIMING timing_rate_250k) ?s =
      Some (Dc_reply No_data, s')"
    using set_timing_250k [OF s] by blast
  from set_timing_writes_registers [OF timing_request_250k(1,2) [OF s] _ s'] timing_request_250k(3) [OF s]
  show ?thesis unfolding s using s' by (simp add: vcan_write_reg_def) blast
qed

text \<open>On such a chip that runs, the same command is reported as a success and changes no register.\<close>

lemma set_timing_lost:
  "\<exists>s'. io_devctl None 0x80000000 7 None (\<lambda>_. 0) (SET_TIMING timing_rate_250k) latched_io =
      Some (Dc_reply No_data, s') \<and> hw (io_dev s') = hw (io_dev latched_io)"
proof -
  have s: "io_dev latched_io = vcan_dev\<lparr>write_reg := latched_write, hw := (\<lambda>_. 0)\<rparr>"
    by (simp add: latched_io_def)
  then show ?thesis using set_timing_250k [OF s] by (simp add: latched_write_def)
qed

section \<open>Receiving a frame\<close>

text \<open>
  C26: All three commands that receive a frame hand out the first message of the queue that is
  not older than the latency limit of the channel, and drop the stale ones before it; the client
  is then no longer listed as blocked. When no message is left, the two blocking commands list
  the client as blocked and send no reply, the non-blocking one answers that the client may try
  again. The call always returns, and the device and the channel are left as they were. On a
  transmission channel each of them answers with an input/output error and changes nothing.
\<close>

theorem devctl_receives_first_fresh:
  assumes wf: "queue_wf (io_queue s)" and up: "session_up (io_queue s)"
    and cmd: "cmd \<in> {READ_CANMSG_EXT, RX_FRAME_RAW_BLOCK, RX_FRAME_RAW_NOBLOCK}"
    and bl: "dl_rel g (blocked_clients (io_ocb s)) xs"
    and a: "dl_cells (blocked_clients (io_ocb s)) a = None"
    and ff: "first_fresh (rm_latency_limit_ms (io_chan s)) clk 0 (contents (io_queue s)) = (f, ms)"
  shows "\<exists>r s'. io_devctl None conv rcvid (Some a) clk cmd s = Some (r, s') \<and>
    (if rm_channel_type (io_chan s) = TX_CHANNEL then r = Dc_status EIO \<and> s' = s
     else contents (io_queue s') = ms \<and> queue_wf (io_queue s') \<and>
       io_chan s' = io_chan s \<and> io_dev s' = io_dev s \<and>
       (case f of
          Some m \<Rightarrow> r = Dc_reply (Message m) \<and>
            dl_rel g (blocked_clients (io_ocb s')) (filter (\<lambda>y. snd y \<noteq> rcvid) xs)
        | None \<Rightarrow> if cmd = RX_FRAME_RAW_NOBLOCK then r = Dc_status EAGAIN \<and> io_ocb s' = io_ocb s
            else r = Dc_no_reply \<and> dl_rel g (blocked_clients (io_ocb s')) (xs @ [(a, rcvid)])))"
proof (cases "rm_channel_type (io_chan s) = TX_CHANNEL")
  case True
  then show ?thesis
    using cmd by (auto simp: io_devctl_def devctl_read_canmsg_ext_def devctl_rx_def)
next
  case rx: False
  let ?lim = "rm_latency_limit_ms (io_chan s)" and ?L = "blocked_clients (io_ocb s)"
  define wait where "wait \<longleftrightarrow> cmd \<noteq> RX_FRAME_RAW_NOBLOCK"
  obtain x q where q: "dequeue_noblock_loop ?lim clk 0 (io_queue s) = Some (x, q)" "x \<noteq> Wild"
    "queue_wf q" "fetch_option x = f" "contents q = ms"
    using dequeue_noblock_loop_refines [OF wf, of ?lim clk 0] unfolding ff by auto
  have dq: "dequeue_noblock (Some (io_queue s)) ?lim clk = Some (x, Some q)"
    using q(1) up by (simp add: dequeue_noblock_def)
  have rxcmd: "io_devctl None conv rcvid (Some a) clk cmd s = devctl_rx wait rcvid (Some a) clk s"
    using cmd by (auto simp: io_devctl_def devctl_read_canmsg_ext_def wait_def)
  obtain L1 where L1: "remove_all (\<lambda>r. r = rcvid) ?L = Some L1" "dl_rel g L1 (filter (\<lambda>y. snd y \<noteq> rcvid) xs)"
    using remove_all_rel [OF bl, of "\<lambda>r. r = rcvid"] by blast
  obtain L2 where L2: "append_cell rcvid a ?L = Some L2" "dl_rel g L2 (xs @ [(a, rcvid)])"
    using append_cell_rel [OF bl a] by blast
  show ?thesis
  proof (cases x)
    case (Msg m)
    then have "f = Some m" using q(4) by (simp add: fetch_option_def)
    then show ?thesis
      unfolding rxcmd using Msg q(3,5) dq rx L1
      by (simp add: devctl_rx_def remove_blocked_client_def Let_def)
  next
    case Null
    then have "f = None" using q(4) by (simp add: fetch_option_def)
    then show ?thesis
      unfolding rxcmd using Null q(3,5) dq rx L2 wait_def
      by (cases wait) (simp_all add: devctl_rx_def store_blocked_client_def Let_def)
  qed (use q(2) in simp)
qed

theorem devctl_receives_first_fresh_witness:
  "\<exists>s'. io_devctl None 0 7 (Some 5) (\<lambda>_. 0) RX_FRAME_RAW_BLOCK (vcan_io rx_chan rx_queue2) =
      Some (Dc_reply (Message (data_msg [1,2,3,4,5,6,7,8])), s') \<and>
    contents (io_queue s') = [data_msg [9,10,11,12,13,14,15,16]]"
proof -
  let ?s = "vcan_io rx_chan rx_queue2"
  have s: "queue_wf (io_queue ?s)" "session_up (io_queue ?s)"
    "RX_FRAME_RAW_BLOCK \<in> {READ_CANMSG_EXT, RX_FRAME_RAW_BLOCK, RX_FRAME_RAW_NOBLOCK}"
    "dl_rel Map.empty (blocked_clients (io_ocb ?s)) []" "dl_cells (blocked_clients (io_ocb ?s)) 5 = None"
    and rx: "rm_channel_type (io_chan ?s) = RX_CHANNEL"
    using rx_ready [of 0] by (simp_all add: vcan_io_def read_ready_def reader_inv_def)
  have "first_fresh (rm_latency_limit_ms (io_chan ?s)) (\<lambda>_. 0) 0 (contents (io_queue ?s)) =
      (Some (data_msg [1,2,3,4,5,6,7,8]), [data_msg [9,10,11,12,13,14,15,16]])"
    by (simp add: vcan_io_def rx_chan_def rx_queue2_contents stale_def)
  from devctl_receives_first_fresh [OF s this, where conv = 0 and rcvid = 7]
  show ?thesis using rx by auto
qed

end
