(* ===== verification/Session.thy ===== *)
theory Session
  imports Linked_List Msg_Queue
begin

text \<open>
  Sessions: \<^verbatim>\<open>src/src/session.c\<close> and \<^verbatim>\<open>src/src/include/session.h\<close>. A device session holds the
  transmit queue of a device and the root of the list of its client sessions; a client session
  holds a receive queue. All of them are created and destroyed under one mutex. The
  operations are shown to keep the two levels of lists, and the mutex is shown to stay locked
  after a device session was destroyed.
\<close>

section \<open>State\<close>

text \<open>
  \<^verbatim>\<open>client_session_t\<close> and \<^verbatim>\<open>device_session_t\<close> without their list pointers, which are those
  of the cell. \<^verbatim>\<open>mid\<close>, \<^verbatim>\<open>mfilter\<close> and \<^verbatim>\<open>prio\<close> point into the resource manager of the
  client's channel.
\<close>

record client_session =
  cs_device_session :: addr
  cs_mid :: addr
  cs_mfilter :: addr
  cs_prio :: addr
  cs_rx_queue :: queue

record device_session =
  ds_device :: addr
  root_client_session :: ptr
  ds_tx_queue :: queue
  ds_queue_stopped :: bool
  ds_tx_thread :: bool

text \<open>
  The globals: the list of device sessions, the cells of all client sessions, and the owner
  of \<^verbatim>\<open>device_session_create_mutex\<close>.
\<close>

record sessions =
  device_list :: "device_session dlist"
  client_store :: "client_session store"
  create_mutex :: "nat option"

definition client_list :: "device_session \<Rightarrow> sessions \<Rightarrow> client_session dlist" where
  "client_list ds s = \<lparr>dl_root = root_client_session ds, dl_cells = client_store s\<rparr>"

text \<open>
  \<^verbatim>\<open>pthread_mutex_lock\<close> and \<^verbatim>\<open>pthread_mutex_unlock\<close> by thread \<open>t\<close>; \<open>None\<close> is a thread
  that waits. The results are ignored by the code. Whether a thread that already owns the
  mutex gets an error back or waits for itself is a property of the mutex type of the
  platform, the parameter \<open>ec\<close>.
\<close>

definition session_lock :: "bool \<Rightarrow> nat \<Rightarrow> sessions \<Rightarrow> sessions option" where
  "session_lock ec t s =
     (case create_mutex s of
        None \<Rightarrow> Some (s\<lparr>create_mutex := Some t\<rparr>)
      | Some owner \<Rightarrow> if ec \<and> owner = t then Some s else None)"

definition session_unlock :: "nat \<Rightarrow> sessions \<Rightarrow> sessions" where
  "session_unlock t s = (if create_mutex s = Some t then s\<lparr>create_mutex := None\<rparr> else s)"

text \<open>
  What the calls a creation makes yield: the results of the queue creation, the block of
  \<^verbatim>\<open>malloc\<close> (its address and the uninitialised queue in it), and the result of
  \<^verbatim>\<open>pthread_getschedparam\<close>.
\<close>

record session_env =
  e_block :: ptr
  e_junk :: queue
  e_mutex :: rc
  e_cond :: rc
  e_mem :: "can_msg list option"
  e_sched :: rc

definition env_queue :: "session_env \<Rightarrow> nat \<Rightarrow> rc \<times> queue" where
  "env_queue env attr = create_queue_at (e_mutex env) (e_cond env) (e_mem env) (e_junk env) attr"

section \<open>Operations\<close>

definition increment_dropped_packet :: "u64 option \<Rightarrow> u64 option" where
  "increment_dropped_packet arg = map_option (\<lambda>n. n + 1) arg"

definition get_last_device_session :: "sessions \<Rightarrow> ptr option" where
  "get_last_device_session s =
     (case dl_root (device_list s) of
        None \<Rightarrow> Some None
      | Some r \<Rightarrow> map_option Some (last_cell (dl_cells (device_list s)) r))"

definition get_last_client_session :: "ptr \<Rightarrow> sessions \<Rightarrow> ptr option" where
  "get_last_client_session D s =
     (case D of
        None \<Rightarrow> Some None
      | Some d \<Rightarrow> do {
          ds \<leftarrow> cell_item d (device_list s);
          (case root_client_session ds of
             None \<Rightarrow> Some None
           | Some r \<Rightarrow> map_option Some (last_cell (client_store s) r)) })"

definition get_device_session :: "addr \<Rightarrow> sessions \<Rightarrow> ptr option" where
  "get_device_session dev s = find_first (\<lambda>ds. ds_device ds = dev) (device_list s)"

text \<open>
  \<^verbatim>\<open>destroy_device_session\<close>. It takes the mutex and does not give it back. \<open>None\<close> also
  stands for the wait inside \<^verbatim>\<open>destroy_queue\<close>.
\<close>

definition destroy_device_session :: "bool \<Rightarrow> nat \<Rightarrow> ptr \<Rightarrow> sessions \<Rightarrow> sessions option" where
  "destroy_device_session ec t D s =
     (case D of
        None \<Rightarrow> Some s
      | Some d \<Rightarrow> do {
          s1 \<leftarrow> session_lock ec t s;
          ds \<leftarrow> cell_item d (device_list s1);
          L \<leftarrow> unlink_cell d (device_list s1);
          q \<leftarrow> destroy_queue (ds_tx_queue ds);
          Some (s1\<lparr>device_list := free_cell d L\<rparr>) })"

text \<open>
  \<^verbatim>\<open>create_device_session\<close>. The new session is linked before its queue is created; both
  happen under the mutex, so the cell is stored with its final queue here.
\<close>

definition create_device_session ::
  "bool \<Rightarrow> nat \<Rightarrow> addr \<Rightarrow> nat \<Rightarrow> session_env \<Rightarrow> sessions \<Rightarrow> (ptr \<times> sessions) option" where
  "create_device_session ec t dev attr env s = do {
     s1 \<leftarrow> session_lock ec t s;
     d \<leftarrow> e_block env;
     let (e, q) = env_queue env attr;
     L \<leftarrow> append_cell \<lparr>ds_device = dev, root_client_session = None,
            ds_tx_queue = (if e = EOK then q\<lparr>dropped_packet := True\<rparr> else q),
            ds_queue_stopped = False, ds_tx_thread = (e = EOK \<and> e_sched env = EOK)\<rparr> d (device_list s1);
     let s2 = s1\<lparr>device_list := L\<rparr>;
     if e \<noteq> EOK
     then do { s3 \<leftarrow> destroy_device_session ec t (Some d) s2; Some (None, session_unlock t s3) }
     else if e_sched env \<noteq> EOK then Some (None, s2)
     else Some (Some d, session_unlock t s2) }"

text \<open>
  \<^verbatim>\<open>destroy_client_session\<close>. The root of the list is in the device session, which is
  dereferenced only when the client is the first of its list.
\<close>

definition set_client_root :: "addr \<Rightarrow> ptr \<Rightarrow> sessions \<Rightarrow> sessions option" where
  "set_client_root d r s = do {
     L \<leftarrow> update_cell d (\<lambda>ds. ds\<lparr>root_client_session := r\<rparr>) (device_list s);
     Some (s\<lparr>device_list := L\<rparr>) }"

definition destroy_client_session :: "bool \<Rightarrow> nat \<Rightarrow> ptr \<Rightarrow> sessions \<Rightarrow> sessions option" where
  "destroy_client_session ec t S s =
     (case S of
        None \<Rightarrow> Some s
      | Some a \<Rightarrow> do {
          c \<leftarrow> client_store s a;
          s1 \<leftarrow> session_lock ec t s;
          L \<leftarrow> unlink_cell a \<lparr>dl_root = None, dl_cells = client_store s1\<rparr>;
          s2 \<leftarrow> (if c_prev c = None
                 then set_client_root (cs_device_session (c_item c)) (dl_root L) s1 else Some s1);
          q \<leftarrow> destroy_queue (cs_rx_queue (c_item c));
          Some (session_unlock t (s2\<lparr>client_store := dl_cells (free_cell a L)\<rparr>)) })"

definition create_client_session ::
  "bool \<Rightarrow> nat \<Rightarrow> ptr \<Rightarrow> nat \<Rightarrow> addr \<Rightarrow> addr \<Rightarrow> addr \<Rightarrow> session_env \<Rightarrow> sessions \<Rightarrow>
   (ptr \<times> sessions) option" where
  "create_client_session ec t dev attr mid mf prio env s =
     (case dev of
        None \<Rightarrow> Some (None, s)
      | Some v \<Rightarrow> do {
          loc \<leftarrow> get_device_session v s;
          (case loc of
             None \<Rightarrow> Some (None, s)
           | Some d \<Rightarrow> do {
               s1 \<leftarrow> session_lock ec t s;
               a \<leftarrow> e_block env;
               let (e, q) = env_queue env attr;
               ds \<leftarrow> cell_item d (device_list s1);
               L \<leftarrow> append_cell \<lparr>cs_device_session = d, cs_mid = mid, cs_mfilter = mf, cs_prio = prio,
                      cs_rx_queue = (if e = EOK then q\<lparr>dropped_packet := True\<rparr> else q)\<rparr> a
                      (client_list ds s1);
               s2 \<leftarrow> set_client_root d (dl_root L) (s1\<lparr>client_store := dl_cells L\<rparr>);
               if e \<noteq> EOK
               then do { s3 \<leftarrow> destroy_client_session ec t (Some a) s2; Some (None, session_unlock t s3) }
               else Some (Some a, session_unlock t s2) }) })"

section \<open>The two levels of lists\<close>

text \<open>
  \<open>devs\<close> is the list of the device sessions, \<open>cl d\<close> the list of the client sessions of the
  device session at \<open>d\<close>. The client lists share no cell, every cell is in one of them, and
  every client points back to its device session.
\<close>

definition sess_inv ::
  "sessions \<Rightarrow> (addr \<times> device_session) list \<Rightarrow> (addr \<Rightarrow> (addr \<times> client_session) list) \<Rightarrow> bool" where
  "sess_inv s devs cl \<longleftrightarrow>
     dl_rel Map.empty (device_list s) devs \<and>
     (\<forall>d ds. (d, ds) \<in> set devs \<longrightarrow> dl_in (client_list ds s) (cl d)) \<and>
     (\<forall>d. d \<notin> fst ` set devs \<longrightarrow> cl d = []) \<and>
     (\<forall>d e. d \<noteq> e \<longrightarrow> fst ` set (cl d) \<inter> fst ` set (cl e) = {}) \<and>
     dom (client_store s) = (\<Union>d. fst ` set (cl d)) \<and>
     (\<forall>d a c. (a, c) \<in> set (cl d) \<longrightarrow> cs_device_session c = d)"

text \<open>The devices with a new client root for one of them.\<close>

definition new_root ::
  "addr \<Rightarrow> ptr \<Rightarrow> (addr \<times> device_session) list \<Rightarrow> (addr \<times> device_session) list" where
  "new_root d r devs =
     map (\<lambda>(b, x). (b, if b = d then x\<lparr>root_client_session := r\<rparr> else x)) devs"

lemma new_root_fst [simp]: "fst ` set (new_root d r devs) = fst ` set devs"
  by (force simp: new_root_def)

lemma new_root_devices [simp]:
  "map (\<lambda>(b, x). (b, ds_device x)) (new_root d r devs) = map (\<lambda>(b, x). (b, ds_device x)) devs"
  by (auto simp: new_root_def)

lemma new_root_same:
  assumes "distinct (map fst devs)" and "(d, ds) \<in> set devs"
  shows "new_root d (root_client_session ds) devs = devs"
proof -
  have "x = ds" if "(d, x) \<in> set devs" for x
    using assms that by (metis eq_key_imp_eq_value)
  then show ?thesis by (auto simp: new_root_def intro!: map_idI split: prod.splits)
qed

text \<open>Replacing the client list of one device.\<close>

lemma sess_invD:
  assumes "sess_inv s devs cl"
  shows "dl_rel Map.empty (device_list s) devs"
    and "(d, ds) \<in> set devs \<Longrightarrow> dl_in (client_list ds s) (cl d)"
    and "d \<notin> fst ` set devs \<Longrightarrow> cl d = []"
    and "d \<noteq> e \<Longrightarrow> fst ` set (cl d) \<inter> fst ` set (cl e) = {}"
    and "dom (client_store s) = (\<Union>d. fst ` set (cl d))"
    and "(a, c) \<in> set (cl d) \<Longrightarrow> cs_device_session c = d"
  using assms by (simp_all add: sess_inv_def)

lemma sess_inv_replace:
  assumes inv: "sess_inv s devs cl" and d: "(d, ds) \<in> set devs"
    and L: "dl_in L xs" "\<And>b. b \<notin> fst ` set (cl d) \<union> fst ` set xs \<Longrightarrow> dl_cells L b = client_store s b"
    and fresh: "\<And>e. e \<noteq> d \<Longrightarrow> fst ` set xs \<inter> fst ` set (cl e) = {}"
    and dom: "dom (dl_cells L) = (dom (client_store s) - fst ` set (cl d)) \<union> fst ` set xs"
    and own: "\<And>a c. (a, c) \<in> set xs \<Longrightarrow> cs_device_session c = d"
    and dev: "dl_rel Map.empty D (new_root d (dl_root L) devs)"
  shows "sess_inv (s\<lparr>device_list := D, client_store := dl_cells L\<rparr>)
           (new_root d (dl_root L) devs) (cl(d := xs))"
proof -
  let ?s = "s\<lparr>device_list := D, client_store := dl_cells L\<rparr>"
  have "dl_in (client_list x ?s) ((cl(d := xs)) b)"
    if b: "(b, x) \<in> set (new_root d (dl_root L) devs)" for b x
  proof (cases "b = d")
    case True
    then have "client_list x ?s = L" using b by (auto simp: client_list_def new_root_def)
    with L(1) True show ?thesis by simp
  next
    case False
    then have x: "(b, x) \<in> set devs" using b by (auto simp: new_root_def)
    have "dl_cells (client_list x ?s) c = dl_cells (client_list x s) c" if "c \<in> fst ` set (cl b)" for c
    proof -
      have "c \<notin> fst ` set (cl d)" using sess_invD(4) [OF inv False] that by blast
      moreover have "c \<notin> fst ` set xs" using fresh [of b] False that by blast
      ultimately show ?thesis using L(2) [of c] by (simp add: client_list_def)
    qed
    moreover have "dl_in (client_list x s) (cl b)" by (rule sess_invD(2) [OF inv x])
    moreover have "dl_root (client_list x ?s) = dl_root (client_list x s)"
      by (simp add: client_list_def)
    ultimately have "dl_in (client_list x ?s) (cl b)" using dl_in_cong by blast
    with False show ?thesis by simp
  qed
  moreover have "(cl(d := xs)) b = []" if "b \<notin> fst ` set (new_root d (dl_root L) devs)" for b
  proof -
    have "b \<notin> fst ` set devs" using that new_root_fst [of d "dl_root L" devs] by blast
    moreover from this have "b \<noteq> d" using d by force
    ultimately show ?thesis using sess_invD(3) [OF inv] by simp
  qed
  moreover have "fst ` set ((cl(d := xs)) b) \<inter> fst ` set ((cl(d := xs)) e) = {}" if "b \<noteq> e" for b e
    using sess_invD(4) [OF inv that] fresh [of b] fresh [of e] that by (cases "b = d"; cases "e = d") auto
  moreover have "dom (client_store ?s) = (\<Union>b. fst ` set ((cl(d := xs)) b))"
  proof -
    have "(\<Union>b. fst ` set (cl b)) - fst ` set (cl d) = (\<Union>b\<in>-{d}. fst ` set (cl b))"
      using sess_invD(4) [OF inv] by blast
    moreover have "(\<Union>b\<in>-{d}. fst ` set ((cl(d := xs)) b)) = (\<Union>b\<in>-{d}. fst ` set (cl b))"
      by (rule SUP_cong) auto
    moreover have "(\<Union>b. fst ` set ((cl(d := xs)) b)) =
        fst ` set ((cl(d := xs)) d) \<union> (\<Union>b\<in>-{d}. fst ` set ((cl(d := xs)) b))"
      by blast
    ultimately show ?thesis using dom sess_invD(5) [OF inv] by (simp add: Un_commute)
  qed
  moreover have "cs_device_session c = b" if "(a, c) \<in> set ((cl(d := xs)) b)" for a b c
    using sess_invD(6) [OF inv] own that by (cases "b = d") auto
  ultimately show ?thesis using dev unfolding sess_inv_def by simp
qed

lemma sess_inv_append:
  assumes inv: "sess_inv s devs cl" and ds: "(d, ds) \<in> set devs"
    and a: "client_store s a = None" and c: "cs_device_session c = d"
    and L: "dl_in L (cl d @ [(a, c)])"
      "\<And>b. b \<notin> insert a (fst ` set (cl d)) \<Longrightarrow> dl_cells L b = client_store s b"
      "dom (dl_cells L) = insert a (dom (client_store s))"
    and D: "dl_rel Map.empty D (new_root d (dl_root L) devs)"
  shows "sess_inv (s\<lparr>device_list := D, client_store := dl_cells L\<rparr>)
    (new_root d (dl_root L) devs) (cl(d := cl d @ [(a, c)]))"
proof (rule sess_inv_replace [OF inv ds L(1) _ _ _ _ D])
  have fresh: "a \<notin> fst ` set (cl e)" for e
    using sess_invD(5) [OF inv] a by (metis UN_I UNIV_I domIff)
  show "dl_cells L b = client_store s b" if "b \<notin> fst ` set (cl d) \<union> fst ` set (cl d @ [(a, c)])" for b
    using L(2) that by simp
  show "fst ` set (cl d @ [(a, c)]) \<inter> fst ` set (cl e) = {}" if "e \<noteq> d" for e
    using sess_invD(4) [OF inv, of d e] that fresh [of e] by simp
  show "dom (dl_cells L) = (dom (client_store s) - fst ` set (cl d)) \<union> fst ` set (cl d @ [(a, c)])"
    using L(3) sess_invD(5) [OF inv] by auto
  show "cs_device_session e = d" if "(b, e) \<in> set (cl d @ [(a, c)])" for b e
    using sess_invD(6) [OF inv, of b e d] c that by auto
qed

lemma sess_inv_delete:
  assumes inv: "sess_inv s devs cl" and ds: "(d, ds) \<in> set devs" and mem: "a \<in> fst ` set (cl d)"
    and L: "dl_in L (filter (\<lambda>y. fst y \<noteq> a) (cl d))"
      "\<And>b. b \<notin> fst ` set (cl d) \<Longrightarrow> dl_cells L b = client_store s b"
      "dom (dl_cells L) = dom (client_store s) - {a}"
    and D: "dl_rel Map.empty D (new_root d (dl_root L) devs)"
  shows "sess_inv (s\<lparr>device_list := D, client_store := dl_cells L\<rparr>)
    (new_root d (dl_root L) devs) (cl(d := filter (\<lambda>y. fst y \<noteq> a) (cl d)))"
proof (rule sess_inv_replace [OF inv ds L(1) _ _ _ _ D])
  let ?xs = "filter (\<lambda>y. fst y \<noteq> a) (cl d)"
  have set: "fst ` set ?xs = fst ` set (cl d) - {a}" by auto
  show "dl_cells L b = client_store s b" if "b \<notin> fst ` set (cl d) \<union> fst ` set ?xs" for b
    using L(2) that by blast
  show "fst ` set ?xs \<inter> fst ` set (cl e) = {}" if "e \<noteq> d" for e
    using sess_invD(4) [OF inv, of d e] that set by auto
  show "dom (dl_cells L) = (dom (client_store s) - fst ` set (cl d)) \<union> fst ` set ?xs"
    using L(3) set mem sess_invD(5) [OF inv] by auto
  show "cs_device_session e = d" if "(b, e) \<in> set ?xs" for b e
    using sess_invD(6) [OF inv, of b e d] that by simp
qed

text \<open>Writing a client root to a device session of the list.\<close>

lemma set_client_root_rel:
  assumes "dl_rel Map.empty (device_list s) devs" and "(d, ds) \<in> set devs"
  shows "\<exists>D. set_client_root d r s = Some (s\<lparr>device_list := D\<rparr>) \<and>
    dl_rel Map.empty D (new_root d r devs)"
proof -
  have "d \<in> fst ` set devs" using assms(2) by force
  from update_cell_rel [OF assms(1) this, of "\<lambda>ds. ds\<lparr>root_client_session := r\<rparr>"]
  show ?thesis by (auto simp: set_client_root_def new_root_def)
qed

lemma get_device_session_found:
  assumes "dl_rel Map.empty (device_list s) devs"
    and "List.find (\<lambda>y. ds_device (snd y) = v) devs = Some (d, ds)"
  shows "get_device_session v s = Some (Some d)" "(d, ds) \<in> set devs" "ds_device ds = v"
proof -
  show "get_device_session v s = Some (Some d)"
    using assms find_first_rel [OF assms(1), of "\<lambda>ds. ds_device ds = v"]
    by (simp add: get_device_session_def)
  obtain i where i: "i < length devs" "ds_device (snd (devs ! i)) = v" "devs ! i = (d, ds)"
    using assms(2) unfolding find_Some_iff by metis
  show "(d, ds) \<in> set devs" using i(1,3) nth_mem [of i devs] by simp
  show "ds_device ds = v" using i(2,3) by simp
qed

text \<open>
  \<^verbatim>\<open>create_client_session\<close> appends the new client to the list of the session of the given
  device, and to no other list. It returns the new client, its queue is set up, and the mutex
  is free again.
\<close>

lemma client_session_created:
  assumes inv: "sess_inv s devs cl" and free: "create_mutex s = None"
    and dev: "List.find (\<lambda>y. ds_device (snd y) = v) devs = Some (d, ds)"
    and block: "e_block env = Some a" "client_store s a = None"
    and queue: "env_queue env attr = (EOK, q)"
  shows "\<exists>s' devs'. create_client_session ec t (Some v) attr mid mf prio env s = Some (Some a, s') \<and>
    sess_inv s' devs' (cl(d := cl d @ [(a, \<lparr>cs_device_session = d, cs_mid = mid, cs_mfilter = mf,
      cs_prio = prio, cs_rx_queue = q\<lparr>dropped_packet := True\<rparr>\<rparr>)])) \<and>
    map (\<lambda>(b, x). (b, ds_device x)) devs' = map (\<lambda>(b, x). (b, ds_device x)) devs \<and>
    create_mutex s' = None"
proof -
  note found = get_device_session_found [OF sess_invD(1) [OF inv] dev]
  let ?c = "\<lparr>cs_device_session = d, cs_mid = mid, cs_mfilter = mf, cs_prio = prio,
    cs_rx_queue = q\<lparr>dropped_packet := True\<rparr>\<rparr>"
  obtain L where L: "append_cell ?c a (client_list ds s) = Some L" "dl_in L (cl d @ [(a, ?c)])"
    "\<And>b. b \<notin> insert a (fst ` set (cl d)) \<Longrightarrow> dl_cells L b = client_store s b"
    "dom (dl_cells L) = insert a (dom (client_store s))"
    using append_cell_in [OF sess_invD(2) [OF inv found(2)], of a ?c] block(2)
    by (auto simp: client_list_def)
  let ?s1 = "s\<lparr>create_mutex := Some t, client_store := dl_cells L\<rparr>"
  obtain D where D: "set_client_root d (dl_root L) ?s1 = Some (?s1\<lparr>device_list := D\<rparr>)"
    "dl_rel Map.empty D (new_root d (dl_root L) devs)"
    using set_client_root_rel [of ?s1 devs d ds "dl_root L"] sess_invD(1) [OF inv] found(2) by auto
  have new: "sess_inv (s\<lparr>device_list := D, client_store := dl_cells L\<rparr>)
      (new_root d (dl_root L) devs) (cl(d := cl d @ [(a, ?c)]))"
    using sess_inv_append [OF inv found(2) block(2) _ L(2) _ L(4) D(2)] L(3) by simp
  have item: "cell_item d (device_list s) = Some ds"
    by (rule dl_rel_item [OF sess_invD(1) [OF inv] found(2)])
  have "create_client_session ec t (Some v) attr mid mf prio env s =
      Some (Some a, s\<lparr>device_list := D, client_store := dl_cells L\<rparr>)"
    using found(1) free block(1) queue L(1) D(1) item
    by (simp add: create_client_session_def session_lock_def session_unlock_def client_list_def)
  then show ?thesis
    using new free
    by (intro exI [of _ "s\<lparr>device_list := D, client_store := dl_cells L\<rparr>"]
        exI [of _ "new_root d (dl_root L) devs"]) simp
qed

text \<open>The steps of \<^verbatim>\<open>destroy_client_session\<close> when nothing waits.\<close>

lemma destroy_client_session_step:
  assumes inv: "sess_inv s devs cl" and free: "create_mutex s = None"
    and a: "(a, c) \<in> set (cl d)" and idle: "\<not> dequeue_waiting (cs_rx_queue c)"
    and ds: "(d, ds) \<in> set devs" and k: "client_store s a = Some k" "c_item k = c"
    and L1: "unlink_cell a (client_list ds s) = Some L1"
  shows "\<exists>D. dl_rel Map.empty D (new_root d (dl_root L1) devs) \<and>
    destroy_client_session ec t (Some a) s =
      Some (s\<lparr>device_list := D, client_store := dl_cells (free_cell a L1)\<rparr>)"
proof -
  let ?s1 = "s\<lparr>create_mutex := Some t\<rparr>"
  have root: "unlink_cell a \<lparr>dl_root = None, dl_cells = client_store s\<rparr> =
      Some (if c_prev k = None then L1 else L1\<lparr>dl_root := None\<rparr>)"
    using unlink_cell_root [of "client_list ds s" a k None] L1 k(1) by (simp add: client_list_def)
  note defs = destroy_client_session_def session_lock_def session_unlock_def free_cell_def
    destroy_queue_def destroy_queue_finish_def queue_shutdown_signal_def
  note owner = sess_invD(6) [OF inv a]
  show ?thesis
  proof (cases "c_prev k = None")
    case True
    obtain D where "set_client_root d (dl_root L1) ?s1 = Some (?s1\<lparr>device_list := D\<rparr>)"
      and "dl_rel Map.empty D (new_root d (dl_root L1) devs)"
      using set_client_root_rel [of ?s1 devs d ds] sess_invD(1) [OF inv] ds by auto
    then show ?thesis
      using True free root k idle owner by (intro exI [of _ D]) (simp add: defs)
  next
    case False
    have "dl_root L1 = root_client_session ds"
      using unlink_cell_keeps_root [OF L1] k(1) False by (simp add: client_list_def)
    then have "new_root d (dl_root L1) devs = devs"
      using new_root_same [OF _ ds] sess_invD(1) [OF inv] by (simp add: dl_rel_def)
    then show ?thesis
      using sess_invD(1) [OF inv] False free root k idle
      by (intro exI [of _ "device_list s"]) (auto simp: defs)
  qed
qed

lemma client_session_destroyed:
  assumes inv: "sess_inv s devs cl" and free: "create_mutex s = None"
    and a: "(a, c) \<in> set (cl d)" and idle: "\<not> dequeue_waiting (cs_rx_queue c)"
  shows "\<exists>s' devs'. destroy_client_session ec t (Some a) s = Some s' \<and>
    sess_inv s' devs' (cl(d := filter (\<lambda>y. fst y \<noteq> a) (cl d))) \<and>
    map (\<lambda>(b, x). (b, ds_device x)) devs' = map (\<lambda>(b, x). (b, ds_device x)) devs \<and>
    create_mutex s' = None"
proof -
  obtain ds where ds: "(d, ds) \<in> set devs"
    using sess_invD(3) [OF inv, of d] a by force
  have mem: "a \<in> fst ` set (cl d)" using a by force
  obtain L where L: "delete_cell a (client_list ds s) = Some L"
    "dl_in L (filter (\<lambda>y. fst y \<noteq> a) (cl d))"
    "\<And>b. b \<notin> fst ` set (cl d) \<Longrightarrow> dl_cells L b = client_store s b"
    "dom (dl_cells L) = dom (client_store s) - {a}"
    using delete_cell_in [OF sess_invD(2) [OF inv ds] mem] by (auto simp: client_list_def)
  then obtain L1 where L1: "unlink_cell a (client_list ds s) = Some L1" "L = free_cell a L1"
    by (auto simp: delete_cell_def bind_eq_Some_conv)
  obtain k where k: "client_store s a = Some k" "c_item k = c"
    using dl_rel_item [OF sess_invD(2) [OF inv ds, unfolded dl_in_rel] a]
    by (auto simp: cell_item_def client_list_def)
  have keep: "sess_inv (s\<lparr>device_list := D, client_store := dl_cells L\<rparr>)
      (new_root d (dl_root L) devs) (cl(d := filter (\<lambda>y. fst y \<noteq> a) (cl d)))"
    if "dl_rel Map.empty D (new_root d (dl_root L) devs)" for D
    using sess_inv_delete [OF inv ds mem L(2) _ L(4) that] L(3) by simp
  obtain D where D: "dl_rel Map.empty D (new_root d (dl_root L) devs)"
    "destroy_client_session ec t (Some a) s =
       Some (s\<lparr>device_list := D, client_store := dl_cells L\<rparr>)"
    using destroy_client_session_step [OF inv free a idle ds k L1(1), of ec t] L1(2)
    by (auto simp: free_cell_def)
  show ?thesis
    using keep [OF D(1)] D(2) free
    by (intro exI [of _ "s\<lparr>device_list := D, client_store := dl_cells L\<rparr>"]
        exI [of _ "new_root d (dl_root L) devs"]) simp
qed

text \<open>
  C18: \<^verbatim>\<open>destroy_client_session\<close> takes the client out of the list of its device and frees it,
  the other clients of the device stay in their order and the lists of the other devices are
  untouched; the mutex is free again. The case of a consumer inside a blocking removal is
  excluded, there the call waits.
\<close>

theorem destroy_client_session_removes:
  assumes inv: "sess_inv s devs cl" and free: "create_mutex s = None"
    and a: "(a, c) \<in> set (cl d)" and idle: "\<not> dequeue_waiting (cs_rx_queue c)"
  shows "\<exists>s' devs'. destroy_client_session ec t (Some a) s = Some s' \<and>
    sess_inv s' devs' (cl(d := filter (\<lambda>y. fst y \<noteq> a) (cl d))) \<and>
    map (\<lambda>(b, x). (b, ds_device x)) devs' = map (\<lambda>(b, x). (b, ds_device x)) devs \<and>
    create_mutex s' = None"
  by (rule client_session_destroyed [OF assms])

text \<open>A new device session has no clients and goes to the end of the list.\<close>

lemma create_device_session_appends:
  assumes inv: "sess_inv s devs cl" and free: "create_mutex s = None"
    and block: "e_block env = Some d" "d \<notin> fst ` set devs"
    and ok: "env_queue env attr = (EOK, q)" "e_sched env = EOK"
  shows "\<exists>s'. create_device_session ec t dev attr env s = Some (Some d, s') \<and>
    sess_inv s' (devs @ [(d, \<lparr>ds_device = dev, root_client_session = None,
      ds_tx_queue = q\<lparr>dropped_packet := True\<rparr>, ds_queue_stopped = False, ds_tx_thread = True\<rparr>)]) cl \<and>
    create_mutex s' = None"
proof -
  let ?ds = "\<lparr>ds_device = dev, root_client_session = None, ds_tx_queue = q\<lparr>dropped_packet := True\<rparr>,
    ds_queue_stopped = False, ds_tx_thread = True\<rparr>"
  obtain L where L: "append_cell ?ds d (device_list s) = Some L"
    "dl_rel Map.empty L (devs @ [(d, ?ds)])"
    using dlist.add_law [OF sess_invD(1) [OF inv] block(2)] by blast
  have "cl d = []" by (rule sess_invD(3) [OF inv block(2)])
  then have "sess_inv (s\<lparr>device_list := L\<rparr>) (devs @ [(d, ?ds)]) cl"
    using inv L(2) by (auto simp: sess_inv_def client_list_def)
  then show ?thesis
    using free block(1) ok L(1)
    by (intro exI [of _ "s\<lparr>device_list := L\<rparr>"])
       (simp add: create_device_session_def session_lock_def session_unlock_def)
qed

text \<open>
  \<^verbatim>\<open>destroy_device_session\<close> never releases the mutex it takes: afterwards no other thread
  gets past the lock of any of the four operations, so no client can be added to or taken
  from the remaining devices (a creation returns at most the NULL of an unknown device).
\<close>

lemma destroy_device_session_keeps_mutex:
  assumes "destroy_device_session ec t (Some d) s = Some s'" and "t' \<noteq> t"
  shows "create_mutex s' = Some t \<and>
    destroy_device_session ec t' (Some e) s' = None \<and>
    create_device_session ec t' dev attr env s' = None \<and>
    destroy_client_session ec t' (Some a) s' = None \<and>
    (\<forall>r. create_client_session ec t' (Some v) attr mid mf prio env s' = Some r \<longrightarrow> fst r = None)"
proof -
  have m: "create_mutex s' = Some t"
    using assms(1)
    by (auto simp: destroy_device_session_def session_lock_def bind_eq_Some_conv
        split: option.splits if_splits)
  have l: "session_lock ec t' s' = None" using m assms(2) by (simp add: session_lock_def)
  have "destroy_client_session ec t' (Some a) s' = None"
    by (cases "client_store s' a") (simp_all add: destroy_client_session_def l)
  moreover have "fst r = None"
    if "create_client_session ec t' (Some v) attr mid mf prio env s' = Some r" for r
    using that by (auto simp: create_client_session_def l bind_eq_Some_conv split: option.splits)
  ultimately show ?thesis
    by (simp add: destroy_device_session_def create_device_session_def l m)
qed

section \<open>A session state\<close>

text \<open>One device at address 10 with one client at address 20.\<close>

definition idle_queue :: queue where
  "idle_queue = \<lparr>attr_size = 0, data = [], q_begin = 0, q_end = 0, mutex_live = True, cond_live = True,
     session_up = True, dequeue_waiting = False, stopped = False, wake_pending = False,
     dropped_packet = True\<rparr>"

definition sample_client :: client_session where
  "sample_client = \<lparr>cs_device_session = 10, cs_mid = 40, cs_mfilter = 41, cs_prio = 42,
     cs_rx_queue = idle_queue\<rparr>"

definition sample_device :: device_session where
  "sample_device = \<lparr>ds_device = 1, root_client_session = Some 20, ds_tx_queue = idle_queue,
     ds_queue_stopped = False, ds_tx_thread = True\<rparr>"

definition sample_sessions :: sessions where
  "sample_sessions =
     \<lparr>device_list = \<lparr>dl_root = Some 10,
        dl_cells = [10 \<mapsto> \<lparr>c_prev = None, c_next = None, c_item = sample_device\<rparr>]\<rparr>,
      client_store = [20 \<mapsto> \<lparr>c_prev = None, c_next = None, c_item = sample_client\<rparr>],
      create_mutex = None\<rparr>"

definition sample_clients :: "addr \<Rightarrow> (addr \<times> client_session) list" where
  "sample_clients = (\<lambda>_. [])(10 := [(20, sample_client)])"

definition sample_env :: session_env where
  "sample_env = \<lparr>e_block = Some 21, e_junk = idle_queue, e_mutex = EOK, e_cond = EOK, e_mem = None,
     e_sched = EOK\<rparr>"

lemma sample_inv: "sess_inv sample_sessions [(10, sample_device)] sample_clients"
  by (auto simp: sess_inv_def sample_sessions_def sample_clients_def dl_rel_def dl_in_def apart_def
      client_list_def sample_device_def sample_client_def)

theorem destroy_client_session_removes_witness:
  "\<exists>s'. destroy_client_session True 1 (Some 20) sample_sessions = Some s' \<and> create_mutex s' = None"
  using destroy_client_session_removes [OF sample_inv, of 20 sample_client 10 True 1]
  by (simp add: sample_sessions_def sample_client_def sample_clients_def idle_queue_def) blast

lemma destroy_device_session_keeps_mutex_witness:
  "create_mutex (the (destroy_device_session True 1 (Some 10) sample_sessions)) = Some 1"
proof -
  obtain s' where "destroy_device_session True 1 (Some 10) sample_sessions = Some s'"
    by (simp add: destroy_device_session_def session_lock_def sample_sessions_def cell_item_def
        unlink_cell_def sample_device_def idle_queue_def destroy_queue_def destroy_queue_finish_def
        queue_shutdown_signal_def)
  then show ?thesis
    using destroy_device_session_keeps_mutex [of True 1 10 sample_sessions s' 2] by simp
qed

end
