(* ===== verification/Options.thy ===== *)
theory Options
  imports Prelude "HOL-Library.Monad_Syntax"
begin

text \<open>
  The program options: the globals of \<^verbatim>\<open>src/src/config.c\<close> and the parsing and checking of the
  command line in \<^verbatim>\<open>src/src/main.c\<close>. The options \<^verbatim>\<open>getopt\<close> yields are a list of letters with
  their arguments; the number scanners and \<^verbatim>\<open>getsubopt\<close> of the C library are modelled. \<open>None\<close> is
  undefined behaviour. The tables of channel and bit rate settings are shown to hold the entry of
  a device at its number, and the checks of the start to accept only numbers of existing devices.
\<close>

section \<open>The C library\<close>

text \<open>The scanners take a string to a value and the rest of the string.\<close>

definition is_blank :: "char \<Rightarrow> bool" where
  "is_blank c \<longleftrightarrow> c \<in> {CHR '' '', CHR 0x09, CHR 0x0A, CHR 0x0B, CHR 0x0C, CHR 0x0D}"

definition code :: "char \<Rightarrow> nat" where "code c = of_char c"

definition digit_value :: "char \<Rightarrow> nat option" where
  "digit_value c =
     (if 48 \<le> code c \<and> code c \<le> 57 then Some (code c - 48)
      else if 97 \<le> code c \<and> code c \<le> 102 then Some (code c - 87)
      else if 65 \<le> code c \<and> code c \<le> 70 then Some (code c - 55)
      else None)"

definition is_digit :: "nat \<Rightarrow> char \<Rightarrow> bool" where
  "is_digit base c \<longleftrightarrow> (case digit_value c of None \<Rightarrow> False | Some v \<Rightarrow> v < base)"

definition digits_value :: "nat \<Rightarrow> string \<Rightarrow> nat" where
  "digits_value base s = foldl (\<lambda>n c. base * n + the (digit_value c)) 0 s"

definition scan_sign :: "string \<Rightarrow> bool \<times> string" where
  "scan_sign s = (case s of [] \<Rightarrow> (False, s)
     | c # r \<Rightarrow> if c = CHR ''-'' then (True, r) else if c = CHR ''+'' then (False, r) else (False, s))"

definition scan_prefix :: "nat \<Rightarrow> string \<Rightarrow> string" where
  "scan_prefix base s =
     (if base = 16 \<and> (take 2 s = ''0x'' \<or> take 2 s = ''0X'') then drop 2 s else s)"

text \<open>\<^verbatim>\<open>strtol\<close>, \<^verbatim>\<open>%d\<close> and \<^verbatim>\<open>%x\<close>: a sign, a prefix and at least one digit.\<close>

definition scan_int :: "nat \<Rightarrow> string \<Rightarrow> (int \<times> string) option" where
  "scan_int base s =
     (let (neg, s1) = scan_sign (dropWhile is_blank s); s2 = scan_prefix base s1;
          ds = takeWhile (is_digit base) s2
      in if ds = [] then None
         else Some ((if neg then - int (digits_value base ds) else int (digits_value base ds)),
                    drop (length ds) s2))"

definition int_range :: "int \<Rightarrow> int option" where
  "int_range n = (if - (2 ^ 31) \<le> n \<and> n < 2 ^ 31 then Some n else None)"

text \<open>\<^verbatim>\<open>atoi\<close>: zero without a number, undefined outside \<^verbatim>\<open>int\<close>.\<close>

definition atoi :: "string \<Rightarrow> int option" where
  "atoi s = (case scan_int 10 s of None \<Rightarrow> Some 0 | Some (n, r) \<Rightarrow> int_range n)"

text \<open>\<^verbatim>\<open>getsubopt\<close> until the string is used up: names with their values.\<close>

definition subopt :: "string \<Rightarrow> string \<times> string option" where
  "subopt t = (let n = takeWhile (\<lambda>c. c \<noteq> CHR ''='') t
     in (n, if length n < length t then Some (drop (length n + 1) t) else None))"

function subopts :: "string \<Rightarrow> (string \<times> string option) list" where
  "subopts s =
     (if s = [] then []
      else let t = takeWhile (\<lambda>c. c \<noteq> CHR '','') s in subopt t # subopts (drop (length t + 1) s))"
  by pat_completeness auto

termination subopts
  by (relation "measure length") auto

declare subopts.simps [simp del]

section \<open>The globals\<close>

record channel_config =
  cc_id :: int
  num_rx_channels :: int
  num_tx_channels :: int
  cc_is_extended_mid :: int

record bitrate_config =
  bc_id :: int
  bc_bitrate :: int
  bc_bprm :: int
  bc_phase_seg1 :: int
  bc_phase_seg2 :: int
  bc_sjw :: int
  bc_btr0 :: int
  bc_btr1 :: int

record device_config =
  dc_vid :: int
  dc_did :: int
  dc_cap :: int

definition DEFAULT_NUM_RX_CHANNELS :: int where "DEFAULT_NUM_RX_CHANNELS = 1"
definition DEFAULT_NUM_TX_CHANNELS :: int where "DEFAULT_NUM_TX_CHANNELS = 1"
definition DEFAULT_RESTART_MS :: int where "DEFAULT_RESTART_MS = 50"
definition DEFAULT_ERROR_COUNT :: int where "DEFAULT_ERROR_COUNT = 0"
definition MAX_NO_OF_VCAN_CHANNELS :: int where "MAX_NO_OF_VCAN_CHANNELS = 16"

text \<open>
  The last three fields are variables of \<^verbatim>\<open>main\<close> that are set by scanning and keep their
  values from one option to the next.
\<close>

record options =
  o_r :: int
  o_r_restart_ms :: int
  o_R :: int
  o_R_error_count :: int
  o_v :: int
  o_l :: int
  o_i :: int
  o_q :: bool
  o_d :: int
  o_e :: int
  o_s :: bool
  o_t :: bool
  o_u :: int
  o_b :: int
  o_L :: bool
  o_L_num :: int
  o_m :: int
  o_x :: bool
  o_E :: bool
  optu_config :: "channel_config list"
  optb_config :: "bitrate_config list"
  disable_device_config :: "device_config list"
  enable_device_cap_config :: "device_config list"
  internal_clk :: bool
  external_clk :: u32
  next_device_id :: int
  v_vid :: int
  v_did :: int
  v_cap :: int

definition default_channel_config :: channel_config where
  "default_channel_config = \<lparr>cc_id = -1, num_rx_channels = DEFAULT_NUM_RX_CHANNELS,
     num_tx_channels = DEFAULT_NUM_TX_CHANNELS, cc_is_extended_mid = -1\<rparr>"

definition default_bitrate_config :: bitrate_config where
  "default_bitrate_config = \<lparr>bc_id = -1, bc_bitrate = 0, bc_bprm = 0, bc_phase_seg1 = 0,
     bc_phase_seg2 = 0, bc_sjw = 0, bc_btr0 = 0, bc_btr1 = 0\<rparr>"

text \<open>The initial values; \<open>vid\<close>, \<open>did\<close> and \<open>cap\<close> are what the uninitialised variables hold.\<close>

definition initial_options :: "int \<Rightarrow> int \<Rightarrow> int \<Rightarrow> options" where
  "initial_options vid did cap =
     \<lparr>o_r = 0, o_r_restart_ms = DEFAULT_RESTART_MS, o_R = 0, o_R_error_count = DEFAULT_ERROR_COUNT,
      o_v = 0, o_l = 0, o_i = 0, o_q = False, o_d = 0, o_e = 0, o_s = False, o_t = False, o_u = 0,
      o_b = 0, o_L = False, o_L_num = 0, o_m = 0, o_x = False, o_E = False, optu_config = [],
      optb_config = [], disable_device_config = [], enable_device_cap_config = [],
      internal_clk = True, external_clk = 0, next_device_id = 0,
      v_vid = vid, v_did = did, v_cap = cap\<rparr>"

section \<open>Parsing\<close>

text \<open>A step goes on, or ends the program with success or failure.\<close>

datatype 'a flow = Go 'a | Exit bool

definition bind_flow :: "'a flow option \<Rightarrow> ('a \<Rightarrow> 'b flow option) \<Rightarrow> 'b flow option" where
  "bind_flow r k = (case r of None \<Rightarrow> None | Some (Exit b) \<Rightarrow> Some (Exit b) | Some (Go x) \<Rightarrow> k x)"

definition map_flow :: "('a \<Rightarrow> 'b) \<Rightarrow> 'a flow option \<Rightarrow> 'b flow option" where
  "map_flow f r = bind_flow r (\<lambda>x. Some (Go (f x)))"

lemma bind_flow_Go: "bind_flow r k = Some (Go y) \<longleftrightarrow> (\<exists>x. r = Some (Go x) \<and> k x = Some (Go y))"
  by (simp add: bind_flow_def split: option.splits flow.splits)

text \<open>
  \<^verbatim>\<open>sscanf(optarg, "%x:%x,%x", &vid, &did, &cap)\<close> with the number of values it sets. \<^verbatim>\<open>%x\<close>
  stores an unsigned value into a signed variable.
\<close>

definition scan_hex :: "string \<Rightarrow> (int \<times> string) option" where
  "scan_hex s = map_option (\<lambda>(n, r). (sint (word_of_int n :: u32), r)) (scan_int 16 s)"

definition scan_lit :: "char \<Rightarrow> string \<Rightarrow> string option" where
  "scan_lit c s = (case s of [] \<Rightarrow> None | d # r \<Rightarrow> if d = c then Some r else None)"

definition scan_device :: "string \<Rightarrow> options \<Rightarrow> nat \<times> options" where
  "scan_device s o1 =
     (case scan_hex s of
        None \<Rightarrow> (0, o1)
      | Some (vid, r1) \<Rightarrow>
          let o2 = o1\<lparr>v_vid := vid\<rparr> in
          (case Option.bind (scan_lit (CHR '':'') r1) scan_hex of
             None \<Rightarrow> (1, o2)
           | Some (did, r2) \<Rightarrow>
               let o3 = o2\<lparr>v_did := did\<rparr> in
               (case Option.bind (scan_lit (CHR '','') r2) scan_hex of
                  None \<Rightarrow> (2, o3)
                | Some (cap, r3) \<Rightarrow> (3, o3\<lparr>v_cap := cap\<rparr>))))"

definition parse_disable :: "string \<Rightarrow> options \<Rightarrow> options" where
  "parse_disable arg o1 =
     (let (n, o2) = scan_device arg (o1\<lparr>o_d := o_d o1 + 1\<rparr>);
          dc = \<lparr>dc_vid = v_vid o2, dc_did = v_did o2, dc_cap = (if n = 3 then v_cap o2 else -1)\<rparr>
      in o2\<lparr>disable_device_config := disable_device_config o2 @ [dc]\<rparr>)"

definition parse_enable :: "string \<Rightarrow> options \<Rightarrow> options" where
  "parse_enable arg o1 =
     (let (n, o2) = scan_device arg (o1\<lparr>o_e := o_e o1 + 1\<rparr>);
          dc = \<lparr>dc_vid = v_vid o2, dc_did = v_did o2, dc_cap = v_cap o2\<rparr>
      in o2\<lparr>enable_device_cap_config := enable_device_cap_config o2 @ [dc]\<rparr>)"

text \<open>A number a sub-option must have.\<close>

definition with_value :: "(string \<Rightarrow> 'a option) \<Rightarrow> string option \<Rightarrow> 'a flow option" where
  "with_value f v = (case v of None \<Rightarrow> Some (Exit False) | Some s \<Rightarrow> map_option Go (f s))"

fun channel_subopts ::
  "(string \<times> string option) list \<Rightarrow> channel_config \<Rightarrow> channel_config flow option" where
  "channel_subopts [] c = Some (Go c)"
| "channel_subopts ((n, v) # ts) c =
     bind_flow
       (if n = ''id'' then map_flow (\<lambda>i. c\<lparr>cc_id := i\<rparr>) (with_value atoi v)
        else if n = ''rx'' then map_flow (\<lambda>i. c\<lparr>num_rx_channels := i\<rparr>) (with_value atoi v)
        else if n = ''tx'' then map_flow (\<lambda>i. c\<lparr>num_tx_channels := i\<rparr>) (with_value atoi v)
        else if n = ''s''
        then Some (if cc_is_extended_mid c \<noteq> -1 then Exit False else Go (c\<lparr>cc_is_extended_mid := 0\<rparr>))
        else if n = ''x''
        then Some (if cc_is_extended_mid c \<noteq> -1 then Exit False else Go (c\<lparr>cc_is_extended_mid := 1\<rparr>))
        else Some (Go c))
       (channel_subopts ts)"

text \<open>
  The entry of device \<open>i\<close>: the table grows to \<open>i + 1\<close> entries, the new ones with default
  settings. The comparison of the size with \<open>i + 1\<close> is unsigned, so that for \<open>i < -1\<close> the
  program asks for a block of impossible size and copies the old table to NULL. The largest
  number overflows \<open>i + 1\<close>, which is undefined. Otherwise \<^verbatim>\<open>malloc\<close> is taken to succeed; its
  result is not tested.
\<close>

definition table_put :: "'a \<Rightarrow> int \<Rightarrow> 'a \<Rightarrow> 'a list \<Rightarrow> 'a list flow option" where
  "table_put dflt i x xs =
     (if i < 0 then (if i < -1 \<and> xs \<noteq> [] then None else Some (Exit False))
      else if 2147483647 \<le> i then None
      else Some (Go ((xs @ replicate (nat i + 1 - length xs) dflt)[nat i := x])))"

definition parse_u :: "string \<Rightarrow> options \<Rightarrow> options flow option" where
  "parse_u arg o1 =
     bind_flow (channel_subopts (subopts arg) default_channel_config)
       (\<lambda>c. map_flow (\<lambda>t. o1\<lparr>o_u := o_u o1 + 1, optu_config := t\<rparr>)
          (table_put default_channel_config (cc_id c) c (optu_config o1)))"

text \<open>
  \<^verbatim>\<open>sscanf(value, "%d%s", &freq, units)\<close>. \<open>junk\<close> is what the uninitialised \<^verbatim>\<open>freq\<close> and
  \<^verbatim>\<open>units[0]\<close> hold; sixteen characters of units and more overrun the buffer.
\<close>

definition scan_units :: "char \<Rightarrow> string \<Rightarrow> char option" where
  "scan_units junk s =
     (let u = takeWhile (\<lambda>c. \<not> is_blank c) (dropWhile is_blank s)
      in if u = [] then Some junk else if 16 \<le> length u then None else Some (hd u))"

definition scan_freq :: "int \<times> char \<Rightarrow> string \<Rightarrow> int option" where
  "scan_freq junk s =
     (let (n, r) = (case scan_int 10 s of None \<Rightarrow> (None, '''') | Some (n, r) \<Rightarrow> (Some n, r)) in do {
        freq \<leftarrow> (case n of None \<Rightarrow> Some (fst junk) | Some v \<Rightarrow> int_range v);
        c \<leftarrow> (if n = None then Some (snd junk) else scan_units (snd junk) r);
        int_range (if c = CHR ''k'' \<or> c = CHR ''K'' then freq * 1000
                   else if c = CHR ''m'' \<or> c = CHR ''M'' then freq * 1000000 else freq) })"

text \<open>\<^verbatim>\<open>%x\<close> for a register value; without a number the variable keeps its junk.\<close>

definition scan_btr :: "int \<Rightarrow> string \<Rightarrow> int option" where
  "scan_btr junk s = (case scan_hex s of None \<Rightarrow> Some junk | Some (n, r) \<Rightarrow> Some n)"

fun bitrate_subopts ::
  "int \<times> char \<Rightarrow> (string \<times> string option) list \<Rightarrow> bitrate_config \<Rightarrow> bitrate_config flow option" where
  "bitrate_subopts junk [] c = Some (Go c)"
| "bitrate_subopts junk ((n, v) # ts) c =
     bind_flow
       (if n = ''id'' then map_flow (\<lambda>i. c\<lparr>bc_id := i\<rparr>) (with_value atoi v)
        else if n = ''freq'' then map_flow (\<lambda>i. c\<lparr>bc_bitrate := i\<rparr>) (with_value (scan_freq junk) v)
        else if n = ''bprm'' then map_flow (\<lambda>i. c\<lparr>bc_bprm := i\<rparr>) (with_value atoi v)
        else if n = ''ts1'' then map_flow (\<lambda>i. c\<lparr>bc_phase_seg1 := i\<rparr>) (with_value atoi v)
        else if n = ''ts2'' then map_flow (\<lambda>i. c\<lparr>bc_phase_seg2 := i\<rparr>) (with_value atoi v)
        else if n = ''sjw'' then map_flow (\<lambda>i. c\<lparr>bc_sjw := i\<rparr>) (with_value atoi v)
        else if n = ''btr0'' then map_flow (\<lambda>i. c\<lparr>bc_btr0 := i\<rparr>) (with_value (scan_btr (fst junk)) v)
        else if n = ''btr1'' then map_flow (\<lambda>i. c\<lparr>bc_btr1 := i\<rparr>) (with_value (scan_btr (fst junk)) v)
        else Some (Go c))
       (bitrate_subopts junk ts)"

definition parse_b :: "int \<times> char \<Rightarrow> string \<Rightarrow> options \<Rightarrow> options flow option" where
  "parse_b junk arg o1 =
     bind_flow (bitrate_subopts junk (subopts arg) default_bitrate_config)
       (\<lambda>c. map_flow (\<lambda>t. o1\<lparr>o_b := o_b o1 + 1, optb_config := t\<rparr>)
          (table_put default_bitrate_config (bc_id c) c (optb_config o1)))"

fun module_subopts :: "(string \<times> string option) list \<Rightarrow> options \<Rightarrow> options flow option" where
  "module_subopts [] o1 = Some (Go o1)"
| "module_subopts ((n, v) # ts) o1 =
     bind_flow
       (if n = ''f81601_ex_clk''
        then map_flow (\<lambda>i. o1\<lparr>internal_clk := False, external_clk := of_int i\<rparr>) (with_value atoi v)
        else Some (Go o1))
       (module_subopts ts)"

text \<open>
  One round of the main loop. \<^verbatim>\<open>-V\<close>, \<^verbatim>\<open>-C\<close>, \<^verbatim>\<open>-w\<close>, \<^verbatim>\<open>-c\<close>, \<^verbatim>\<open>-h\<close> and \<^verbatim>\<open>-?\<close> print something and
  end the program. \<^verbatim>\<open>-v\<close> and \<^verbatim>\<open>-l\<close> were counted by the first loop.
\<close>

definition parse_opt :: "int \<times> char \<Rightarrow> char \<Rightarrow> string \<Rightarrow> options \<Rightarrow> options flow option" where
  "parse_opt junk c arg o1 =
     (if c = CHR ''r'' then do { n \<leftarrow> atoi arg; Some (Go (o1\<lparr>o_r := o_r o1 + 1, o_r_restart_ms := n\<rparr>)) }
      else if c = CHR ''R''
      then do { n \<leftarrow> atoi arg; Some (Go (o1\<lparr>o_R := o_R o1 + 1, o_R_error_count := n\<rparr>)) }
      else if c = CHR ''d'' then Some (Go (parse_disable arg o1))
      else if c = CHR ''e'' then Some (Go (parse_enable arg o1))
      else if c = CHR ''U''
      then do { n \<leftarrow> atoi arg; Some (if n < 0 then Exit False else Go (o1\<lparr>next_device_id := n\<rparr>)) }
      else if c = CHR ''u'' then parse_u arg o1
      else if c = CHR ''b'' then parse_b junk arg o1
      else if c = CHR ''L''
      then do { n \<leftarrow> atoi arg;
        Some (if MAX_NO_OF_VCAN_CHANNELS < n then Exit False else Go (o1\<lparr>o_L := True, o_L_num := n\<rparr>)) }
      else if c = CHR ''m'' then module_subopts (subopts arg) (o1\<lparr>o_m := o_m o1 + 1\<rparr>)
      else if c = CHR ''q'' then Some (Go (o1\<lparr>o_q := True\<rparr>))
      else if c = CHR ''s'' then Some (Go (o1\<lparr>o_s := True\<rparr>))
      else if c = CHR ''t'' then Some (Go (o1\<lparr>o_t := True\<rparr>))
      else if c = CHR ''i'' then Some (Go (o1\<lparr>o_i := o_i o1 + 1\<rparr>))
      else if c = CHR ''E'' then Some (Go (o1\<lparr>o_E := True\<rparr>))
      else if c = CHR ''x'' then Some (Go (o1\<lparr>o_x := True\<rparr>))
      else if c \<in> set ''VCwch?'' then Some (Exit True)
      else Some (Go o1))"

fun parse_loop :: "int \<times> char \<Rightarrow> (char \<times> string) list \<Rightarrow> options \<Rightarrow> options flow option" where
  "parse_loop junk [] o1 = Some (Go o1)"
| "parse_loop junk ((c, arg) # cs) o1 =
     bind_flow (parse_opt junk c arg o1) (parse_loop junk cs)"

text \<open>The first loop.\<close>

definition count_verbose :: "(char \<times> string) list \<Rightarrow> options \<Rightarrow> options" where
  "count_verbose cs o1 = o1\<lparr>o_v := o_v o1 + int (length (filter (\<lambda>x. fst x = CHR ''v'') cs)),
     o_l := o_l o1 + int (length (filter (\<lambda>x. fst x = CHR ''l'') cs))\<rparr>"

definition parse_args :: "int \<times> char \<Rightarrow> (char \<times> string) list \<Rightarrow> options \<Rightarrow> options flow option" where
  "parse_args junk cs o1 = parse_loop junk cs (count_verbose cs o1)"

section \<open>The checks of the start\<close>

definition ids_from :: "options \<Rightarrow> bool" where
  "ids_from o1 \<longleftrightarrow>
     (\<forall>c \<in> set (optu_config o1). cc_id c \<noteq> -1 \<longrightarrow> next_device_id o1 \<le> cc_id c) \<and>
     (\<forall>c \<in> set (optb_config o1). bc_id c \<noteq> -1 \<longrightarrow> next_device_id o1 \<le> bc_id c)"

definition ids_below :: "options \<Rightarrow> bool" where
  "ids_below o1 \<longleftrightarrow>
     (\<forall>c \<in> set (optu_config o1). cc_id c \<noteq> -1 \<longrightarrow> cc_id c < next_device_id o1) \<and>
     (\<forall>c \<in> set (optb_config o1). bc_id c \<noteq> -1 \<longrightarrow> bc_id c < next_device_id o1)"

text \<open>
  \<^verbatim>\<open>main\<close> up to the start of the interrupt thread. \<open>release\<close> is \<^verbatim>\<open>RELEASE_BUILD\<close>, \<open>pool\<close> the
  success of \<^verbatim>\<open>fixed_memory_init\<close>, \<open>sel\<close> that of \<^verbatim>\<open>process_driver_selection\<close>; \<open>probe\<close> says whether
  the probing of the drivers succeeds and how many devices it registers; \<open>sched\<close> is the success
  of \<^verbatim>\<open>pthread_getschedparam\<close>. The selection itself and the loop that probes are in the theory
  \<open>Pci_Select\<close>, which builds on the options; here only their outcome matters.
\<close>

definition limit_verbose :: "bool \<Rightarrow> options \<Rightarrow> options" where
  "limit_verbose release o1 =
     (if release then o1\<lparr>o_v := min 2 (o_v o1), o_l := min 2 (o_l o1)\<rparr> else o1)"

definition main_start ::
  "bool \<Rightarrow> bool \<Rightarrow> (options \<Rightarrow> bool) \<Rightarrow> (options \<Rightarrow> bool \<times> nat) \<Rightarrow> bool \<Rightarrow> int \<times> char \<Rightarrow>
   (char \<times> string) list \<Rightarrow> options \<Rightarrow> options flow option" where
  "main_start release pool sel probe sched junk cs o0 =
     bind_flow (parse_args junk cs o0) (\<lambda>o1.
       if o_i o1 \<noteq> 0 then Some (Exit True)
       else let o2 = limit_verbose release o1; allow = (o_r o1 \<le> 1 \<and> ids_from o2) in
         if \<not> pool then Some (Exit False)
         else let (found, n) = probe o2;
                  o3 = o2\<lparr>next_device_id := next_device_id o2 + int n\<rparr>
           in if allow \<and> sel o2 \<and> found \<and> ids_below o3 \<and> sched then Some (Go o3)
              else Some (Exit False))"

section \<open>The tables\<close>

text \<open>Entry \<open>i\<close> of a table is the one of device \<open>i\<close> or an unused one.\<close>

definition indexed :: "('a \<Rightarrow> int) \<Rightarrow> 'a list \<Rightarrow> bool" where
  "indexed key xs \<longleftrightarrow> (\<forall>i < length xs. key (xs ! i) = -1 \<or> key (xs ! i) = int i)"

definition tables_wf :: "options \<Rightarrow> bool" where
  "tables_wf o1 \<longleftrightarrow> indexed cc_id (optu_config o1) \<and> indexed bc_id (optb_config o1)"

lemma table_put_nth:
  assumes "table_put dflt k x xs = Some (Go ys)"
  shows "0 \<le> k \<and> nat k < length ys \<and> ys ! nat k = x \<and> length ys = max (length xs) (nat k + 1) \<and>
    (\<forall>i < length ys. i \<noteq> nat k \<longrightarrow> ys ! i = (if i < length xs then xs ! i else dflt))"
  using assms by (auto simp: table_put_def nth_append split: if_splits)

lemma indexed_table_put:
  assumes "table_put dflt k x xs = Some (Go ys)" and "indexed key xs" and "key dflt = -1" and "key x = k"
  shows "indexed key ys"
proof (unfold indexed_def, intro allI impI)
  fix i assume i: "i < length ys"
  note t = table_put_nth [OF assms(1)]
  show "key (ys ! i) = -1 \<or> key (ys ! i) = int i"
  proof (cases "i = nat k")
    case True
    then show ?thesis using t assms(4) by simp
  next
    case False
    then have "ys ! i = (if i < length xs then xs ! i else dflt)" using t i by blast
    then show ?thesis using assms(2,3) by (simp add: indexed_def)
  qed
qed

lemma map_flow_Go: "map_flow f r = Some (Go y) \<longleftrightarrow> (\<exists>x. r = Some (Go x) \<and> y = f x)"
  by (auto simp: map_flow_def bind_flow_Go)

lemma parse_u_Go:
  "parse_u arg o1 = Some (Go o2) \<longleftrightarrow>
   (\<exists>c t. channel_subopts (subopts arg) default_channel_config = Some (Go c) \<and>
      table_put default_channel_config (cc_id c) c (optu_config o1) = Some (Go t) \<and>
      o2 = o1\<lparr>o_u := o_u o1 + 1, optu_config := t\<rparr>)"
  by (auto simp: parse_u_def map_flow_Go bind_flow_Go)

lemma parse_b_Go:
  "parse_b junk arg o1 = Some (Go o2) \<longleftrightarrow>
   (\<exists>c t. bitrate_subopts junk (subopts arg) default_bitrate_config = Some (Go c) \<and>
      table_put default_bitrate_config (bc_id c) c (optb_config o1) = Some (Go t) \<and>
      o2 = o1\<lparr>o_b := o_b o1 + 1, optb_config := t\<rparr>)"
  by (auto simp: parse_b_def map_flow_Go bind_flow_Go)

text \<open>The other options leave both tables alone.\<close>

lemma module_subopts_tables:
  "module_subopts ts o1 = Some (Go o2) \<Longrightarrow>
   optu_config o2 = optu_config o1 \<and> optb_config o2 = optb_config o1"
proof (induction ts o1 rule: module_subopts.induct)
  case (2 n v ts o1)
  then show ?case
    by (auto simp: bind_flow_Go map_flow_Go split: if_splits)
qed simp

lemma scan_device_tables:
  "optu_config (snd (scan_device s o1)) = optu_config o1"
  "optb_config (snd (scan_device s o1)) = optb_config o1"
  by (simp_all add: scan_device_def Let_def split: option.splits)

lemma parse_opt_tables:
  assumes "parse_opt junk c arg o1 = Some (Go o2)" and "c \<noteq> CHR ''u''" and "c \<noteq> CHR ''b''"
  shows "optu_config o2 = optu_config o1 \<and> optb_config o2 = optb_config o1"
proof -
  have "optu_config (parse_disable arg o1) = optu_config o1"
    "optb_config (parse_disable arg o1) = optb_config o1"
    "optu_config (parse_enable arg o1) = optu_config o1"
    "optb_config (parse_enable arg o1) = optb_config o1"
    using scan_device_tables [of arg "o1\<lparr>o_d := o_d o1 + 1\<rparr>"]
      scan_device_tables [of arg "o1\<lparr>o_e := o_e o1 + 1\<rparr>"]
    by (simp_all add: parse_disable_def parse_enable_def case_prod_beta)
  then show ?thesis
    using assms module_subopts_tables [of "subopts arg" "o1\<lparr>o_m := o_m o1 + 1\<rparr>" o2]
    unfolding parse_opt_def by (auto simp: bind_eq_Some_conv split: if_splits)
qed

lemma default_channel_id: "cc_id default_channel_config = -1"
  by (simp add: default_channel_config_def)

lemma default_bitrate_id: "bc_id default_bitrate_config = -1"
  by (simp add: default_bitrate_config_def)

lemma tables_wf_parse_opt:
  assumes "parse_opt junk c arg o1 = Some (Go o2)" and wf: "tables_wf o1"
  shows "tables_wf o2"
proof -
  consider "c = CHR ''u''" | "c = CHR ''b''" | "c \<noteq> CHR ''u''" "c \<noteq> CHR ''b''" by blast
  then show ?thesis
  proof cases
    case 1
    then have "parse_u arg o1 = Some (Go o2)" using assms(1) by (simp add: parse_opt_def)
    then show ?thesis
      using wf indexed_table_put [of default_channel_config _ _ _ _ cc_id]
      by (auto simp: parse_u_Go tables_wf_def default_channel_id)
  next
    case 2
    then have "parse_b junk arg o1 = Some (Go o2)" using assms(1) by (simp add: parse_opt_def)
    then show ?thesis
      using wf indexed_table_put [of default_bitrate_config _ _ _ _ bc_id]
      by (auto simp: parse_b_Go tables_wf_def default_bitrate_id)
  next
    case 3
    then show ?thesis using parse_opt_tables [OF assms(1)] wf by (simp add: tables_wf_def)
  qed
qed

lemma tables_wf_parse_loop:
  "parse_loop junk cs o1 = Some (Go o2) \<Longrightarrow> tables_wf o1 \<Longrightarrow> tables_wf o2"
proof (induction junk cs o1 rule: parse_loop.induct)
  case (2 junk c arg cs o1)
  then show ?case
    by (auto simp: bind_flow_Go dest: tables_wf_parse_opt)
qed simp

text \<open>
  C27: A program that starts has used all its settings: for every entry of the tables of channel
  and bit rate settings that was given on the command line, the entry stands at the index of its
  device number, and a device of this number was registered. A setting for a device that does
  not exist keeps the program from starting.
\<close>

theorem started_settings_have_devices:
  assumes "main_start release pool sel probe sched junk cs (initial_options vid did cap) = Some (Go o')"
  shows "\<exists>o1 n. probe o1 = (True, n) \<and> next_device_id o' = next_device_id o1 + int n \<and>
    (\<forall>i < length (optu_config o'). let c = cc_id (optu_config o' ! i) in
       c = -1 \<or> c = int i \<and> next_device_id o1 \<le> c \<and> c < next_device_id o1 + int n) \<and>
    (\<forall>i < length (optb_config o'). let b = bc_id (optb_config o' ! i) in
       b = -1 \<or> b = int i \<and> next_device_id o1 \<le> b \<and> b < next_device_id o1 + int n)"
proof -
  let ?o0 = "initial_options vid did cap"
  obtain o1 where p: "parse_args junk cs ?o0 = Some (Go o1)"
    using assms by (auto simp: main_start_def bind_flow_Go)
  have "tables_wf (count_verbose cs ?o0)"
    by (simp add: tables_wf_def indexed_def count_verbose_def initial_options_def)
  then have wf: "tables_wf o1" using p tables_wf_parse_loop unfolding parse_args_def by blast
  define o2 where "o2 = limit_verbose release o1"
  have same: "optu_config o2 = optu_config o1" "optb_config o2 = optb_config o1"
    by (simp_all add: o2_def limit_verbose_def)
  obtain n where n: "probe o2 = (True, n)" "o' = o2\<lparr>next_device_id := next_device_id o2 + int n\<rparr>"
    "ids_from o2" "ids_below o'"
    using assms p
    by (auto simp: main_start_def bind_flow_Go o2_def Let_def split: if_splits prod.splits)
  show ?thesis
    using n wf same
    by (intro exI [of _ o2] exI [of _ n])
       (auto simp: Let_def tables_wf_def indexed_def ids_from_def ids_below_def)
qed

definition sample_args :: "(char \<times> string) list" where
  "sample_args = [(CHR ''u'', ''id=1,rx=3,x''), (CHR ''b'', ''id=0,freq=250k'')]"

definition sample_options :: options where
  "sample_options = (initial_options 0 0 0)\<lparr>o_u := 1, o_b := 1,
     optu_config := [default_channel_config,
       \<lparr>cc_id = 1, num_rx_channels = 3, num_tx_channels = 1, cc_is_extended_mid = 1\<rparr>],
     optb_config := [default_bitrate_config\<lparr>bc_id := 0, bc_bitrate := 250000\<rparr>]\<rparr>"

lemma sample_parse: "parse_args (0, CHR ''?'') sample_args (initial_options 0 0 0) = Some (Go sample_options)"
  by code_simp

lemma sample_start:
  "main_start False True (\<lambda>_. True) (\<lambda>_. (True, 2)) True (0, CHR ''?'') sample_args
     (initial_options 0 0 0) = Some (Go (sample_options\<lparr>next_device_id := 2\<rparr>))"
proof -
  have "o_i sample_options = 0" "o_r sample_options = 0" "next_device_id sample_options = 0"
    "ids_from sample_options" "ids_below (sample_options\<lparr>next_device_id := 2\<rparr>)"
    by (simp_all add: sample_options_def initial_options_def ids_from_def ids_below_def
        default_channel_config_def default_bitrate_config_def)
  then show ?thesis
    by (simp add: main_start_def bind_flow_def sample_parse limit_verbose_def Let_def)
qed

theorem started_settings_have_devices_witness:
  "main_start False True (\<lambda>_. True) (\<lambda>_. (True, 2)) True (0, CHR ''?'') sample_args
     (initial_options 0 0 0) = Some (Go (sample_options\<lparr>next_device_id := 2\<rparr>)) \<and>
   cc_id (optu_config sample_options ! 1) = 1 \<and> bc_id (optb_config sample_options ! 0) = 0"
proof -
  have "cc_id (optu_config sample_options ! 1) \<noteq> -1" "bc_id (optb_config sample_options ! 0) \<noteq> -1"
    "1 < length (optu_config sample_options)" "0 < length (optb_config sample_options)"
    by (simp_all add: sample_options_def default_bitrate_config_def)
  then show ?thesis
    using started_settings_have_devices [OF sample_start] sample_start by (auto simp: Let_def)
qed

text \<open>
  A bit rate without a unit is read together with an uninitialised character: what the stack
  happens to hold decides whether it counts as kilobits.
\<close>

lemma freq_without_unit:
  "scan_freq (0, CHR ''k'') ''500'' = Some 500000 \<and> scan_freq (0, CHR ''?'') ''500'' = Some 500"
  by code_simp

end
