(* ===== verification/Resmgr.thy ===== *)
theory Resmgr
  imports Resmgr_Devctl Session Options
begin

unbundle bit_operations_syntax

text \<open>
  The resource managers of the channels: \<^verbatim>\<open>register_netdev\<close>, \<^verbatim>\<open>unregister_netdev\<close>, the open
  contexts of the clients and the thread that retries the requests of blocked clients, all of
  \<^verbatim>\<open>src/src/resmgr.c\<close>. A device that is registered gets its channels in the list of resource
  managers, each under a name of its own; a blocked read is answered once enough has been
  received.
\<close>

section \<open>The list of resource managers\<close>

definition store_resmgr :: "can_resmgr \<Rightarrow> addr \<Rightarrow> can_resmgr dlist \<Rightarrow> can_resmgr dlist option" where
  "store_resmgr r a L = append_cell r a L"

definition get_resmgr :: "int \<Rightarrow> can_resmgr dlist \<Rightarrow> ptr option" where
  "get_resmgr i L = find_first (\<lambda>r. rm_id r = i) L"

definition free_all_resmgrs :: "can_resmgr dlist \<Rightarrow> can_resmgr dlist option" where
  "free_all_resmgrs L = free_all L"

section \<open>Registration\<close>

text \<open>\<^verbatim>\<open>%d\<close> of a number that is not negative.\<close>

function dec :: "nat \<Rightarrow> string" where
  "dec n = (if n < 10 then [char_of (48 + n)] else dec (n div 10) @ [char_of (48 + n mod 10)])"
  by pat_completeness auto

termination dec
  by (relation "measure id") auto

declare dec.simps [simp del]

definition default_setup :: "options \<Rightarrow> user_dev_setup" where
  "default_setup o1 = no_setup\<lparr>set_restart_ms := True,
     u_restart_ms := o_r_restart_ms o1,
     set_bittiming := True, u_bittiming := bitrate_request 250000\<rparr>"

text \<open>The entry of a table for device \<open>i\<close>, if it is in use.\<close>

definition table_entry :: "('a \<Rightarrow> int) \<Rightarrow> int \<Rightarrow> 'a list \<Rightarrow> 'a option" where
  "table_entry key i xs =
     (if 0 \<le> i \<and> nat i < length xs \<and> key (xs ! nat i) = i then Some (xs ! nat i) else None)"

definition config_timing :: "bitrate_config \<Rightarrow> can_devctl_timing" where
  "config_timing c = \<lparr>ref_clock_freq = of_int (bc_bitrate c), bit_rate_prescaler = of_int (bc_bprm c),
     sync_jump_width = of_int (bc_sjw c), time_segment_1 = of_int (bc_phase_seg1 c),
     time_segment_2 = of_int (bc_phase_seg2 c)\<rparr>"

definition bitrate_setup :: "u32 \<Rightarrow> options \<Rightarrow> int \<Rightarrow> u32 \<Rightarrow> setup_result" where
  "bitrate_setup conv o1 i freq =
     (case table_entry bc_id i (optb_config o1) of
        None \<Rightarrow> Setup (default_setup o1)
      | Some c \<Rightarrow>
          if bc_bitrate c = 0 then Setup (default_setup o1)
          else if bc_btr0 c \<noteq> 0 \<or> bc_btr1 c \<noteq> 0
          then Setup ((default_setup o1)\<lparr>set_bittiming := False, set_btr := True,
                 u_bittiming := bitrate_request (of_int (bc_bitrate c)),
                 u_btr0 := of_int (bc_btr0 c), u_btr1 := of_int (bc_btr1 c)\<rparr>)
          else create_user_dev_setup conv (config_timing c) freq)"

definition silent_setup :: "options \<Rightarrow> user_dev_setup \<Rightarrow> user_dev_setup" where
  "silent_setup o1 user =
     (if o_s o1
      then user\<lparr>set_ctrlmode := True, u_flags := CAN_CTRLMODE_LISTENONLY, u_mask := CAN_CTRLMODE_LISTENONLY\<rparr>
      else user)"

text \<open>The channels of a device: their number and kind of identifier by the options.\<close>

definition channel_counts :: "options \<Rightarrow> int \<Rightarrow> int \<times> int \<times> bool" where
  "channel_counts o1 i =
     (case table_entry cc_id i (optu_config o1) of
        None \<Rightarrow> (DEFAULT_NUM_RX_CHANNELS, DEFAULT_NUM_TX_CHANNELS, o_x o1)
      | Some c \<Rightarrow> (num_rx_channels c, num_tx_channels c,
          if cc_is_extended_mid c \<noteq> -1 then cc_is_extended_mid c \<noteq> 0 else o_x o1))"

definition channel_plan :: "int \<times> int \<times> bool \<Rightarrow> (channel_type \<times> nat) list" where
  "channel_plan p =
     map (\<lambda>k. (RX_CHANNEL, k)) [0..<nat (fst p)] @ map (\<lambda>k. (TX_CHANNEL, k)) [0..<nat (fst (snd p))]"

text \<open>\<open>msz\<close> is \<^verbatim>\<open>MAX_NAME_SIZE\<close> of the platform.\<close>

definition channel_name :: "nat \<Rightarrow> nat \<Rightarrow> channel_type \<times> nat \<Rightarrow> string" where
  "channel_name msz i c =
     take (msz - 1) (''/dev/can'' @ dec i @
       (case fst c of RX_CHANNEL \<Rightarrow> ''/rx'' | TX_CHANNEL \<Rightarrow> ''/tx'') @ dec (snd c))"

text \<open>
  What the calls for one channel yield: the block and its contents, \<^verbatim>\<open>dispatch_create_channel\<close>,
  \<^verbatim>\<open>resmgr_attach\<close>, \<^verbatim>\<open>message_attach\<close> and \<^verbatim>\<open>thread_pool_create\<close>. A failure leaves the new
  resource manager in the list.
\<close>

record channel_env =
  ch_block :: ptr
  ch_junk :: can_resmgr
  ch_dispatch :: bool
  ch_attach :: int
  ch_message :: bool
  ch_pool :: bool

definition init_channel ::
  "ptr \<Rightarrow> string \<Rightarrow> bool \<Rightarrow> can_resmgr \<Rightarrow> can_resmgr" where
  "init_channel ds drv ext r = r\<lparr>rm_device_session := ds, rm_driver := drv, rm_is_extended_mid := ext\<rparr>"

definition name_channel :: "string \<Rightarrow> channel_type \<Rightarrow> int \<Rightarrow> can_resmgr \<Rightarrow> can_resmgr" where
  "name_channel nm ct i r = r\<lparr>rm_name := nm, rm_channel_type := ct, rm_id := i\<rparr>"

definition reset_channel :: "can_resmgr \<Rightarrow> can_resmgr" where
  "reset_channel r = r\<lparr>rm_latency_limit_ms := 0, rm_mid := 0, rm_mfilter := 0xFFFFFFFF, rm_prio := 0,
     rm_shutdown := False\<rparr>"

definition create_channel ::
  "ptr \<Rightarrow> string \<Rightarrow> bool \<Rightarrow> string \<Rightarrow> channel_type \<Rightarrow> channel_env \<Rightarrow> can_resmgr dlist \<Rightarrow>
   (bool \<times> can_resmgr dlist) option" where
  "create_channel ds drv ext nm ct env L = do {
     a \<leftarrow> ch_block env;
     L1 \<leftarrow> store_resmgr (ch_junk env) a L;
     L2 \<leftarrow> update_cell a (init_channel ds drv ext) L1;
     if \<not> ch_dispatch env then Some (False, L2)
     else do {
       L3 \<leftarrow> update_cell a (name_channel nm ct (ch_attach env)) L2;
       if ch_attach env = -1 then Some (False, L3)
       else do {
         L4 \<leftarrow> update_cell a reset_channel L3;
         Some (ch_message env \<and> ch_pool env, L4) } } }"

text \<open>
  The two loops. The flag says whether all channels were created, the number how many; the
  first failure ends the function.
\<close>

fun create_channels ::
  "ptr \<Rightarrow> string \<Rightarrow> bool \<Rightarrow> (channel_type \<times> nat \<Rightarrow> string) \<Rightarrow> (channel_type \<times> nat) list \<Rightarrow>
   channel_env list \<Rightarrow> can_resmgr dlist \<Rightarrow> (bool \<times> nat \<times> can_resmgr dlist) option" where
  "create_channels ds drv ext nm (c # cs) (e # es) L = do {
     (ok, L1) \<leftarrow> create_channel ds drv ext (nm c) (fst c) e L;
     if \<not> ok then Some (False, 0, L1)
     else do {
       (all, n, L2) \<leftarrow> create_channels ds drv ext nm cs es L1;
       Some (all, Suc n, L2) } }"
| "create_channels ds drv ext nm cs es L = Some (True, 0, L)"

record 'h reg_state =
  rg_list :: "can_resmgr dlist"
  rg_sessions :: sessions
  rg_next :: int
  rg_dev :: "'h net_device"
  rg_dev_session :: ptr

text \<open>
  \<^verbatim>\<open>register_netdev\<close> for the device at address \<open>v\<close>; \<open>drv\<close> is the name of the driver of
  \<^verbatim>\<open>probe_driver_selection\<close>, which may be NULL, \<open>es\<close> has one entry per channel. The result is
  whether it returned 0.
\<close>

definition register_netdev ::
  "bool \<Rightarrow> nat \<Rightarrow> u32 \<Rightarrow> nat \<Rightarrow> options \<Rightarrow> string option \<Rightarrow> addr \<Rightarrow> rc \<Rightarrow> session_env \<Rightarrow> channel_env list \<Rightarrow>
   'h reg_state \<Rightarrow> (bool \<times> 'h reg_state) option" where
  "register_netdev ec t conv msz o1 drv v r_irq senv es s =
     (case drv of
        None \<Rightarrow> Some (False, s)
      | Some dn \<Rightarrow>
          (let i = rg_next s; s1 = s\<lparr>rg_next := i + 1\<rparr> in
           case bitrate_setup conv o1 i (clock_freq (rg_dev s)) of
             Setup user \<Rightarrow> do {
               (e, d1) \<leftarrow> can_changelink (silent_setup o1 user) (rg_dev s);
               if e \<noteq> EOK then Some (False, s1\<lparr>rg_dev := d1\<rparr>)
               else do {
                 (e2, d2) \<leftarrow> sja1000_open r_irq d1;
                 if e2 \<noteq> EOK then Some (False, s1\<lparr>rg_dev := d2, rg_dev_session := None\<rparr>)
                 else do {
                   (ds, ss) \<leftarrow> create_device_session ec t v 15 senv (rg_sessions s);
                   let p = channel_counts o1 i;
                   (ok, n, L) \<leftarrow> create_channels ds dn (snd (snd p)) (channel_name msz (nat i))
                     (channel_plan p) es (rg_list s);
                   Some (ok, s1\<lparr>rg_list := L, rg_sessions := ss, rg_dev_session := ds,
                     rg_dev := (if 0 < n then d2\<lparr>dev_flags := dev_flags d2 OR IFF_UP\<rparr> else d2)\<rparr>) } } }
           | _ \<Rightarrow> None))"

text \<open>
  The search of \<^verbatim>\<open>unregister_netdev\<close>: the first resource manager whose session belongs to the
  device. The session of every resource manager on the way is dereferenced; the search ends in
  \<open>None\<close> at one that was freed.
\<close>

definition owner_session :: "sessions \<Rightarrow> can_resmgr \<Rightarrow> device_session option" where
  "owner_session s r = do { d \<leftarrow> rm_device_session r; cell_item d (device_list s) }"

definition find_owner :: "sessions \<Rightarrow> addr \<Rightarrow> can_resmgr dlist \<Rightarrow> ptr option" where
  "find_owner s v L = do {
     loc \<leftarrow> find_first (\<lambda>r. case owner_session s r of None \<Rightarrow> True | Some ds \<Rightarrow> ds_device ds = v) L;
     (case loc of
        None \<Rightarrow> Some None
      | Some a \<Rightarrow> do { r \<leftarrow> cell_item a L; ds \<leftarrow> owner_session s r; Some (Some a) }) }"

definition unregister_netdev :: "bool \<Rightarrow> nat \<Rightarrow> addr \<Rightarrow> 'h reg_state \<Rightarrow> 'h reg_state option" where
  "unregister_netdev ec t v s = do {
     d \<leftarrow> sja1000_close ((rg_dev s)\<lparr>dev_flags := dev_flags (rg_dev s) AND NOT IFF_UP\<rparr>);
     let s1 = s\<lparr>rg_dev := d\<rparr>;
     loc \<leftarrow> find_owner (rg_sessions s) v (rg_list s);
     (case loc of
        None \<Rightarrow> Some s1
      | Some a \<Rightarrow> do {
          r \<leftarrow> cell_item a (rg_list s);
          ss \<leftarrow> destroy_device_session ec t (rm_device_session r) (rg_sessions s);
          L \<leftarrow> delete_cell a (rg_list s);
          Some (s1\<lparr>rg_sessions := ss, rg_list := L\<rparr>) }) }"

section \<open>Open contexts\<close>

text \<open>
  \<^verbatim>\<open>can_ocb_calloc\<close> for a client of channel \<open>i\<close>. \<open>room\<close> is the result of \<^verbatim>\<open>calloc\<close>, \<open>buf\<close> of the
  \<^verbatim>\<open>malloc\<close> of the read buffer, \<open>e_m\<close> and \<open>e_c\<close> those of the mutex and the condition variable.
  The addresses of the three filter fields are represented by the address of the resource
  manager that has them.
\<close>

definition can_ocb_calloc ::
  "bool \<Rightarrow> nat \<Rightarrow> int \<Rightarrow> bool \<Rightarrow> u8 list option \<Rightarrow> rc \<Rightarrow> rc \<Rightarrow> session_env \<Rightarrow> can_resmgr dlist \<Rightarrow> sessions \<Rightarrow>
   (can_ocb option \<times> sessions) option" where
  "can_ocb_calloc ec t i room buf e_m e_c env L s = do {
     loc \<leftarrow> get_resmgr i L;
     a \<leftarrow> loc;
     r \<leftarrow> cell_item a L;
     if \<not> room then Some (None, s)
     else do {
       ds \<leftarrow> owner_session s r;
       let rx = (rm_channel_type r = RX_CHANNEL);
       (S, s1) \<leftarrow> create_client_session ec t (Some (ds_device ds)) (if rx then 1024 else 0) a a a env s;
       let ocb = \<lparr>ocb_resmgr = a, ocb_session = S, rx_open = rx, blocked_clients = dl_empty,
         read_buffer = (if rx then buf else None), read_size = (if rx then 4096 else 0),
         rx_nbytes = 0, rx_offset = 0\<rparr>;
       if \<not> rx then Some (Some ocb, s1)
       else if S = None then None
       else if e_m \<noteq> EOK \<or> e_c \<noteq> EOK
       then do { s2 \<leftarrow> destroy_client_session ec t S s1; Some (None, s2) }
       else Some (Some ocb, s1) } }"

text \<open>
  The walk over the blocked clients with \<^verbatim>\<open>MsgError\<close>: the numbers that get the error
  \<^verbatim>\<open>EBADF\<close>. \<^verbatim>\<open>can_ocb_free\<close> comes after it.
\<close>

partial_function (option) error_clients :: "int store \<Rightarrow> ptr \<Rightarrow> int list option" where
  "error_clients h loc =
     (case loc of
        None \<Rightarrow> Some []
      | Some a \<Rightarrow>
          (case h a of
             None \<Rightarrow> None
           | Some c \<Rightarrow>
               do { rs \<leftarrow> error_clients h (c_next c); Some (c_item c # rs) }))"

definition can_ocb_free ::
  "bool \<Rightarrow> nat \<Rightarrow> can_resmgr dlist \<Rightarrow> can_ocb \<Rightarrow> sessions \<Rightarrow> (int list \<times> int dlist \<times> sessions) option" where
  "can_ocb_free ec t L ocb s = do {
     s1 \<leftarrow> destroy_client_session ec t (ocb_session ocb) s;
     r \<leftarrow> cell_item (ocb_resmgr ocb) L;
     if rm_channel_type r = RX_CHANNEL
     then do {
       rs \<leftarrow> error_clients (dl_cells (blocked_clients ocb)) (dl_root (blocked_clients ocb));
       B \<leftarrow> free_all_blocked_clients (blocked_clients ocb);
       Some (rs, B, s1) }
     else Some ([], blocked_clients ocb, s1) }"

section \<open>The thread of an open context\<close>

text \<open>
  The program points of \<^verbatim>\<open>rx_loop\<close>: before the wait for a blocked client, at the call of
  \<^verbatim>\<open>dequeue_peek\<close> and inside its wait, before the lock for the first blocked client, at the
  message that makes the library repeat that client's request, and after the end.
\<close>

datatype rx_pc = Rx_wait | Rx_peek | Rx_peeking | Rx_fetch | Rx_send int | Rx_exit

record rx_thread =
  th_pc :: rx_pc
  th_shutdown :: bool
  th_ocb :: can_ocb
  th_queue :: queue

definition rx_peeked :: "rx_thread \<Rightarrow> consumer \<times> queue \<Rightarrow> rx_thread option" where
  "rx_peeked st r =
     (case fst r of
        Finished Null \<Rightarrow> Some (st\<lparr>th_pc := Rx_wait, th_queue := snd r\<rparr>)
      | Finished (Msg m) \<Rightarrow> Some (st\<lparr>th_pc := Rx_fetch, th_queue := snd r\<rparr>)
      | Finished Wild \<Rightarrow> None
      | _ \<Rightarrow> Some (st\<lparr>th_pc := Rx_peeking, th_queue := snd r\<rparr>))"

text \<open>
  \<^verbatim>\<open>msg_again_callback\<close>: \<open>again\<close> is \<^verbatim>\<open>resmgr_msg_again\<close> of the library, which runs the handler
  of the waiting request again, or does nothing when the client is gone.
\<close>

definition msg_again_callback ::
  "(int \<Rightarrow> can_ocb \<times> queue \<Rightarrow> (can_ocb \<times> queue) option) \<Rightarrow> int \<Rightarrow> can_ocb \<times> queue \<Rightarrow>
   (can_ocb \<times> queue) option" where
  "msg_again_callback again rcvid x = (if rcvid \<noteq> -1 then again rcvid x else Some x)"

definition rx_step ::
  "(int \<Rightarrow> can_ocb \<times> queue \<Rightarrow> (can_ocb \<times> queue) option) \<Rightarrow> rx_thread \<Rightarrow> rx_thread option" where
  "rx_step again st =
     (case th_pc st of
        Rx_wait \<Rightarrow>
          if th_shutdown st \<or> \<not> rx_open (th_ocb st) then Some (st\<lparr>th_pc := Rx_exit\<rparr>)
          else if dl_root (blocked_clients (th_ocb st)) = None then Some st
          else Some (st\<lparr>th_pc := Rx_peek\<rparr>)
      | Rx_peek \<Rightarrow>
          if \<not> session_up (th_queue st) then Some (st\<lparr>th_pc := Rx_wait\<rparr>)
          else rx_peeked st (dequeue_peek_enter (th_queue st))
      | Rx_peeking \<Rightarrow> rx_peeked st (dequeue_peek_check (th_queue st))
      | Rx_fetch \<Rightarrow> do {
          a \<leftarrow> dl_root (blocked_clients (th_ocb st));
          r \<leftarrow> cell_item a (blocked_clients (th_ocb st));
          Some (st\<lparr>th_pc := Rx_send r\<rparr>) }
      | Rx_send r \<Rightarrow> do {
          (ocb, q) \<leftarrow> msg_again_callback again r (th_ocb st, th_queue st);
          Some (st\<lparr>th_pc := Rx_wait, th_ocb := ocb, th_queue := q\<rparr>) }
      | Rx_exit \<Rightarrow> Some st)"

fun rx_steps ::
  "(int \<Rightarrow> can_ocb \<times> queue \<Rightarrow> (can_ocb \<times> queue) option) \<Rightarrow> nat \<Rightarrow> rx_thread \<Rightarrow> rx_thread option" where
  "rx_steps again 0 st = Some st"
| "rx_steps again (Suc k) st = Option.bind (rx_step again st) (rx_steps again k)"

section \<open>Names\<close>

lemma digit_value_char: "d < 10 \<Longrightarrow> digit_value (char_of (48 + d :: nat)) = Some d"
  by (simp add: digit_value_def code_def)

lemma digits_value_snoc:
  "digits_value b (s @ [c]) = b * digits_value b s + the (digit_value c)"
  by (simp add: digits_value_def)

lemma digits_value_dec: "digits_value 10 (dec n) = n"
proof (induction n rule: dec.induct)
  case (1 n)
  show ?case
  proof (cases "n < 10")
    case True
    then show ?thesis
      using digit_value_char [of n] by (subst dec.simps) (simp add: digits_value_def)
  next
    case False
    then have "digits_value 10 (dec n) = 10 * (n div 10) + n mod 10"
      using 1 digit_value_char [of "n mod 10"] by (subst dec.simps) (simp add: digits_value_snoc)
    then show ?thesis by simp
  qed
qed

lemma dec_inject [simp]: "dec m = dec n \<longleftrightarrow> m = n"
  by (metis digits_value_dec)

definition full_name :: "nat \<Rightarrow> channel_type \<times> nat \<Rightarrow> string" where
  "full_name i c = ''/dev/can'' @ dec i @
     (case fst c of RX_CHANNEL \<Rightarrow> ''/rx'' | TX_CHANNEL \<Rightarrow> ''/tx'') @ dec (snd c)"

lemma full_name_inject [simp]: "full_name i c = full_name i c' \<longleftrightarrow> c = c'"
  by (cases c; cases c') (auto simp: full_name_def split: channel_type.splits)

lemma channel_name_full: "length (full_name i c) < msz \<Longrightarrow> channel_name msz i c = full_name i c"
  by (simp add: channel_name_def full_name_def)

lemma distinct_channel_plan: "distinct (channel_plan p)"
  by (auto simp: channel_plan_def distinct_map inj_on_def)

lemma channel_names_distinct:
  assumes "\<forall>c \<in> set (channel_plan p). length (full_name i c) < msz"
  shows "distinct (map (channel_name msz i) (channel_plan p))"
proof -
  have "map (channel_name msz i) (channel_plan p) = map (full_name i) (channel_plan p)"
    using assms channel_name_full by simp
  then show ?thesis by (simp add: distinct_map distinct_channel_plan inj_on_def)
qed

section \<open>Registration\<close>

definition new_channel ::
  "ptr \<Rightarrow> string \<Rightarrow> bool \<Rightarrow> string \<Rightarrow> channel_type \<Rightarrow> channel_env \<Rightarrow> can_resmgr" where
  "new_channel ds drv ext nm ct e =
     reset_channel (name_channel nm ct (ch_attach e) (init_channel ds drv ext (ch_junk e)))"

definition channel_ok :: "channel_env \<Rightarrow> bool" where
  "channel_ok e \<longleftrightarrow> ch_block e \<noteq> None \<and> ch_dispatch e \<and> ch_attach e \<noteq> -1 \<and> ch_message e \<and> ch_pool e"

lemma update_last:
  assumes "dl_rel g L (xs @ [(a, x)])"
  shows "\<exists>L'. update_cell a f L = Some L' \<and> dl_rel g L' (xs @ [(a, f x)])"
proof -
  have "a \<notin> fst ` set xs" using assms by (simp add: dl_rel_def)
  then have "map (\<lambda>(b, y). (b, if b = a then f y else y)) xs = xs"
    by (intro map_idI) force
  then show ?thesis using update_cell_rel [OF assms, of a f] by simp
qed

lemma create_channel_appends:
  assumes "dl_rel Map.empty L xs" and "channel_ok e" and "the (ch_block e) \<notin> fst ` set xs"
  shows "\<exists>L'. create_channel ds drv ext nm ct e L = Some (True, L') \<and>
    dl_rel Map.empty L' (xs @ [(the (ch_block e), new_channel ds drv ext nm ct e)])"
proof -
  let ?a = "the (ch_block e)" and ?f = "init_channel ds drv ext" and ?g = "name_channel nm ct (ch_attach e)"
  obtain L1 where L1: "append_cell (ch_junk e) ?a L = Some L1" "dl_rel Map.empty L1 (xs @ [(?a, ch_junk e)])"
    using dlist.add_law [OF assms(1,3)] by blast
  obtain L2 where L2: "update_cell ?a ?f L1 = Some L2" "dl_rel Map.empty L2 (xs @ [(?a, ?f (ch_junk e))])"
    using update_last [OF L1(2)] by blast
  obtain L3 where L3: "update_cell ?a ?g L2 = Some L3" "dl_rel Map.empty L3 (xs @ [(?a, ?g (?f (ch_junk e)))])"
    using update_last [OF L2(2)] by blast
  obtain L4 where L4: "update_cell ?a reset_channel L3 = Some L4"
    "dl_rel Map.empty L4 (xs @ [(?a, new_channel ds drv ext nm ct e)])"
    using update_last [OF L3(2), of reset_channel] unfolding new_channel_def by blast
  show ?thesis
    using assms(2) L1(1) L2(1) L3(1) L4 by (auto simp: create_channel_def store_resmgr_def channel_ok_def)
qed

lemma create_channels_append:
  assumes "dl_rel Map.empty L xs" and "\<forall>e \<in> set es. channel_ok e" and "length es = length cs"
    and "distinct (map (the \<circ> ch_block) es)" and "\<forall>e \<in> set es. the (ch_block e) \<notin> fst ` set xs"
  shows "\<exists>L'. create_channels ds drv ext nm cs es L = Some (True, length cs, L') \<and>
    dl_rel Map.empty L' (xs @ map (\<lambda>(c, e). (the (ch_block e), new_channel ds drv ext (nm c) (fst c) e)) (zip cs es))"
  using assms
proof (induction cs arbitrary: es L xs)
  case (Cons c cs)
  obtain e es' where es: "es = e # es'" using Cons.prems(3) by (cases es) auto
  let ?a = "the (ch_block e)" and ?r = "new_channel ds drv ext (nm c) (fst c) e"
  obtain L1 where L1: "create_channel ds drv ext (nm c) (fst c) e L = Some (True, L1)"
    "dl_rel Map.empty L1 (xs @ [(?a, ?r)])"
    using create_channel_appends [OF Cons.prems(1), of e ds drv ext "nm c" "fst c"] Cons.prems(2,5) es by auto
  have "\<forall>e \<in> set es'. the (ch_block e) \<notin> fst ` set (xs @ [(?a, ?r)])"
    using Cons.prems(4,5) es by (auto simp: image_iff)
  then show ?case
    using Cons.IH [OF L1(2), of es'] Cons.prems(2-4) L1(1) es by auto
qed simp

text \<open>
  C29: A registration whose calls succeed appends the channels of the device to the list of
  resource managers and leaves the ones that were there alone. There are as many receive and
  transmit channels as the options ask for, in this order, each with its own name, type and
  the new session; all names differ, and the interface is up.
\<close>

theorem register_creates_channels:
  assumes "dl_rel Map.empty (rg_list s) xs" and "0 \<le> rg_next s"
    and "bitrate_setup conv o1 (rg_next s) (clock_freq (rg_dev s)) = Setup user"
    and "can_changelink (silent_setup o1 user) (rg_dev s) = Some (EOK, d1)"
    and "sja1000_open r_irq d1 = Some (EOK, d2)"
    and "create_device_session ec t v 15 senv (rg_sessions s) = Some (Some ds, ss)"
    and "p = channel_counts o1 (rg_next s)" and "channel_plan p \<noteq> []"
    and "length es = length (channel_plan p)" and "\<forall>e \<in> set es. channel_ok e"
    and "distinct (map (the \<circ> ch_block) es)" and "\<forall>e \<in> set es. the (ch_block e) \<notin> fst ` set xs"
    and "\<forall>c \<in> set (channel_plan p). length (full_name (nat (rg_next s)) c) < msz"
  shows "\<exists>s' ys. register_netdev ec t conv msz o1 (Some drv) v r_irq senv es s = Some (True, s') \<and>
    dl_rel Map.empty (rg_list s') (xs @ ys) \<and> map fst ys = map (the \<circ> ch_block) es \<and>
    map (\<lambda>y. (rm_name (snd y), rm_channel_type (snd y), rm_device_session (snd y), rm_is_extended_mid (snd y))) ys =
      map (\<lambda>c. (full_name (nat (rg_next s)) c, fst c, Some ds, snd (snd p))) (channel_plan p) \<and>
    distinct (map (rm_name \<circ> snd) ys) \<and> rg_next s' = rg_next s + 1 \<and> rg_sessions s' = ss \<and>
    has_flag (dev_flags (rg_dev s')) IFF_UP"
proof -
  let ?nm = "channel_name msz (nat (rg_next s))" and ?cs = "channel_plan p" and ?ext = "snd (snd p)"
  let ?ys = "map (\<lambda>(c, e). (the (ch_block e), new_channel (Some ds) drv ?ext (?nm c) (fst c) e)) (zip ?cs es)"
  obtain L where L: "create_channels (Some ds) drv ?ext ?nm ?cs es (rg_list s) = Some (True, length ?cs, L)"
    "dl_rel Map.empty L (xs @ ?ys)"
    using create_channels_append [OF assms(1,10,9,11,12), of "Some ds" drv ?ext ?nm] by blast
  let ?s = "s\<lparr>rg_next := rg_next s + 1, rg_list := L, rg_sessions := ss, rg_dev_session := Some ds,
    rg_dev := d2\<lparr>dev_flags := dev_flags d2 OR IFF_UP\<rparr>\<rparr>"
  have "register_netdev ec t conv msz o1 (Some drv) v r_irq senv es s = Some (True, ?s)"
    using assms(3-8) L(1) by (simp add: register_netdev_def Let_def)
  moreover have "map fst ?ys = map (the \<circ> ch_block) es"
    by (rule nth_equalityI) (use assms(9) in auto)
  moreover have "map (\<lambda>y. (rm_name (snd y), rm_channel_type (snd y), rm_device_session (snd y),
      rm_is_extended_mid (snd y))) ?ys = map (\<lambda>c. (full_name (nat (rg_next s)) c, fst c, Some ds, ?ext)) ?cs"
    by (rule nth_equalityI)
       (use assms(9,13) channel_name_full in \<open>auto simp: new_channel_def reset_channel_def name_channel_def init_channel_def\<close>)
  moreover have "map (rm_name \<circ> snd) ?ys = map ?nm ?cs"
    by (rule nth_equalityI)
       (use assms(9) in \<open>auto simp: new_channel_def reset_channel_def name_channel_def\<close>)
  then have "distinct (map (rm_name \<circ> snd) ?ys)"
    using channel_names_distinct [OF assms(13)] by (simp only:)
  moreover have "has_flag (dev_flags (rg_dev ?s)) IFF_UP"
    using has_flag_or [of IFF_UP IFF_UP "dev_flags d2"] by (simp add: or.commute IFF_UP_def)
  ultimately show ?thesis using L(2) by (intro exI [of _ ?s] exI [of _ ?ys]) simp
qed

section \<open>The retries of blocked clients\<close>

text \<open>A round of the thread while a client waits and the queue has a message.\<close>

definition rx_ready_state :: "addr \<Rightarrow> int \<Rightarrow> rx_thread \<Rightarrow> bool" where
  "rx_ready_state a r st \<longleftrightarrow>
     th_pc st = Rx_wait \<and> \<not> th_shutdown st \<and> rx_open (th_ocb st) \<and>
     dl_root (blocked_clients (th_ocb st)) = Some a \<and>
     cell_item a (blocked_clients (th_ocb st)) = Some r \<and> r \<noteq> -1 \<and>
     queue_wf (th_queue st) \<and> session_up (th_queue st) \<and> attr_size (th_queue st) \<noteq> 0 \<and>
     contents (th_queue st) \<noteq> []"

lemma peek_enter_head:
  assumes "queue_wf q" and "session_up q" and "attr_size q \<noteq> 0" and "contents q = m # ms"
  shows "dequeue_peek_enter q = (Finished (Msg m), q\<lparr>dequeue_waiting := False\<rparr>)"
proof -
  have ne: "q_begin q \<noteq> q_end q" using contents_Nil_iff [OF assms(1)] assms(4) by simp
  moreover have "read_head q = Msg m"
    using peek_head [OF assms(1-3)] assms(2-4) ne by (simp add: dequeue_peek_noblock_def)
  ultimately show ?thesis
    using assms(2,3)
    by (auto simp: dequeue_peek_enter_def dequeue_peek_check_def Let_def read_head_def split: if_splits)
qed

lemma rx_round:
  assumes "rx_ready_state a r st"
    and "again r (th_ocb st, (th_queue st)\<lparr>dequeue_waiting := False\<rparr>) = Some (ocb', q')"
  shows "rx_steps again 4 st = Some (st\<lparr>th_ocb := ocb', th_queue := q'\<rparr>)"
proof -
  let ?q = "(th_queue st)\<lparr>dequeue_waiting := False\<rparr>"
  let ?st = "\<lambda>pc. st\<lparr>th_pc := pc, th_queue := ?q\<rparr>"
  obtain m ms where c: "contents (th_queue st) = m # ms"
    using assms(1) by (auto simp: rx_ready_state_def neq_Nil_conv)
  have peek: "dequeue_peek_enter (th_queue st) = (Finished (Msg m), ?q)"
    using peek_enter_head [OF _ _ _ c] assms(1) by (simp add: rx_ready_state_def)
  have "rx_step again st = Some (st\<lparr>th_pc := Rx_peek\<rparr>)"
    "rx_step again (st\<lparr>th_pc := Rx_peek\<rparr>) = Some (?st Rx_fetch)"
    "rx_step again (?st Rx_fetch) = Some (?st (Rx_send r))"
    "rx_step again (?st (Rx_send r)) = Some (st\<lparr>th_pc := Rx_wait, th_ocb := ocb', th_queue := q'\<rparr>)"
    using assms peek by (simp_all add: rx_step_def rx_ready_state_def rx_peeked_def msg_again_callback_def)
  moreover have "st\<lparr>th_pc := Rx_wait\<rparr> = st" using assms(1) by (simp add: rx_ready_state_def)
  ultimately show ?thesis
    by (simp add: eval_nat_numeral)
qed

text \<open>
  A blocked client whose request cannot be repeated any more, because it was interrupted
  and is gone, stays first in the list and stops the thread from serving anybody else: with a
  message in the queue the thread goes round and round without any change of its state.
\<close>

lemma gone_client_blocks_others:
  assumes "rx_ready_state a r st" and "\<not> dequeue_waiting (th_queue st)" and "\<forall>x. again r x = Some x"
  shows "rx_steps again (4 * k) st = Some st"
proof (induction k)
  case (Suc k)
  have "rx_steps again (i + j) s = Option.bind (rx_steps again i s) (rx_steps again j)" for i j s
    by (induction i arbitrary: s) (auto split: Option.bind_splits)
  from this [of 4 "4 * k"] show ?case
    using rx_round [OF assms(1), of again "th_ocb st" "th_queue st"] assms(2,3) Suc by simp
qed simp

text \<open>A message that arrives extends the stream.\<close>

lemma offset_in_concat:
  assumes "offset_in off ms" and "\<forall>m \<in> set ms. msg_ok m"
  shows "off \<le> length (concat (map payload ms))"
  using assms by (cases ms) (auto simp: payload_def msg_ok_def)

lemma offset_in_snoc: "offset_in off ms \<Longrightarrow> offset_in off (ms @ [m])"
  by (cases ms) simp_all

lemma reader_inv_waiting [simp]:
  "reader_inv ocb (q\<lparr>dequeue_waiting := w\<rparr>) = reader_inv ocb q"
  "pending ocb (q\<lparr>dequeue_waiting := w\<rparr>) = pending ocb q"
  by (simp_all add: reader_inv_def pending_def)

lemma enqueue_extends_stream:
  assumes "reader_inv ocb q" and "msg_ok m" and "length (contents q) < attr_size q - 1"
  defines "q2 \<equiv> snd (snd (enqueue_at q m))"
  shows "reader_inv ocb q2 \<and> contents q2 = contents q @ [m] \<and> pending ocb q2 = pending ocb q @ payload m"
proof -
  have q: "queue_wf q" "session_up q" "attr_size q \<noteq> 0" "offset_in (rx_offset ocb) (contents q)"
    "\<forall>m \<in> set (contents q). msg_ok m"
    using assms(1) by (simp_all add: reader_inv_def)
  have c: "contents q2 = contents q @ [m]"
    unfolding q2_def using contents_enqueue_at [OF q(1-3)] enqueue_spec_room [OF q(1) assms(3)] by simp
  moreover have "pending ocb q2 = pending ocb q @ payload m"
    using offset_in_concat [OF q(4,5)] by (simp add: pending_def c)
  moreover have "queue_wf q2" "session_up q2" "attr_size q2 = attr_size q"
    using queue_wf_enqueue_at [OF q(1)] q(2) by (simp_all add: q2_def frame_rules)
  ultimately show ?thesis
    using assms(1,2) offset_in_snoc [OF q(4)] q(3) by (simp add: reader_inv_def)
qed

text \<open>
  C28: A read that finds too little is completed by the message that brings the rest. The first
  call of the handler sends no reply and lists the client; once a message with enough data is in
  the queue, one round of the thread of the open context repeats the request, which is answered
  with the first bytes of the stream, the old ones and then those of the message, and the client
  is listed no more.
\<close>

theorem blocked_read_completed:
  assumes ready: "read_ready Map.empty [] a mem n rm ocb q" and up: "rx_open ocb" and r: "r \<noteq> -1"
    and short: "length (pending ocb q) < n" and m: "msg_ok m"
    and enough: "n \<le> length (pending ocb q) + length (payload m)"
    and again: "again = (\<lambda>i (o1, q1). map_option snd (io_read EOK True n i mem (Some b) rm o1 q1))"
    and b: "b \<noteq> a"
  shows "\<exists>ocb1 q1 ocb2 q2. io_read EOK True n r mem (Some a) rm ocb q = Some (No_reply, ocb1, q1) \<and>
    io_read EOK True n r mem (Some b) rm ocb1 ((snd (snd (enqueue_at q1 m)))\<lparr>dequeue_waiting := False\<rparr>) =
      Some (Reply (take n (pending ocb q @ payload m)), ocb2, q2) \<and>
    rx_steps again 4 \<lparr>th_pc = Rx_wait, th_shutdown = False, th_ocb = ocb1,
        th_queue = snd (snd (enqueue_at q1 m))\<rparr> =
      Some \<lparr>th_pc = Rx_wait, th_shutdown = False, th_ocb = ocb2, th_queue = q2\<rparr> \<and>
    pending ocb2 q2 = drop n (pending ocb q @ payload m) \<and>
    dl_rel Map.empty (blocked_clients ocb2) []"
proof -
  obtain ocb1 q1 where f: "io_read EOK True n r mem (Some a) rm ocb q = Some (No_reply, ocb1, q1)"
    "reader_inv ocb1 q1" "contents q1 = []" "pending ocb1 q1 = pending ocb q" "rx_nbytes ocb1 \<le> n"
    "n \<le> read_size ocb1" "rx_open ocb1 = rx_open ocb" "dl_rel Map.empty (blocked_clients ocb1) [(a, r)]"
    using io_read_blocks [OF ready short, of r] by auto
  let ?q2 = "snd (snd (enqueue_at q1 m))" and ?q = "(snd (snd (enqueue_at q1 m)))\<lparr>dequeue_waiting := False\<rparr>"
  have "0 < attr_size q1 - 1" using f(2) by (auto simp: reader_inv_def queue_wf_def split: if_splits)
  then have e: "reader_inv ocb1 ?q2" "contents ?q2 = [m]" "pending ocb1 ?q2 = pending ocb q @ payload m"
    using enqueue_extends_stream [OF f(2) m] f(3,4) by simp_all
  have e2: "reader_inv ocb1 ?q" "pending ocb1 ?q = pending ocb q @ payload m"
    using e by simp_all
  have cells: "dl_cells (blocked_clients ocb1) b = None" "dl_root (blocked_clients ocb1) = Some a"
    "cell_item a (blocked_clients ocb1) = Some r"
    using f(8) b by (auto simp: dl_rel_def apart_def cell_item_def)
  have "read_ready Map.empty [(a, r)] b mem n rm ocb1 ?q"
    using ready e2(1) f(5,6,8) cells(1) by (simp add: read_ready_def)
  from io_read_replies [OF this, of r] e2 enough
  obtain ocb2 q3 where g: "io_read EOK True n r mem (Some b) rm ocb1 ?q =
      Some (Reply (take n (pending ocb q @ payload m)), ocb2, q3)"
    "pending ocb2 q3 = drop n (pending ocb q @ payload m)" "dl_rel Map.empty (blocked_clients ocb2) []"
    by auto
  let ?st = "\<lparr>th_pc = Rx_wait, th_shutdown = False, th_ocb = ocb1, th_queue = ?q2\<rparr>"
  have "rx_ready_state a r ?st"
    using cells(2,3) r up f(7) e by (simp add: rx_ready_state_def reader_inv_def)
  moreover have "again r (ocb1, ?q) = Some (ocb2, q3)" using g(1) by (simp add: again)
  ultimately have "rx_steps again 4 ?st = Some (?st\<lparr>th_ocb := ocb2, th_queue := q3\<rparr>)"
    using rx_round [of a r ?st again ocb2 q3] by simp
  then show ?thesis using f(1) g by auto
qed

theorem blocked_read_completed_witness:
  "\<exists>again ocb1 q1 ocb2 q2.
    io_read EOK True 20 7 (\<lambda>k. Some (replicate k 0)) (Some 5) rx_chan rx_ocb rx_queue2 = Some (No_reply, ocb1, q1) \<and>
    rx_steps again 4 \<lparr>th_pc = Rx_wait, th_shutdown = False, th_ocb = ocb1,
        th_queue = snd (snd (enqueue_at q1 (data_msg [17,18,19,20,21,22,23,24])))\<rparr> =
      Some \<lparr>th_pc = Rx_wait, th_shutdown = False, th_ocb = ocb2, th_queue = q2\<rparr> \<and>
    pending ocb2 q2 = [21,22,23,24]"
proof -
  let ?m = "data_msg [17,18,19,20,21,22,23,24]"
  have "rx_open rx_ocb" "msg_ok ?m" "payload ?m = [17,18,19,20,21,22,23,24]"
    by (simp_all add: rx_ocb_def data_msg_def msg_ok_def payload_def)
  then show ?thesis
    using blocked_read_completed [OF rx_ready [of 20], of 7 ?m _ 6] rx_pending by fastforce
qed

section \<open>Opening and closing\<close>

lemma error_clients_lseg: "lseg h p r xs q None \<Longrightarrow> error_clients h r = Some (map snd xs)"
proof (induction xs arbitrary: p r)
  case Nil
  then show ?case by (subst error_clients.simps) simp
next
  case (Cons y xs)
  then show ?case by (cases y) (subst error_clients.simps, force)
qed

text \<open>Whoever is still blocked when a context is freed is answered, each client once.\<close>

lemma can_ocb_free_answers:
  assumes "dl_rel g (blocked_clients ocb) xs" and "destroy_client_session ec t (ocb_session ocb) s = Some s1"
    and "cell_item (ocb_resmgr ocb) L = Some r" and "rm_channel_type r = RX_CHANNEL"
  shows "can_ocb_free ec t L ocb s = Some (map snd xs, \<lparr>dl_root = None, dl_cells = g\<rparr>, s1)"
proof -
  have "error_clients (dl_cells (blocked_clients ocb)) (dl_root (blocked_clients ocb)) = Some (map snd xs)"
    using assms(1) error_clients_lseg by (auto simp: dl_rel_def)
  then show ?thesis
    using assms free_all_rel [OF assms(1)] by (simp add: can_ocb_free_def free_all_blocked_clients_def)
qed

text \<open>
  C30: Opening a receive channel and closing it again leaves the sessions as they were: the
  client session that opening appends to those of the device is the one that closing removes,
  the other clients keep their place, no client is left blocked, and the mutex of the sessions
  is free.
\<close>

theorem open_close_restores_sessions:
  assumes inv: "sess_inv s devs cl" and free: "create_mutex s = None"
    and list: "dl_rel Map.empty L xs" and chan: "List.find (\<lambda>y. rm_id (snd y) = i) xs = Some (a, r)"
    and rx: "rm_channel_type r = RX_CHANNEL" and own: "rm_device_session r = Some d"
    and dev: "(d, ds) \<in> set devs" "List.find (\<lambda>y. ds_device (snd y) = ds_device ds) devs = Some (d, ds)"
    and block: "e_block env = Some b" "client_store s b = None"
    and queue: "env_queue env 1024 = (EOK, q)"
  shows "\<exists>ocb s1 s2 devs2. can_ocb_calloc ec t i True (Some buf) EOK EOK env L s = Some (Some ocb, s1) \<and>
    ocb_session ocb = Some b \<and> can_ocb_free ec t L ocb s1 = Some ([], dl_empty, s2) \<and>
    sess_inv s2 devs2 cl \<and> create_mutex s2 = None \<and>
    map (\<lambda>(b, x). (b, ds_device x)) devs2 = map (\<lambda>(b, x). (b, ds_device x)) devs"
proof -
  let ?c = "\<lparr>cs_device_session = d, cs_mid = a, cs_mfilter = a, cs_prio = a, cs_rx_queue = q\<lparr>dropped_packet := True\<rparr>\<rparr>"
  define cl1 where "cl1 = cl(d := cl d @ [(b, ?c)])"
  obtain s1 devs1 where c: "create_client_session ec t (Some (ds_device ds)) 1024 a a a env s = Some (Some b, s1)"
    "sess_inv s1 devs1 cl1" "create_mutex s1 = None"
    "map (\<lambda>(b, x). (b, ds_device x)) devs1 = map (\<lambda>(b, x). (b, ds_device x)) devs"
    using client_session_created [OF inv free dev(2) block queue, of ec t a a a] unfolding cl1_def by blast
  have idle: "\<not> dequeue_waiting (cs_rx_queue ?c)"
    using queue by (auto simp: env_queue_def create_queue_at_def Let_def split: if_splits)
  have mem: "(b, ?c) \<in> set (cl1 d)" by (simp add: cl1_def)
  obtain s2 devs2 where f: "destroy_client_session ec t (Some b) s1 = Some s2"
    "sess_inv s2 devs2 (cl1(d := filter (\<lambda>y. fst y \<noteq> b) (cl1 d)))"
    "map (\<lambda>(b, x). (b, ds_device x)) devs2 = map (\<lambda>(b, x). (b, ds_device x)) devs1" "create_mutex s2 = None"
    using client_session_destroyed [OF c(2,3) mem idle, of ec t] by blast
  have "b \<notin> fst ` set (cl d)" using sess_invD(5) [OF inv] block(2) by (metis UN_I UNIV_I domIff)
  then have "filter (\<lambda>y. fst y \<noteq> b) (cl d) = cl d" by (intro filter_True) force
  then have "sess_inv s2 devs2 cl" using f(2) by (simp add: cl1_def fun_upd_idem)
  moreover have a: "cell_item a L = Some r"
    using dl_rel_item [OF list] chan by (metis find_Some_iff nth_mem)
  let ?ocb = "\<lparr>ocb_resmgr = a, ocb_session = Some b, rx_open = True, blocked_clients = dl_empty,
    read_buffer = Some buf, read_size = 4096, rx_nbytes = 0, rx_offset = 0\<rparr>"
  have "can_ocb_calloc ec t i True (Some buf) EOK EOK env L s = Some (Some ?ocb, s1)"
    using find_first_rel [OF list, of "\<lambda>r. rm_id r = i"] chan a own rx c(1)
      dl_rel_item [OF sess_invD(1) [OF inv] dev(1)]
    by (simp add: can_ocb_calloc_def get_resmgr_def owner_session_def)
  moreover have "can_ocb_free ec t L ?ocb s1 = Some ([], dl_empty, s2)"
    using can_ocb_free_answers [of Map.empty ?ocb "[]" ec t s1 s2 L r] f(1) a rx
    by (simp add: dl_empty_def dl_rel_def apart_def)
  ultimately show ?thesis using f(3,4) c(4) by (intro exI [of _ ?ocb] exI [of _ s1] exI [of _ s2] exI [of _ devs2]) simp
qed

definition sample_channel :: "int \<Rightarrow> can_resmgr" where
  "sample_channel i = rx_chan\<lparr>rm_device_session := Some 10, rm_id := i\<rparr>"

definition two_channels :: "can_resmgr dlist" where
  "two_channels = \<lparr>dl_root = Some 60,
     dl_cells = [60 \<mapsto> \<lparr>c_prev = None, c_next = Some 61, c_item = sample_channel 1\<rparr>,
       61 \<mapsto> \<lparr>c_prev = Some 60, c_next = None, c_item = sample_channel 2\<rparr>]\<rparr>"

lemma two_channels_rel: "dl_rel Map.empty two_channels [(60, sample_channel 1), (61, sample_channel 2)]"
  by (auto simp: dl_rel_def two_channels_def apart_def)

definition queue_env :: session_env where
  "queue_env = sample_env\<lparr>e_mem := Some (replicate 1024 blank_msg)\<rparr>"

lemma queue_env_ok: "n \<noteq> 0 \<Longrightarrow> \<exists>q. env_queue queue_env n = (EOK, q)"
  by (simp add: env_queue_def queue_env_def sample_env_def create_queue_at_def)

theorem open_close_restores_sessions_witness:
  "\<exists>ocb s1 s2. can_ocb_calloc True 1 2 True (Some []) EOK EOK queue_env two_channels sample_sessions =
      Some (Some ocb, s1) \<and>
    can_ocb_free True 1 two_channels ocb s1 = Some ([], dl_empty, s2) \<and> create_mutex s2 = None"
proof -
  obtain q where q: "env_queue queue_env 1024 = (EOK, q)" using queue_env_ok [of 1024] by auto
  have c: "List.find (\<lambda>y. rm_id (snd y) = 2) [(60, sample_channel 1), (61, sample_channel 2)] = Some (61, sample_channel 2)"
    "rm_channel_type (sample_channel 2) = RX_CHANNEL" "rm_device_session (sample_channel 2) = Some 10"
    by (simp_all add: sample_channel_def rx_chan_def)
  have d: "(10, sample_device) \<in> set [(10, sample_device)]"
    "List.find (\<lambda>y. ds_device (snd y) = ds_device sample_device) [(10, sample_device)] = Some (10, sample_device)"
    "e_block queue_env = Some 21" "client_store sample_sessions 21 = None" "create_mutex sample_sessions = None"
    by (simp_all add: queue_env_def sample_env_def sample_sessions_def)
  from open_close_restores_sessions [OF sample_inv d(5) two_channels_rel c d(1-4) q]
  show ?thesis by blast
qed

definition stuck_thread :: rx_thread where
  "stuck_thread = \<lparr>th_pc = Rx_wait, th_shutdown = False, th_ocb = rx_ocb\<lparr>blocked_clients :=
       \<lparr>dl_root = Some 5, dl_cells = [5 \<mapsto> \<lparr>c_prev = None, c_next = Some 6, c_item = 7\<rparr>,
          6 \<mapsto> \<lparr>c_prev = Some 5, c_next = None, c_item = 8\<rparr>]\<rparr>\<rparr>,
     th_queue = rx_queue2\<rparr>"

lemma gone_client_blocks_others_witness:
  "rx_steps (\<lambda>_ x. Some x) (4 * 1000) stuck_thread = Some stuck_thread"
proof -
  have "rx_ready_state 5 7 stuck_thread"
    using rx_ready [of 0] rx_queue2_contents
    by (simp add: rx_ready_state_def stuck_thread_def read_ready_def reader_inv_def cell_item_def)
       (simp add: rx_ocb_def)
  moreover have "\<not> dequeue_waiting (th_queue stuck_thread)"
    by (simp add: stuck_thread_def rx_queue2_def fresh_queue_def create_queue_at_def blank_queue_def)
  ultimately show ?thesis by (rule gone_client_blocks_others) simp
qed

section \<open>Removal of a device\<close>

lemma sja1000_close_returns:
  assumes "owns blocks held d"
  shows "\<exists>d'. sja1000_close d = Some d'"
proof -
  let ?d = "(set_reset_mode (netif_stop_queue d))\<lparr>restart_pending := None\<rparr>"
  have "owns blocks held ?d"
    using assms owns_chip_only [OF chip_only_set_reset_mode, of blocks held "netif_stop_queue d"] by simp
  from owns_flush_echo [OF this] show ?thesis
    unfolding sja1000_close_def close_candev_def by blast
qed

lemma owns_dev_flags [simp]: "owns blocks held (d\<lparr>dev_flags := f\<rparr>) = owns blocks held d"
  by (simp add: owns_def echo_blocks_def)

text \<open>
  \<^verbatim>\<open>unregister_netdev\<close> destroys the session of the device but removes only the first of its
  channels: the others stay in the list with a pointer to the freed session. A client that
  opens one of them, and the removal of any other device, then use freed memory.
\<close>

lemma unregister_leaves_dangling:
  assumes list: "dl_rel Map.empty (rg_list s) ((a1, r1) # (a2, r2) # xs)"
    and own: "rm_device_session r1 = Some d" "rm_device_session r2 = Some d"
    and inv: "sess_inv (rg_sessions s) devs cl" and free: "create_mutex (rg_sessions s) = None"
    and dev: "(d, ds) \<in> set devs" "ds_device ds = v" and idle: "\<not> dequeue_waiting (ds_tx_queue ds)"
    and pool: "owns blocks held (rg_dev s)"
  shows "\<exists>s'. unregister_netdev ec t v s = Some s' \<and> dl_rel Map.empty (rg_list s') ((a2, r2) # xs) \<and>
    cell_item d (device_list (rg_sessions s')) = None \<and>
    can_ocb_calloc ec' t' (rm_id r2) True buf e_m e_c env (rg_list s') (rg_sessions s') = None \<and>
    find_owner (rg_sessions s') w (rg_list s') = None"
proof -
  obtain dv where close: "sja1000_close ((rg_dev s)\<lparr>dev_flags := dev_flags (rg_dev s) AND NOT IFF_UP\<rparr>) = Some dv"
    using sja1000_close_returns pool owns_dev_flags by blast
  have ds: "cell_item d (device_list (rg_sessions s)) = Some ds"
    by (rule dl_rel_item [OF sess_invD(1) [OF inv] dev(1)])
  have r1: "cell_item a1 (rg_list s) = Some r1" by (rule dl_rel_item [OF list]) simp
  have ne: "a1 \<noteq> a2" and others: "filter (\<lambda>y. fst y \<noteq> a1) ((a1, r1) # (a2, r2) # xs) = (a2, r2) # xs"
    using list by (auto simp: dl_rel_def intro!: filter_True)
  obtain L where L: "delete_cell a1 (rg_list s) = Some L" "dl_rel Map.empty L ((a2, r2) # xs)"
    using delete_cell_rel [OF list, of a1] others by auto
  have dmem: "d \<in> fst ` set devs" using dev(1) by force
  obtain D where D: "delete_cell d (device_list (rg_sessions s)) = Some D"
    "dl_rel Map.empty D (filter (\<lambda>y. fst y \<noteq> d) devs)"
    using delete_cell_rel [OF sess_invD(1) [OF inv] dmem] by blast
  then obtain D1 where D1: "unlink_cell d (device_list (rg_sessions s)) = Some D1" "D = free_cell d D1"
    by (auto simp: delete_cell_def bind_eq_Some_conv)
  let ?ss = "(rg_sessions s)\<lparr>create_mutex := Some t, device_list := D\<rparr>"
  let ?s = "s\<lparr>rg_dev := dv, rg_sessions := ?ss, rg_list := L\<rparr>"
  have "destroy_device_session ec t (Some d) (rg_sessions s) = Some ?ss"
    using free ds D1 idle
    by (simp add: destroy_device_session_def session_lock_def destroy_queue_def destroy_queue_finish_def
        queue_shutdown_signal_def)
  moreover have "find_owner (rg_sessions s) v (rg_list s) = Some (Some a1)"
    using find_first_rel [OF list] r1 own(1) ds dev(2) by (simp add: find_owner_def owner_session_def)
  ultimately have "unregister_netdev ec t v s = Some ?s"
    using close r1 own(1) L(1) by (simp add: unregister_netdev_def Let_def)
  moreover have gone: "cell_item d D = None" by (simp add: D1(2) free_cell_def cell_item_def)
  moreover have r2: "cell_item a2 L = Some r2" by (rule dl_rel_item [OF L(2)]) simp
  then have "can_ocb_calloc ec' t' (rm_id r2) True buf e_m e_c env L ?ss = None"
    using find_first_rel [OF L(2)] gone own(2)
    by (simp add: can_ocb_calloc_def get_resmgr_def owner_session_def)
  moreover have "find_owner ?ss w L = None"
    using find_first_rel [OF L(2)] gone own(2) r2 by (simp add: find_owner_def owner_session_def)
  ultimately show ?thesis using L(2) by (intro exI [of _ ?s]) simp
qed

definition vcan_reg :: "(nat \<Rightarrow> u8) reg_state" where
  "vcan_reg = \<lparr>rg_list = two_channels, rg_sessions = sample_sessions, rg_next = 1, rg_dev = vcan_dev,
     rg_dev_session = Some 10\<rparr>"

lemma unregister_leaves_dangling_witness:
  "\<exists>s'. unregister_netdev True 1 1 vcan_reg = Some s' \<and>
    can_ocb_calloc True 2 2 True None EOK EOK sample_env (rg_list s') (rg_sessions s') = None"
proof -
  have r: "rg_list vcan_reg = two_channels" "rg_sessions vcan_reg = sample_sessions" "rg_dev vcan_reg = vcan_dev"
    by (simp_all add: vcan_reg_def)
  have "rm_device_session (sample_channel k) = Some 10" for k by (simp add: sample_channel_def)
  moreover have "ds_device sample_device = 1" "\<not> dequeue_waiting (ds_tx_queue sample_device)"
    "create_mutex sample_sessions = None" "rm_id (sample_channel 2) = 2"
    by (simp_all add: sample_device_def idle_queue_def sample_sessions_def sample_channel_def)
  ultimately show ?thesis
    using unregister_leaves_dangling [of vcan_reg 60 "sample_channel 1" 61 "sample_channel 2" "[]" 10
        "[(10, sample_device)]" sample_clients sample_device 1 "{..<256}" "{}" True 1 True 2 None EOK EOK sample_env 3]
      two_channels_rel sample_inv vcan_dev_owns r by auto
qed

definition channel_envs :: "channel_env list" where
  "channel_envs = map (\<lambda>a. \<lparr>ch_block = Some a, ch_junk = rx_chan, ch_dispatch = True, ch_attach = int a,
     ch_message = True, ch_pool = True\<rparr>) [70, 71]"

lemma vcan_changelink:
  "\<exists>d1 d2. can_changelink (silent_setup (initial_options 0 0 0) (default_setup (initial_options 0 0 0))) vcan_dev =
      Some (EOK, d1) \<and> sja1000_open EOK d1 = Some (EOK, d2)"
proof -
  have "can_get_bittiming 8000000 (bitrate_request 250000) (Some sja1000_bittiming_const) None =
      Some (Ret (EOK, timing_250k))"
    using calc_250k by (simp add: can_get_bittiming_def bitrate_request_def)
  then obtain d1 where d1: "can_changelink (silent_setup (initial_options 0 0 0) (default_setup (initial_options 0 0 0)))
      vcan_dev = Some (EOK, d1)" "bittiming d1 = timing_250k" "ctrlmode d1 = 0"
    by (simp add: can_changelink_def and_then_def link_bittiming_def link_ctrlmode_def
        link_restart_ms_def link_restart_def link_data_bittiming_def link_btr_def silent_setup_def
        link_termination_def no_setup_def vcan_dev_def flag_defs rate_exceeds_def Let_def
        default_setup_def initial_options_def DEFAULT_RESTART_MS_def sja1000_set_bittiming_def
        sja1000_set_btr_def wr_def)
  obtain h st where "set_reset_mode d1 = d1\<lparr>hw := h, can_state := st\<rparr>"
    using chip_only_set_reset_mode [of d1] by (auto simp: chip_only_def)
  then have "\<exists>d2. sja1000_open EOK d1 = Some (EOK, d2)"
    using d1(2,3) by (simp add: sja1000_open_def open_candev_def timing_250k_def Let_def)
  then show ?thesis using d1(1) by blast
qed

lemma dec_0_1: "dec 0 = ''0''" "dec (Suc 0) = ''1''"
  by code_simp+

lemma vcan_plan:
  "channel_counts (initial_options 0 0 0) 1 = (1, 1, False)"
  "channel_plan (1, 1, False) = [(RX_CHANNEL, 0), (TX_CHANNEL, 0)]"
  "full_name 1 (RX_CHANNEL, 0) = ''/dev/can1/rx0''" "full_name 1 (TX_CHANNEL, 0) = ''/dev/can1/tx0''"
  by (simp_all add: channel_counts_def table_entry_def initial_options_def channel_plan_def
      DEFAULT_NUM_RX_CHANNELS_def DEFAULT_NUM_TX_CHANNELS_def full_name_def dec_0_1)

theorem register_creates_channels_witness:
  "\<exists>s' ys. register_netdev True 1 0 64 (initial_options 0 0 0) (Some ''vcan'') 2 EOK
      (queue_env\<lparr>e_block := Some 11\<rparr>) channel_envs vcan_reg = Some (True, s') \<and>
    dl_rel Map.empty (rg_list s') ([(60, sample_channel 1), (61, sample_channel 2)] @ ys) \<and>
    map (\<lambda>y. rm_name (snd y)) ys = [''/dev/can1/rx0'', ''/dev/can1/tx0'']"
proof -
  let ?o = "initial_options 0 0 0" and ?env = "queue_env\<lparr>e_block := Some 11\<rparr>"
  have r: "rg_list vcan_reg = two_channels" "rg_sessions vcan_reg = sample_sessions"
    "rg_dev vcan_reg = vcan_dev" "rg_next vcan_reg = 1"
    by (simp_all add: vcan_reg_def)
  obtain d1 d2 where d: "can_changelink (silent_setup ?o (default_setup ?o)) vcan_dev = Some (EOK, d1)"
    "sja1000_open EOK d1 = Some (EOK, d2)"
    using vcan_changelink by blast
  have h1: "dl_rel Map.empty (rg_list vcan_reg) [(60, sample_channel 1), (61, sample_channel 2)]"
    "0 \<le> rg_next vcan_reg"
    using two_channels_rel r by simp_all
  have h2: "bitrate_setup 0 ?o (rg_next vcan_reg) (clock_freq (rg_dev vcan_reg)) = Setup (default_setup ?o)"
    by (simp add: bitrate_setup_def table_entry_def initial_options_def)
  have h3: "can_changelink (silent_setup ?o (default_setup ?o)) (rg_dev vcan_reg) = Some (EOK, d1)"
    using d(1) r by simp
  obtain q where "env_queue ?env 15 = (EOK, q)"
    by (simp add: env_queue_def queue_env_def sample_env_def create_queue_at_def)
  then obtain ss where h4: "create_device_session True 1 2 15 ?env (rg_sessions vcan_reg) = Some (Some 11, ss)"
    using create_device_session_appends [OF sample_inv, of ?env 11 15 q True 1 2] r(2)
    by (auto simp: sample_sessions_def queue_env_def sample_env_def)
  have h5: "(1, 1, False) = channel_counts ?o (rg_next vcan_reg)" "channel_plan (1, 1, False) \<noteq> []"
    "length channel_envs = length (channel_plan (1, 1, False))"
    using vcan_plan r(4) by (simp_all add: channel_envs_def)
  have h6: "\<forall>e \<in> set channel_envs. channel_ok e" "distinct (map (the \<circ> ch_block) channel_envs)"
    "\<forall>e \<in> set channel_envs. the (ch_block e) \<notin> fst ` set [(60, sample_channel 1), (61, sample_channel 2)]"
    "\<forall>c \<in> set (channel_plan (1, 1, False)). length (full_name (nat (rg_next vcan_reg)) c) < 64"
    using vcan_plan r(4) by (simp_all add: channel_envs_def channel_ok_def)
  obtain s' ys where s': "register_netdev True 1 0 64 ?o (Some ''vcan'') 2 EOK ?env channel_envs vcan_reg =
      Some (True, s')" "dl_rel Map.empty (rg_list s') ([(60, sample_channel 1), (61, sample_channel 2)] @ ys)"
    and ys: "map (\<lambda>y. (rm_name (snd y), rm_channel_type (snd y), rm_device_session (snd y), rm_is_extended_mid (snd y))) ys =
      map (\<lambda>c. (full_name (nat (rg_next vcan_reg)) c, fst c, Some 11, snd (snd (1::int, 1::int, False)))) (channel_plan (1, 1, False))"
    using register_creates_channels [OF h1 h2 h3 d(2) h4 h5 h6, of "''vcan''"] by blast
  have "map (\<lambda>y. rm_name (snd y)) ys = [''/dev/can1/rx0'', ''/dev/can1/tx0'']"
    using arg_cong [OF ys, of "map fst"] r(4) vcan_plan by (simp add: comp_def)
  then show ?thesis using s' by (intro exI [of _ s'] exI [of _ ys] conjI)
qed

end
