(* ===== verification/Timer.thy ===== *)
theory Timer
  imports Can_Dev
begin

text \<open>
  The restart timer, \<^verbatim>\<open>src/src/timer.c\<close>: a kernel timer that sends a pulse to a channel, and a
  thread that receives the pulses of the channel and runs the callback. The calls of the QNX
  kernel are modelled by their effect on the channel and on the timer; whether
  \<^verbatim>\<open>timer_settime\<close> accepts a setting is a parameter. A restart time below one second arms the
  timer for one pulse, a longer one is refused by the kernel and the restart never happens.
\<close>

section \<open>State\<close>

datatype pulse = Timer_trigger | Shutdown_timer | Other_pulse

text \<open>
  \<^verbatim>\<open>timer_record_t\<close> with what the kernel keeps for it: whether the channel and the timer exist,
  the nanoseconds until an armed timer runs out and the interval it is then armed with again,
  the pulses queued at the channel, and the thread. \<open>tm_fired\<close> counts the calls of the
  callback. \<^verbatim>\<open>struct itimerspec\<close> has its two times in seconds and nanoseconds.
\<close>

record itimerspec =
  it_value :: "int \<times> int"
  it_interval :: "int \<times> int"

record timer_record =
  tm_created :: bool
  tm_channel :: bool
  tm_timer :: bool
  tm_armed :: "(int \<times> int) option"
  tm_pulses :: "pulse list"
  tm_started :: bool
  tm_fired :: nat

definition HZ :: int where "HZ = 1000"

text \<open>The source computes with the floating point number \<open>1e9\<close>; the results used here are exact.\<close>

definition TIMER_INTERVAL_NS :: int where "TIMER_INTERVAL_NS = 1000000000 div HZ"

section \<open>Operations\<close>

text \<open>
  \<^verbatim>\<open>create\<close>; \<open>chan\<close> and \<open>tmr\<close> say whether \<^verbatim>\<open>ChannelCreate\<close> and \<^verbatim>\<open>timer_create\<close> succeed, a
  failure is only logged. The function waits until the new thread runs.
\<close>

definition timer_create :: "bool \<Rightarrow> bool \<Rightarrow> timer_record \<Rightarrow> timer_record" where
  "timer_create chan tmr t =
     (if tm_created t then t
      else t\<lparr>tm_channel := chan, tm_timer := tmr, tm_armed := None, tm_pulses := [], tm_started := True,
             tm_created := True\<rparr>)"

text \<open>
  \<^verbatim>\<open>destroy\<close> in two parts: the pulse that ends the thread, and the removal of the timer and the
  channel with what is queued there. The thread may or may not run in between.
\<close>

definition destroy_signal :: "timer_record \<Rightarrow> timer_record" where
  "destroy_signal t =
     (if tm_created t \<and> tm_channel t then t\<lparr>tm_pulses := tm_pulses t @ [Shutdown_timer]\<rparr> else t)"

definition destroy_finish :: "timer_record \<Rightarrow> timer_record" where
  "destroy_finish t =
     (if tm_created t
      then t\<lparr>tm_timer := False, tm_armed := None, tm_channel := False, tm_pulses := [], tm_created := False\<rparr>
      else t)"

definition setup_timer :: "bool \<Rightarrow> bool \<Rightarrow> timer_record \<Rightarrow> timer_record" where
  "setup_timer chan tmr t = timer_create chan tmr (t\<lparr>tm_created := False\<rparr>)"

text \<open>
  One round of \<^verbatim>\<open>timer_loop\<close>. Without a channel \<^verbatim>\<open>MsgReceive\<close> fails at once and the loop goes
  on.
\<close>

datatype loop_act = Loop_waits | Loop_fails | Loop_handles | Loop_ended

definition timer_loop :: "timer_record \<Rightarrow> loop_act \<times> timer_record" where
  "timer_loop t =
     (if \<not> tm_started t then (Loop_ended, t)
      else if \<not> tm_channel t then (Loop_fails, t)
      else case tm_pulses t of
             [] \<Rightarrow> (Loop_waits, t)
           | p # ps \<Rightarrow>
               (let t1 = t\<lparr>tm_pulses := ps\<rparr>
                in case p of
                     Timer_trigger \<Rightarrow> (Loop_handles, t1\<lparr>tm_fired := Suc (tm_fired t1)\<rparr>)
                   | Shutdown_timer \<Rightarrow> (Loop_ended, t1\<lparr>tm_started := False\<rparr>)
                   | Other_pulse \<Rightarrow> (Loop_handles, t1)))"

definition cancel_delayed_work_sync :: "timer_record option \<Rightarrow> timer_record option" where
  "cancel_delayed_work_sync t = map_option (destroy_finish \<circ> destroy_signal) t"

text \<open>
  \<open>settime\<close> is whether \<^verbatim>\<open>timer_settime\<close> accepts a setting. An accepted one replaces what the
  timer was armed with; the time zero disarms it.
\<close>

definition spec_ns :: "int \<times> int \<Rightarrow> int" where
  "spec_ns t = 1000000000 * fst t + snd t"

definition timer_settime :: "itimerspec \<Rightarrow> timer_record \<Rightarrow> timer_record" where
  "timer_settime i t =
     t\<lparr>tm_armed := (if spec_ns (it_value i) = 0 then None else Some (spec_ns (it_value i), spec_ns (it_interval i)))\<rparr>"

definition schedule_delayed_work ::
  "(itimerspec \<Rightarrow> bool) \<Rightarrow> bool \<Rightarrow> bool \<Rightarrow> int \<Rightarrow> timer_record option \<Rightarrow> timer_record option" where
  "schedule_delayed_work settime chan tmr ticks t =
     map_option (\<lambda>t0.
       let t1 = timer_create chan tmr t0;
           itime = \<lparr>it_value = (0, TIMER_INTERVAL_NS * ticks), it_interval = (0, 0)\<rparr>
       in (if tm_timer t1 \<and> settime itime then timer_settime itime t1 else t1)\<lparr>tm_created := True\<rparr>) t"

text \<open>
  The kernel while \<open>ns\<close> nanoseconds pass. A timer that runs out sends a pulse; with an interval
  it is armed again and sends one more for every interval that passes.
\<close>

definition timer_elapse :: "int \<Rightarrow> timer_record \<Rightarrow> timer_record" where
  "timer_elapse ns t =
     (case tm_armed t of
        None \<Rightarrow> t
      | Some (m, i) \<Rightarrow>
          if ns < m then t\<lparr>tm_armed := Some (m - ns, i)\<rparr>
          else let n = (if i = 0 then 1 else nat ((ns - m) div i) + 1)
               in t\<lparr>tm_armed := (if i = 0 then None else Some (i - (ns - m) mod i, i)),
                    tm_pulses := (if tm_channel t then tm_pulses t @ replicate n Timer_trigger else tm_pulses t)\<rparr>)"

text \<open>
  \<^verbatim>\<open>get_clock_time_us\<close> with its static variable; \<open>None\<close> is the division by zero on a machine
  whose counter runs at less than one megahertz.
\<close>

definition get_clock_time_us :: "u64 \<Rightarrow> u64 \<Rightarrow> u64 \<Rightarrow> (u64 \<times> u64) option" where
  "get_clock_time_us cycles_per_sec cycles st =
     (let st1 = (if st = 0 then of_nat (unat cycles_per_sec div 1000000) else st)
      in if st1 = 0 then None else Some (cycles div st1, st1))"

section \<open>Properties\<close>

definition new_timer :: timer_record where
  "new_timer = \<lparr>tm_created = False, tm_channel = False, tm_timer = False, tm_armed = None, tm_pulses = [],
     tm_started = False, tm_fired = 0\<rparr>"

text \<open>The timer of a device after \<^verbatim>\<open>can_bus_off\<close>: armed with the restart time the device asks for.\<close>

definition bus_off_timer :: "(itimerspec \<Rightarrow> bool) \<Rightarrow> 'h net_device \<Rightarrow> timer_record \<Rightarrow> timer_record" where
  "bus_off_timer settime d t =
     (case restart_pending (can_bus_off d) of
        None \<Rightarrow> t
      | Some n \<Rightarrow> the (schedule_delayed_work settime True True n (Some t)))"

text \<open>
  The thread runs until no pulse is left; \<open>timer_waits ws\<close> lets the times of the list pass
  one after the other, with the thread running after each.
\<close>

definition timer_run :: "timer_record \<Rightarrow> timer_record" where
  "timer_run t = ((\<lambda>u. snd (timer_loop u)) ^^ length (tm_pulses t)) t"

definition timer_waits :: "int list \<Rightarrow> timer_record \<Rightarrow> timer_record" where
  "timer_waits ws t = fold (\<lambda>w u. timer_run (timer_elapse w u)) ws t"

text \<open>A timer that is set up, with a running thread that has handled all pulses.\<close>

definition timer_ready :: "timer_record \<Rightarrow> bool" where
  "timer_ready t \<longleftrightarrow> tm_created t \<and> tm_channel t \<and> tm_timer t \<and> tm_started t \<and> tm_pulses t = []"

lemma timer_ready_armed [simp]: "timer_ready (t\<lparr>tm_armed := a\<rparr>) = timer_ready t"
  by (simp add: timer_ready_def)

lemma setup_timer_ready: "timer_ready (setup_timer True True t)"
  by (simp add: timer_ready_def setup_timer_def timer_create_def)

lemma waits_disarmed:
  assumes "timer_ready t" and "tm_armed t = None"
  shows "timer_waits ws t = t"
  using assms
  by (induction ws) (simp_all add: timer_waits_def timer_elapse_def timer_run_def timer_ready_def)

lemma one_pulse:
  assumes "timer_ready t" and "tm_armed t = Some (m, 0)"
  shows "timer_run (timer_elapse w t) =
    (if w < m then t\<lparr>tm_armed := Some (m - w, 0)\<rparr> else t\<lparr>tm_armed := None, tm_fired := Suc (tm_fired t)\<rparr>)"
  using assms by (simp add: timer_elapse_def timer_run_def timer_loop_def timer_ready_def Let_def)

lemma waits_one_shot:
  assumes "timer_ready t" and "tm_armed t = Some (m, 0)" and "\<forall>w \<in> set ws. 0 \<le> w" and "0 < m"
  shows "tm_fired (timer_waits ws t) = tm_fired t + (if sum_list ws < m then 0 else 1)"
  using assms
proof (induction ws arbitrary: t m)
  case (Cons w ws)
  have sum: "0 \<le> sum_list ws" using Cons.prems(3) by (intro sum_list_nonneg) simp
  have step: "timer_waits (w # ws) t = timer_waits ws (timer_run (timer_elapse w t))"
    by (simp add: timer_waits_def)
  show ?case
  proof (cases "w < m")
    case True
    then show ?thesis
      unfolding step one_pulse [OF Cons.prems(1,2)]
      using Cons.IH [of "t\<lparr>tm_armed := Some (m - w, 0)\<rparr>" "m - w"] Cons.prems by auto
  next
    case False
    have "timer_ready (t\<lparr>tm_armed := None, tm_fired := Suc (tm_fired t)\<rparr>)"
      using Cons.prems(1) by (simp add: timer_ready_def)
    from waits_disarmed [OF this] show ?thesis
      unfolding step one_pulse [OF Cons.prems(1,2)] using False sum by simp
  qed
qed (simp add: timer_waits_def)

text \<open>The documented condition: \<^verbatim>\<open>EINVAL\<close> when the nanoseconds are not below one second.\<close>

definition posix_settime :: "itimerspec \<Rightarrow> bool" where
  "posix_settime i \<longleftrightarrow> 0 \<le> snd (it_value i) \<and> snd (it_value i) < 1000000000 \<and>
     0 \<le> snd (it_interval i) \<and> snd (it_interval i) < 1000000000"

lemma bus_off_timer_ticks:
  assumes "timer_ready t" and "restart_ms d \<noteq> 0"
    and "\<forall>i. settime i = posix_settime i"
  shows "bus_off_timer settime d t =
    (if 0 < restart_ms d \<and> restart_ms d < 1000 then t\<lparr>tm_armed := Some (1000000 * restart_ms d, 0)\<rparr> else t)"
  using assms
  by (simp add: bus_off_timer_def can_bus_off_def schedule_delayed_work_def timer_create_def timer_settime_def
      netif_carrier_off_def TIMER_INTERVAL_NS_def HZ_def timer_ready_def spec_ns_def posix_settime_def Let_def)

text \<open>
  C31: The restart of a controller that goes bus-off, from the scheduling to the callback, for
  the restart times the timer can take, 1 to 999 milliseconds. Whatever was scheduled before,
  and however the time that passes is cut into pieces, with the thread running after each, the
  callback runs when the restart time has passed, not before, and exactly once: it never runs
  again for this bus-off, however long one waits. The kernel is assumed to accept a setting when
  its nanoseconds are below one second.
\<close>

theorem restart_fires_once:
  assumes "\<forall>i. settime i = posix_settime i"
    and "timer_ready t" and "0 < restart_ms d" and "restart_ms d < 1000" and "\<forall>w \<in> set ws. 0 \<le> w"
  shows "tm_fired (timer_waits ws (bus_off_timer settime d t)) =
    tm_fired t + (if sum_list ws < 1000000 * restart_ms d then 0 else 1)"
  using waits_one_shot [of "t\<lparr>tm_armed := Some (1000000 * restart_ms d, 0)\<rparr>" "1000000 * restart_ms d" ws]
    bus_off_timer_ticks [OF assms(2) _ assms(1), of d] assms(2-5) by simp

theorem restart_fires_once_witness:
  "tm_fired (timer_waits [20000000, 29999999] (bus_off_timer posix_settime (vcan_dev\<lparr>restart_ms := 50\<rparr>)
     (setup_timer True True new_timer))) = 0 \<and>
   tm_fired (timer_waits [20000000, 30000000, 9000000000, 50000000] (bus_off_timer posix_settime
     (vcan_dev\<lparr>restart_ms := 50\<rparr>) (setup_timer True True new_timer))) = 1"
proof -
  let ?t = "setup_timer True True new_timer" and ?d = "vcan_dev\<lparr>restart_ms := 50\<rparr>"
  have "tm_fired ?t = 0" by (simp add: setup_timer_def timer_create_def new_timer_def)
  then show ?thesis
    using restart_fires_once [of posix_settime ?t ?d "[20000000, 29999999]"]
      restart_fires_once [of posix_settime ?t ?d "[20000000, 30000000, 9000000000, 50000000]"]
    by (simp add: setup_timer_ready)
qed

text \<open>
  A restart time of one second or more is refused by the kernel, because all of it is given in
  the nanoseconds: the callback never runs, although the manual offers any number of milliseconds.
\<close>

lemma restart_lost_from_one_second:
  assumes "\<forall>i. settime i = posix_settime i"
    and "timer_ready t" and "tm_armed t = None" and "1000 \<le> restart_ms d"
  shows "tm_fired (timer_waits ws (bus_off_timer settime d t)) = tm_fired t"
  using bus_off_timer_ticks [OF assms(2) _ assms(1), of d] waits_disarmed [OF assms(2,3)] assms(4) by simp

text \<open>
  Cancelling ends the thread only if it runs between the two parts; otherwise the pulse is
  lost with the channel, and the thread calls \<^verbatim>\<open>MsgReceive\<close> on no channel for ever.
\<close>

lemma cancel_race:
  assumes "tm_created t" and "tm_channel t" and "tm_started t" and "tm_pulses t = []"
  shows "\<not> tm_started (destroy_finish (snd (timer_loop (destroy_signal t)))) \<and>
    ((\<lambda>t. snd (timer_loop t)) ^^ k) (destroy_finish (destroy_signal t)) = destroy_finish (destroy_signal t) \<and>
    fst (timer_loop (destroy_finish (destroy_signal t))) = Loop_fails"
proof -
  let ?d = "destroy_finish (destroy_signal t)"
  have "timer_loop ?d = (Loop_fails, ?d)"
    using assms by (simp add: destroy_finish_def destroy_signal_def timer_loop_def)
  moreover from this have "((\<lambda>t. snd (timer_loop t)) ^^ k) ?d = ?d"
    by (induction k) simp_all
  ultimately show ?thesis
    using assms by (simp add: destroy_finish_def destroy_signal_def timer_loop_def Let_def)
qed

end
