(* ===== verification/Irq_Table.thy ===== *)
theory Irq_Table
  imports Prelude "HOL-Library.Monad_Syntax"
begin

text \<open>
  Interrupt lines: the groups of \<^verbatim>\<open>src/src/config.c\<close> and the table of attached interrupts with the
  dispatch loop of \<^verbatim>\<open>src/src/interrupt.c\<close>. The calls of the QNX kernel and of the PCI library are
  arguments; masking and calls of handlers are events of a trace. The group map never
  points to an old array, a request appends its handler to the handlers of each line of its
  group, and a pulse runs every handler of its line exactly once between masking and unmasking.
\<close>

section \<open>Groups\<close>

record irq_group =
  g_irqs :: "nat list"
  g_hdl :: addr
  g_msi_cap :: ptr
  g_is_msi :: bool
  g_is_msix :: bool

text \<open>
  The array of groups with the address of its block, and the map from interrupt numbers to
  groups. A pointer into an array is the address of its block and an index.
\<close>

record irq_tables =
  grp_base :: ptr
  grp :: "irq_group list"
  irq_to_group :: "(addr \<times> nat) option list"

text \<open>\<^verbatim>\<open>irq_to_group_add\<close>: the map grows to the largest number and its entries are set.\<close>

definition irq_map_size :: "nat list \<Rightarrow> nat" where
  "irq_map_size irqs = fold (\<lambda>i n. if n < i + 1 then i + 1 else n) irqs 0"

definition irq_map_set :: "(addr \<times> nat) \<Rightarrow> nat list \<Rightarrow> (addr \<times> nat) option list \<Rightarrow> (addr \<times> nat) option list" where
  "irq_map_set p irqs m = fold (\<lambda>i m. m[i := Some p]) irqs m"

definition irq_to_group_add :: "nat list \<Rightarrow> (addr \<times> nat) \<Rightarrow> irq_tables \<Rightarrow> irq_tables" where
  "irq_to_group_add irqs p T =
     (let m = irq_to_group T; n = irq_map_size irqs;
          m1 = (if length m < n then m @ replicate (n - length m) None else m)
      in T\<lparr>irq_to_group := irq_map_set p irqs m1\<rparr>)"

text \<open>
  \<^verbatim>\<open>irq_group_add\<close>: the groups move to a larger array in block \<open>blk\<close>, and the pointers of the map
  into the old array are redirected.
\<close>

definition redirect :: "ptr \<Rightarrow> nat \<Rightarrow> addr \<Rightarrow> (addr \<times> nat) option \<Rightarrow> (addr \<times> nat) option" where
  "redirect old n blk e =
     (case e of
        None \<Rightarrow> None
      | Some (b, j) \<Rightarrow> if Some b = old \<and> j < n then Some (blk, j) else Some (b, j))"

definition irq_group_add :: "ptr \<Rightarrow> irq_group \<Rightarrow> irq_tables \<Rightarrow> irq_tables option" where
  "irq_group_add blk g T = do {
     b \<leftarrow> blk;
     let n = length (grp T);
     Some (irq_to_group_add (g_irqs g) (b, n)
       \<lparr>grp_base = Some b, grp = grp T @ [g],
        irq_to_group = map (redirect (grp_base T) n b) (irq_to_group T)\<rparr>) }"

definition irq_group_cleanup :: "irq_tables \<Rightarrow> irq_tables" where
  "irq_group_cleanup T = \<lparr>grp_base = None, grp = map (\<lambda>g. g\<lparr>g_irqs := []\<rparr>) (grp T), irq_to_group = []\<rparr>"

text \<open>The group of a number, as the code reads it: \<open>None\<close> is a read outside the map, of NULL or of a freed array.\<close>

definition group_of :: "irq_tables \<Rightarrow> nat \<Rightarrow> irq_group option" where
  "group_of T i =
     (if i < length (irq_to_group T)
      then (case irq_to_group T ! i of
              None \<Rightarrow> None
            | Some (b, j) \<Rightarrow> if grp_base T = Some b \<and> j < length (grp T) then Some (grp T ! j) else None)
      else None)"

section \<open>Attached interrupts\<close>

definition MAX_IRQ_ATTACH_COUNT :: nat where "MAX_IRQ_ATTACH_COUNT = 127"
definition MAX_HANDLERS_PER_IRQ :: nat where "MAX_HANDLERS_PER_IRQ = 256"

text \<open>The four kinds of mask functions, and a handler with its reset function and device.\<close>

datatype mask_kind = Mask_msix | Mask_msi | Mask_msi_legacy | Mask_regular

record irq_slot =
  sl_handler :: nat
  sl_reset :: ptr
  sl_dev :: addr

record irq_attach =
  at_id :: int
  at_irq :: nat
  at_slots :: "irq_slot option list"
  at_num :: nat
  at_msi_cap :: ptr
  at_entry :: nat
  at_mask :: "mask_kind option"

datatype irq_event =
    Ev_mask mask_kind nat | Ev_unmask mask_kind nat | Ev_call irq_slot | Ev_reset irq_slot | Ev_wake addr

text \<open>
  The mask and unmask functions: all but the legacy one check the index first, the three for
  message-signalled interrupts need a capability.
\<close>

definition mask_reaches :: "mask_kind \<Rightarrow> nat \<Rightarrow> irq_attach list \<Rightarrow> bool" where
  "mask_reaches mk k A \<longleftrightarrow> k < length A \<and> (mk = Mask_regular \<or> at_msi_cap (A ! k) \<noteq> None)"

definition mask_irq :: "mask_kind \<Rightarrow> nat \<Rightarrow> irq_attach list \<Rightarrow> irq_event list" where
  "mask_irq mk k A = (if mask_reaches mk k A then [Ev_mask mk k] else [])"

definition unmask_irq :: "mask_kind \<Rightarrow> nat \<Rightarrow> irq_attach list \<Rightarrow> irq_event list" where
  "unmask_irq mk k A = (if mask_reaches mk k A then [Ev_unmask mk k] else [])"

text \<open>\<open>enabled\<close> is \<^verbatim>\<open>pci_device_cfg_cap_isenabled\<close> for the capability of the group.\<close>

definition choose_mask :: "bool \<Rightarrow> irq_group \<Rightarrow> mask_kind" where
  "choose_mask enabled g =
     (if g_msi_cap g \<noteq> None \<and> enabled
      then (if g_is_msix g then Mask_msix else if g_is_msi g then Mask_msi else Mask_msi_legacy)
      else Mask_regular)"

text \<open>A further handler on a line: the number is raised before it is compared with the limit.\<close>

definition add_handler :: "irq_slot \<Rightarrow> irq_attach \<Rightarrow> bool \<times> irq_attach" where
  "add_handler sl at =
     (let at1 = at\<lparr>at_num := Suc (at_num at)\<rparr>
      in if MAX_HANDLERS_PER_IRQ \<le> at_num at1 then (False, at1)
         else (True, at1\<lparr>at_slots := (at_slots at1)[at_num at := Some sl]\<rparr>))"

definition new_attach :: "bool \<Rightarrow> nat \<Rightarrow> irq_slot \<Rightarrow> nat \<Rightarrow> irq_group \<Rightarrow> irq_attach" where
  "new_attach enabled i sl irqno g =
     \<lparr>at_id = 0, at_irq = irqno, at_slots = Some sl # replicate (MAX_HANDLERS_PER_IRQ - 1) None, at_num = 1,
      at_msi_cap = g_msi_cap g, at_entry = i, at_mask = Some (choose_mask enabled g)\<rparr>"

fun find_attach :: "nat \<Rightarrow> irq_attach list \<Rightarrow> nat option" where
  "find_attach irqno [] = None"
| "find_attach irqno (a # A) = (if at_irq a = irqno then Some 0 else map_option Suc (find_attach irqno A))"

text \<open>
  One round of the loop of \<^verbatim>\<open>request_threaded_irq\<close>; \<open>iattach\<close> is the result of
  \<^verbatim>\<open>InterruptAttach\<close> or \<^verbatim>\<open>InterruptAttachEvent\<close>.
\<close>

definition attach_line ::
  "bool \<Rightarrow> (nat \<Rightarrow> int) \<Rightarrow> irq_slot \<Rightarrow> irq_group \<Rightarrow> nat \<Rightarrow> nat \<Rightarrow> irq_attach list \<Rightarrow>
   bool \<times> irq_event list \<times> irq_attach list" where
  "attach_line enabled iattach sl g i irqno A =
     (if length A = MAX_IRQ_ATTACH_COUNT then (False, [], A)
      else case find_attach irqno A of
             Some j \<Rightarrow> (let (ok, at) = add_handler sl (A ! j) in (ok, [], A[j := at]))
           | None \<Rightarrow>
               (let at = new_attach enabled i sl irqno g; A1 = A @ [at] in
                if iattach irqno = -1 then (False, [], A1)
                else let A2 = A @ [at\<lparr>at_id := iattach irqno\<rparr>]
                     in (True, unmask_irq (choose_mask enabled g) (length A) A2, A2)))"

fun attach_lines ::
  "bool \<Rightarrow> (nat \<Rightarrow> int) \<Rightarrow> irq_slot \<Rightarrow> irq_group \<Rightarrow> nat \<Rightarrow> nat list \<Rightarrow> irq_attach list \<Rightarrow>
   bool \<times> irq_event list \<times> irq_attach list" where
  "attach_lines enabled iattach sl g i [] A = (True, [], A)"
| "attach_lines enabled iattach sl g i (x # xs) A =
     (case attach_line enabled iattach sl g i x A of
        (ok, ev, A1) \<Rightarrow>
          if \<not> ok then (False, ev, A1)
          else (case attach_lines enabled iattach sl g (Suc i) xs A1 of (ok2, ev2, A2) \<Rightarrow> (ok2, ev @ ev2, A2)))"

definition request_threaded_irq ::
  "bool \<Rightarrow> bool \<Rightarrow> (nat \<Rightarrow> int) \<Rightarrow> nat \<Rightarrow> nat \<Rightarrow> ptr \<Rightarrow> addr \<Rightarrow> irq_tables \<Rightarrow> irq_attach list \<Rightarrow>
   (bool \<times> irq_event list \<times> irq_attach list) option" where
  "request_threaded_irq sched enabled iattach irq handler thread_fn dev T A =
     (if \<not> sched then Some (False, [], A)
      else do {
        g \<leftarrow> group_of T irq;
        Some (attach_lines enabled iattach \<lparr>sl_handler = handler, sl_reset = thread_fn, sl_dev = dev\<rparr> g 0 (g_irqs g) A) })"

definition request_irq ::
  "bool \<Rightarrow> bool \<Rightarrow> (nat \<Rightarrow> int) \<Rightarrow> nat \<Rightarrow> nat \<Rightarrow> addr \<Rightarrow> irq_tables \<Rightarrow> irq_attach list \<Rightarrow>
   (bool \<times> irq_event list \<times> irq_attach list) option" where
  "request_irq sched enabled iattach irq handler dev T A =
     request_threaded_irq sched enabled iattach irq handler None dev T A"

text \<open>
  \<^verbatim>\<open>free_irq\<close>. The condition compares \<open>dev\<close> with the array of devices of the entry, that is with
  the address \<open>arr k\<close> of that array, and not with its elements.
\<close>

fun free_line :: "(nat \<Rightarrow> addr) \<Rightarrow> addr \<Rightarrow> nat \<Rightarrow> nat \<Rightarrow> irq_attach list \<Rightarrow> irq_attach list" where
  "free_line arr dev irqno k [] = []"
| "free_line arr dev irqno k (a # A) =
     (if at_id a \<noteq> -1 \<and> irqno = at_irq a \<and> arr k = dev then a\<lparr>at_id := -1\<rparr> # A
      else a # free_line arr dev irqno (Suc k) A)"

definition free_irq :: "(nat \<Rightarrow> addr) \<Rightarrow> nat \<Rightarrow> addr \<Rightarrow> irq_tables \<Rightarrow> irq_attach list \<Rightarrow> irq_attach list option" where
  "free_irq arr irq dev T A = do {
     g \<leftarrow> group_of T irq;
     Some (fold (\<lambda>x A. free_line arr dev x 0 A) (g_irqs g) A) }"

section \<open>Dispatch\<close>

text \<open>
  What the handlers do is a function of the slot on the state of the devices. A call returns
  one of the three results; a slot that is NULL is a call of address zero, \<open>None\<close>.
\<close>

definition run_slot ::
  "(irq_slot \<Rightarrow> 's \<Rightarrow> irqreturn \<times> 's) \<Rightarrow> (irq_slot \<Rightarrow> 's \<Rightarrow> 's) \<Rightarrow> irq_slot option \<Rightarrow> 's \<Rightarrow>
   (irq_event list \<times> 's) option" where
  "run_slot call reset sl s =
     (case sl of
        None \<Rightarrow> None
      | Some x \<Rightarrow>
          (case call x s of (r, s1) \<Rightarrow>
             if r = IRQ_WAKE_THREAD \<and> sl_reset x \<noteq> None then Some ([Ev_call x, Ev_reset x], reset x s1)
             else Some ([Ev_call x], s1)))"

fun run_slots ::
  "(irq_slot \<Rightarrow> 's \<Rightarrow> irqreturn \<times> 's) \<Rightarrow> (irq_slot \<Rightarrow> 's \<Rightarrow> 's) \<Rightarrow> irq_slot option list \<Rightarrow> 's \<Rightarrow>
   (irq_event list \<times> 's) option" where
  "run_slots call reset [] s = Some ([], s)"
| "run_slots call reset (x # xs) s = do {
     (ev, s1) \<leftarrow> run_slot call reset x s;
     (ev2, s2) \<leftarrow> run_slots call reset xs s1;
     Some (ev @ ev2, s2) }"

text \<open>
  The queue of each device of the line is woken when a wake-up is pending: \<open>pending\<close> and \<open>wake\<close>
  are \<^verbatim>\<open>queue_wake_pending\<close> and \<^verbatim>\<open>queue_start_signal\<close> with \<^verbatim>\<open>queue_awake\<close> on the queue of a device.
\<close>

fun wake_slots ::
  "(addr \<Rightarrow> 's \<Rightarrow> bool) \<Rightarrow> (addr \<Rightarrow> 's \<Rightarrow> 's) \<Rightarrow> irq_slot option list \<Rightarrow> 's \<Rightarrow> (irq_event list \<times> 's) option" where
  "wake_slots pend wake [] s = Some ([], s)"
| "wake_slots pend wake (x # xs) s = do {
     sl \<leftarrow> x;
     let (ev, s1) = (if pend (sl_dev sl) s then ([Ev_wake (sl_dev sl)], wake (sl_dev sl) s) else ([], s));
     (ev2, s2) \<leftarrow> wake_slots pend wake xs s1;
     Some (ev @ ev2, s2) }"

text \<open>
  One round of \<^verbatim>\<open>irq_loop\<close> after \<^verbatim>\<open>MsgReceivePulse\<close>, which failed or brought a pulse code. An
  index beyond the array is undefined; an entry not in use has no mask function.
\<close>

definition irq_loop_round ::
  "(irq_slot \<Rightarrow> 's \<Rightarrow> irqreturn \<times> 's) \<Rightarrow> (irq_slot \<Rightarrow> 's \<Rightarrow> 's) \<Rightarrow> (addr \<Rightarrow> 's \<Rightarrow> bool) \<Rightarrow>
   (addr \<Rightarrow> 's \<Rightarrow> 's) \<Rightarrow> int option \<Rightarrow> irq_attach list \<Rightarrow> 's \<Rightarrow> (irq_event list \<times> 's) option" where
  "irq_loop_round call reset pend wake pulse A s =
     (case pulse of
        None \<Rightarrow> Some ([], s)
      | Some c \<Rightarrow>
          if c < 0 then Some ([], s)
          else let k = nat c in
            if MAX_IRQ_ATTACH_COUNT \<le> k then None
            else if length A \<le> k then Some ([], s)
            else (case at_mask (A ! k) of
                    None \<Rightarrow> Some ([], s)
                  | Some mk \<Rightarrow> do {
                      let ev1 = (if mk \<noteq> Mask_msi_legacy \<and> mk \<noteq> Mask_regular then mask_irq mk k A else []);
                      let sls = take (at_num (A ! k)) (at_slots (A ! k));
                      (ev2, s1) \<leftarrow> run_slots call reset sls s;
                      (ev3, s2) \<leftarrow> wake_slots pend wake sls s1;
                      Some (ev1 @ ev2 @ unmask_irq mk k A @ ev3, s2) }))"

text \<open>
  The loop body with its exit: when the program shuts down, the thread ends whatever the pulse was;
  the inner \<open>None\<close> is the end of the thread.
\<close>

definition irq_loop_turn ::
  "bool \<Rightarrow> (irq_slot \<Rightarrow> 's \<Rightarrow> irqreturn \<times> 's) \<Rightarrow> (irq_slot \<Rightarrow> 's \<Rightarrow> 's) \<Rightarrow> (addr \<Rightarrow> 's \<Rightarrow> bool) \<Rightarrow>
   (addr \<Rightarrow> 's \<Rightarrow> 's) \<Rightarrow> int option \<Rightarrow> irq_attach list \<Rightarrow> 's \<Rightarrow> (irq_event list \<times> 's) option option" where
  "irq_loop_turn shutdown_program call reset pend wake pulse A s =
     (if shutdown_program then Some None else map_option Some (irq_loop_round call reset pend wake pulse A s))"

section \<open>The group map\<close>

lemma irq_map_size_ge:
  "(n :: nat) \<le> fold (\<lambda>i n. if n < i + 1 then i + 1 else n) irqs n \<and>
   (\<forall>i \<in> set irqs. i < fold (\<lambda>i n. if n < i + 1 then i + 1 else n) irqs n)"
proof (induction irqs arbitrary: n)
  case (Cons x xs)
  have "n \<le> (if n < x + 1 then x + 1 else n)" "x < (if n < x + 1 then x + 1 else n)" by auto
  then show ?case using Cons [of "if n < x + 1 then x + 1 else n"] by (force intro: le_trans less_le_trans)
qed simp

lemma irq_map_set_nth:
  "length (irq_map_set p irqs m) = length m \<and>
   (\<forall>i < length m. irq_map_set p irqs m ! i = (if i \<in> set irqs then Some p else m ! i))"
proof (induction irqs arbitrary: m)
  case (Cons x xs)
  then show ?case by (auto simp: irq_map_set_def nth_list_update)
qed (simp add: irq_map_set_def)

text \<open>An entry of the map, with nothing beyond its end.\<close>

definition look :: "'a option list \<Rightarrow> nat \<Rightarrow> 'a option" where
  "look m i = (if i < length m then m ! i else None)"

lemma group_of_look:
  "group_of T i = (case look (irq_to_group T) i of
     None \<Rightarrow> None
   | Some (b, j) \<Rightarrow> if grp_base T = Some b \<and> j < length (grp T) then Some (grp T ! j) else None)"
  by (simp add: group_of_def look_def)

text \<open>Every entry points into the current array, to a group that has the number.\<close>

definition groups_wf :: "irq_tables \<Rightarrow> bool" where
  "groups_wf T \<longleftrightarrow> (\<forall>i b j. look (irq_to_group T) i = Some (b, j) \<longrightarrow>
     grp_base T = Some b \<and> j < length (grp T) \<and> i \<in> set (g_irqs (grp T ! j)))"

lemma look_irq_to_group_add:
  "look (irq_to_group (irq_to_group_add irqs p T)) i = (if i \<in> set irqs then Some p else look (irq_to_group T) i)"
proof -
  define m1 where "m1 = (if length (irq_to_group T) < irq_map_size irqs
    then irq_to_group T @ replicate (irq_map_size irqs - length (irq_to_group T)) None else irq_to_group T)"
  have "irq_to_group (irq_to_group_add irqs p T) = irq_map_set p irqs m1"
    by (simp add: irq_to_group_add_def m1_def Let_def)
  moreover have "i < length m1" if "i \<in> set irqs"
    using that irq_map_size_ge [of 0 irqs] by (auto simp: irq_map_size_def m1_def)
  moreover have "look m1 i = look (irq_to_group T) i" by (auto simp: look_def m1_def nth_append)
  ultimately show ?thesis using irq_map_set_nth [of p irqs m1] by (auto simp: look_def)
qed

lemma look_redirect:
  assumes "groups_wf T"
  shows "look (map (redirect (grp_base T) (length (grp T)) b) (irq_to_group T)) i =
    map_option (\<lambda>(_, j). (b, j)) (look (irq_to_group T) i)"
proof (cases "look (irq_to_group T) i")
  case None
  then show ?thesis by (auto simp: look_def redirect_def split: if_splits)
next
  case (Some x)
  obtain c j where x: "x = (c, j)" by force
  then have "grp_base T = Some c" "j < length (grp T)" using assms Some by (auto simp: groups_wf_def)
  then show ?thesis using Some x by (auto simp: look_def redirect_def split: if_splits)
qed

text \<open>
  C34: Adding a group keeps the map from interrupt numbers to groups sound although the array of
  groups moves: no entry is left pointing to the old array, the numbers of the new group lead to
  it, and every other number leads to the group it led to before.
\<close>

theorem irq_group_add_correct:
  assumes wf: "groups_wf T" and add: "irq_group_add (Some b) g T = Some T'"
  shows "groups_wf T' \<and> (\<forall>i. group_of T' i = (if i \<in> set (g_irqs g) then Some g else group_of T i))"
proof -
  have T': "grp_base T' = Some b" "grp T' = grp T @ [g]"
    using add by (auto simp: irq_group_add_def irq_to_group_add_def Let_def)
  have l: "look (irq_to_group T') i = (if i \<in> set (g_irqs g) then Some (b, length (grp T))
      else map_option (\<lambda>(_, j). (b, j)) (look (irq_to_group T) i))" for i
    using add look_redirect [OF wf, of b] by (auto simp: irq_group_add_def look_irq_to_group_add Let_def)
  have "groups_wf T'"
    using wf l T' by (auto simp: groups_wf_def nth_append)
  moreover have "group_of T' i = (if i \<in> set (g_irqs g) then Some g else group_of T i)" for i
  proof (cases "look (irq_to_group T) i")
    case (Some x)
    obtain c j where x: "x = (c, j)" by force
    then have "grp_base T = Some c" "j < length (grp T)" using wf Some by (auto simp: groups_wf_def)
    then show ?thesis using l [of i] T' Some x by (simp add: group_of_look nth_append)
  qed (use l [of i] T' in \<open>simp add: group_of_look\<close>)
  ultimately show ?thesis by blast
qed

definition two_lines :: irq_group where
  "two_lines = \<lparr>g_irqs = [3, 5], g_hdl = 1, g_msi_cap = Some 9, g_is_msi = True, g_is_msix = False\<rparr>"

definition no_groups :: irq_tables where
  "no_groups = \<lparr>grp_base = None, grp = [], irq_to_group = []\<rparr>"

theorem irq_group_add_correct_witness:
  "\<exists>T'. irq_group_add (Some 7) two_lines no_groups = Some T' \<and> group_of T' 5 = Some two_lines \<and> group_of T' 4 = None"
proof -
  obtain T' where T': "irq_group_add (Some 7) two_lines no_groups = Some T'"
    by (simp add: irq_group_add_def Let_def)
  moreover have "groups_wf no_groups" "group_of no_groups 4 = None"
    by (simp_all add: groups_wf_def no_groups_def look_def group_of_def)
  ultimately show ?thesis
    using irq_group_add_correct [of no_groups 7 two_lines T'] by (simp add: two_lines_def)
qed

section \<open>Handlers\<close>

definition handlers_of :: "irq_attach list \<Rightarrow> nat \<Rightarrow> irq_slot list" where
  "handlers_of A x = (case find_attach x A of
     None \<Rightarrow> [] | Some j \<Rightarrow> map the (take (at_num (A ! j)) (at_slots (A ! j))))"

definition slots_wf :: "irq_attach \<Rightarrow> bool" where
  "slots_wf a \<longleftrightarrow> length (at_slots a) = MAX_HANDLERS_PER_IRQ \<and> at_num a < MAX_HANDLERS_PER_IRQ \<and>
     (\<forall>i < at_num a. at_slots a ! i \<noteq> None) \<and> at_mask a \<noteq> None"

definition attach_wf :: "irq_attach list \<Rightarrow> bool" where
  "attach_wf A \<longleftrightarrow> distinct (map at_irq A) \<and> (\<forall>a \<in> set A. slots_wf a)"

lemma find_attach_None: "find_attach x A = None \<longleftrightarrow> x \<notin> at_irq ` set A"
  by (induction A) auto

lemma find_attach_Some: "find_attach x A = Some j \<Longrightarrow> j < length A \<and> at_irq (A ! j) = x"
  by (induction A arbitrary: j) (auto split: if_splits)

lemma find_attach_nth:
  assumes "attach_wf A" and "k < length A"
  shows "find_attach (at_irq (A ! k)) A = Some k"
proof -
  obtain j where j: "find_attach (at_irq (A ! k)) A = Some j"
    using assms(2) find_attach_None [of "at_irq (A ! k)" A] by (cases "find_attach (at_irq (A ! k)) A") auto
  from find_attach_Some [OF this] have "j < length A" "at_irq (A ! j) = at_irq (A ! k)" by auto
  then have "j = k" using assms by (auto simp: attach_wf_def distinct_conv_nth)
  with j show ?thesis by simp
qed

lemma find_attach_update:
  "j < length A \<Longrightarrow> at_irq a = at_irq (A ! j) \<Longrightarrow> find_attach x (A[j := a]) = find_attach x A"
  by (induction A arbitrary: j) (auto split: nat.splits)

lemma find_attach_append:
  "find_attach x (A @ [a]) = (case find_attach x A of Some j \<Rightarrow> Some j | None \<Rightarrow> if at_irq a = x then Some (length A) else None)"
  by (induction A) (auto split: option.splits)

lemma add_handler_appends:
  assumes "slots_wf a" and "at_num a < 255"
  shows "\<exists>a'. add_handler sl a = (True, a') \<and> slots_wf a' \<and> at_irq a' = at_irq a \<and>
    map the (take (at_num a') (at_slots a')) = map the (take (at_num a) (at_slots a)) @ [sl]"
  using assms
  by (auto simp: add_handler_def slots_wf_def MAX_HANDLERS_PER_IRQ_def Let_def take_Suc_conv_app_nth nth_list_update less_Suc_eq)

lemma attach_line_appends:
  assumes wf: "attach_wf A" and len: "length A < MAX_IRQ_ATTACH_COUNT" and ok: "iattach x \<noteq> -1"
    and room: "length (handlers_of A x) < 255"
  shows "\<exists>ev A'. attach_line enabled iattach sl g i x A = (True, ev, A') \<and> attach_wf A' \<and>
    length A' \<le> Suc (length A) \<and> (\<forall>y. handlers_of A' y = handlers_of A y @ (if y = x then [sl] else []))"
proof (cases "find_attach x A")
  case (Some j)
  then have j: "j < length A" "at_irq (A ! j) = x" using find_attach_Some by auto
  have sw: "slots_wf (A ! j)" using wf j by (simp add: attach_wf_def)
  then have "at_num (A ! j) < 255"
    using room Some by (simp add: handlers_of_def slots_wf_def MAX_HANDLERS_PER_IRQ_def)
  then obtain a where a: "add_handler sl (A ! j) = (True, a)" "slots_wf a" "at_irq a = at_irq (A ! j)"
    "map the (take (at_num a) (at_slots a)) = map the (take (at_num (A ! j)) (at_slots (A ! j))) @ [sl]"
    using add_handler_appends [OF sw] by blast
  have "map at_irq (A[j := a]) = map at_irq A" using a(3) j by (simp add: map_update list_update_same_conv)
  then have "attach_wf (A[j := a])"
    using wf a(2) set_update_subset_insert [of A j a] by (auto simp: attach_wf_def)
  moreover have "handlers_of (A[j := a]) y = handlers_of A y @ (if y = x then [sl] else [])" for y
    using find_attach_update [OF j(1) a(3)] Some j a(4) find_attach_Some [of y A]
    by (auto simp: handlers_of_def nth_list_update split: option.splits)
  ultimately show ?thesis
    using len Some a(1) by (simp add: attach_line_def)
next
  case None
  let ?a = "(new_attach enabled i sl x g)\<lparr>at_id := iattach x\<rparr>"
  have "slots_wf ?a" "at_irq ?a = x" "map the (take (at_num ?a) (at_slots ?a)) = [sl]"
    by (simp_all add: slots_wf_def new_attach_def MAX_HANDLERS_PER_IRQ_def)
  then have "attach_wf (A @ [?a])" "\<forall>y. handlers_of (A @ [?a]) y = handlers_of A y @ (if y = x then [sl] else [])"
    using wf None find_attach_None [of x A] find_attach_Some [of _ A]
    by (auto simp: attach_wf_def handlers_of_def find_attach_append nth_append split: option.splits)
  then show ?thesis
    using len None ok by (simp add: attach_line_def Let_def)
qed

lemma attach_lines_append:
  assumes "attach_wf A" and "length A + length xs \<le> MAX_IRQ_ATTACH_COUNT" and "\<forall>x \<in> set xs. iattach x \<noteq> -1"
    and "\<forall>x \<in> set xs. length (handlers_of A x) < 255" and "distinct xs"
  shows "\<exists>ev A'. attach_lines enabled iattach sl g i xs A = (True, ev, A') \<and> attach_wf A' \<and>
    (\<forall>y. handlers_of A' y = handlers_of A y @ (if y \<in> set xs then [sl] else []))"
  using assms
proof (induction xs arbitrary: A i)
  case (Cons x xs)
  obtain ev A1 where l: "attach_line enabled iattach sl g i x A = (True, ev, A1)" "attach_wf A1"
    "length A1 \<le> Suc (length A)" "\<forall>y. handlers_of A1 y = handlers_of A y @ (if y = x then [sl] else [])"
    using attach_line_appends [of A iattach x enabled sl g i] Cons.prems by auto
  have "\<forall>y \<in> set xs. length (handlers_of A1 y) < 255" using l(4) Cons.prems(4,5) by auto
  then obtain ev2 A2 where "attach_lines enabled iattach sl g (Suc i) xs A1 = (True, ev2, A2)" "attach_wf A2"
    "\<forall>y. handlers_of A2 y = handlers_of A1 y @ (if y \<in> set xs then [sl] else [])"
    using Cons.IH [OF l(2), of "Suc i"] Cons.prems(2,3,5) l(3) by auto
  then show ?case using l(1,4) Cons.prems(5) by auto
qed simp

text \<open>
  C33: A request for an interrupt that succeeds adds its handler as the last one of every line
  of the group of that interrupt, once, and changes the handlers of no other line; a line that
  was not attached yet gets an entry of its own.
\<close>

theorem request_appends_handler:
  assumes "attach_wf A" and "group_of T irq = Some g" and "distinct (g_irqs g)"
    and "length A + length (g_irqs g) \<le> MAX_IRQ_ATTACH_COUNT" and "\<forall>x \<in> set (g_irqs g). iattach x \<noteq> -1"
    and "\<forall>x \<in> set (g_irqs g). length (handlers_of A x) < 255"
  shows "\<exists>ev A'. request_threaded_irq True enabled iattach irq h thr dev T A = Some (True, ev, A') \<and> attach_wf A' \<and>
    (\<forall>x. handlers_of A' x = handlers_of A x @
       (if x \<in> set (g_irqs g) then [\<lparr>sl_handler = h, sl_reset = thr, sl_dev = dev\<rparr>] else []))"
  using attach_lines_append [OF assms(1,4,5,6,3), of enabled "\<lparr>sl_handler = h, sl_reset = thr, sl_dev = dev\<rparr>" g 0] assms(2)
  by (auto simp: request_threaded_irq_def)

definition line_table :: irq_tables where
  "line_table = \<lparr>grp_base = Some 7, grp = [two_lines], irq_to_group = [None, None, None, Some (7, 0), None, Some (7, 0)]\<rparr>"

theorem request_appends_handler_witness:
  "\<exists>ev A'. request_threaded_irq True True (\<lambda>x. int x) 5 2 None 40 line_table [] = Some (True, ev, A') \<and>
    handlers_of A' 3 = [\<lparr>sl_handler = 2, sl_reset = None, sl_dev = 40\<rparr>] \<and> handlers_of A' 4 = []"
proof -
  have "group_of line_table 5 = Some two_lines" by (simp add: group_of_def line_table_def)
  moreover have "attach_wf []" "\<forall>x. handlers_of [] x = []" by (simp_all add: attach_wf_def handlers_of_def)
  ultimately show ?thesis
    using request_appends_handler [of "[]" line_table 5 two_lines "\<lambda>x. int x" True 2 None 40]
    by (auto simp: two_lines_def MAX_IRQ_ATTACH_COUNT_def)
qed

section \<open>Dispatch\<close>

definition calls :: "irq_event list \<Rightarrow> irq_slot list" where
  "calls ev = concat (map (\<lambda>e. case e of Ev_call x \<Rightarrow> [x] | _ \<Rightarrow> []) ev)"

lemma calls_simps [simp]:
  "calls [] = []" "calls (ev @ ev2) = calls ev @ calls ev2" "calls (Ev_call x # ev) = x # calls ev"
  "calls (Ev_mask mk k # ev) = calls ev" "calls (Ev_unmask mk k # ev) = calls ev"
  "calls (Ev_reset x # ev) = calls ev" "calls (Ev_wake d # ev) = calls ev"
  by (simp_all add: calls_def)

lemma run_slots_calls:
  "\<forall>x \<in> set sls. x \<noteq> None \<Longrightarrow> \<exists>ev s'. run_slots call reset sls s = Some (ev, s') \<and> calls ev = map the sls \<and>
     Ev_mask mk k \<notin> set ev \<and> Ev_unmask mk k \<notin> set ev"
proof (induction sls arbitrary: s)
  case (Cons x xs)
  then obtain y where y: "x = Some y" by auto
  obtain r s1 where c: "call y s = (r, s1)" by force
  let ?s = "if r = IRQ_WAKE_THREAD \<and> sl_reset y \<noteq> None then reset y s1 else s1"
  obtain ev s' where "run_slots call reset xs ?s = Some (ev, s')" "calls ev = map the xs"
    "Ev_mask mk k \<notin> set ev" "Ev_unmask mk k \<notin> set ev"
    using Cons.IH [of ?s] Cons.prems by auto
  then show ?case using y c by (auto simp: run_slot_def)
qed simp

lemma wake_slots_calls:
  "\<forall>x \<in> set sls. x \<noteq> None \<Longrightarrow> \<exists>ev s'. wake_slots pend wake sls s = Some (ev, s') \<and> calls ev = []"
proof (induction sls arbitrary: s)
  case (Cons x xs)
  then obtain y where y: "x = Some y" by auto
  let ?s = "if pend (sl_dev y) s then wake (sl_dev y) s else s"
  obtain ev s' where "wake_slots pend wake xs ?s = Some (ev, s')" "calls ev = []"
    using Cons.IH [of ?s] Cons.prems by auto
  then show ?case using y by (auto simp: Let_def)
qed simp

text \<open>
  C32: A pulse of an attached interrupt runs every handler of its line exactly once, in the order
  in which they were requested, whatever the handlers return. A message-signalled line is masked
  before the first and every line is unmasked after the last of them; the loop round always
  returns.
\<close>

theorem irq_dispatches_all_handlers:
  assumes "attach_wf A" and "k < length A" and "length A \<le> MAX_IRQ_ATTACH_COUNT"
  shows "\<exists>mk ev ev2 s'. at_mask (A ! k) = Some mk \<and>
    irq_loop_round call reset pend wake (Some (int k)) A s =
      Some ((if mk = Mask_msi \<or> mk = Mask_msix then mask_irq mk k A else []) @ ev @ unmask_irq mk k A @ ev2, s') \<and>
    calls ev = handlers_of A (at_irq (A ! k)) \<and> Ev_unmask mk k \<notin> set ev \<and> calls ev2 = []"
proof -
  let ?a = "A ! k" and ?sls = "take (at_num (A ! k)) (at_slots (A ! k))"
  have a: "slots_wf ?a" using assms(1,2) by (simp add: attach_wf_def)
  then obtain mk where mk: "at_mask ?a = Some mk" by (auto simp: slots_wf_def)
  have sls: "\<forall>x \<in> set ?sls. x \<noteq> None"
    using a by (auto simp: slots_wf_def in_set_conv_nth)
  obtain ev s1 where ev: "run_slots call reset ?sls s = Some (ev, s1)" "calls ev = map the ?sls" "Ev_unmask mk k \<notin> set ev"
    using run_slots_calls [OF sls, of call reset s mk k] by blast
  obtain ev2 s2 where ev2: "wake_slots pend wake ?sls s1 = Some (ev2, s2)" "calls ev2 = []"
    using wake_slots_calls [OF sls, of pend wake s1] by blast
  have "handlers_of A (at_irq ?a) = map the ?sls"
    using find_attach_nth [OF assms(1,2)] by (simp add: handlers_of_def)
  moreover have "irq_loop_round call reset pend wake (Some (int k)) A s =
      Some ((if mk = Mask_msi \<or> mk = Mask_msix then mask_irq mk k A else []) @ ev @ unmask_irq mk k A @ ev2, s2)"
    using assms(2,3) mk ev(1) ev2(1) by (cases mk) (simp_all add: irq_loop_round_def Let_def)
  ultimately show ?thesis using mk ev(2,3) ev2(2) by auto
qed

definition line_slot :: "addr \<Rightarrow> irq_slot" where
  "line_slot d = \<lparr>sl_handler = 2, sl_reset = None, sl_dev = d\<rparr>"

definition one_line :: "irq_attach list" where
  "one_line = [snd (add_handler (line_slot 41) (new_attach True 0 (line_slot 40) 3 two_lines))]"

lemma one_line_wf: "attach_wf one_line" "handlers_of one_line 3 = [line_slot 40, line_slot 41]" "at_irq (one_line ! 0) = 3"
proof -
  let ?a = "new_attach True 0 (line_slot 40) 3 two_lines"
  have "slots_wf ?a" "at_num ?a < 255" "at_irq ?a = 3" "map the (take (at_num ?a) (at_slots ?a)) = [line_slot 40]"
    by (simp_all add: slots_wf_def new_attach_def MAX_HANDLERS_PER_IRQ_def)
  then show "attach_wf one_line" "handlers_of one_line 3 = [line_slot 40, line_slot 41]" "at_irq (one_line ! 0) = 3"
    using add_handler_appends [of ?a "line_slot 41"] by (auto simp: one_line_def attach_wf_def handlers_of_def)
qed

theorem irq_dispatches_all_handlers_witness:
  "\<exists>ev s'. irq_loop_round (\<lambda>x n. (IRQ_HANDLED, n + sl_dev x)) (\<lambda>x n. n) (\<lambda>d n. False) (\<lambda>d n. n) (Some 0) one_line 0 =
      Some (ev, s') \<and> calls ev = [line_slot 40, line_slot 41]"
proof -
  have "0 < length one_line" "length one_line \<le> MAX_IRQ_ATTACH_COUNT"
    by (simp_all add: one_line_def MAX_IRQ_ATTACH_COUNT_def)
  from irq_dispatches_all_handlers [OF one_line_wf(1) this, of "\<lambda>x n. (IRQ_HANDLED, n + sl_dev x)" "\<lambda>x n. n"
      "\<lambda>d n. False" "\<lambda>d n. n" 0]
  show ?thesis using one_line_wf(2,3) by (auto simp: mask_irq_def unmask_irq_def split: if_splits)
qed

text \<open>
  The handler that reaches the limit is refused after the number was raised: the next pulse of
  the line calls the function pointer behind the last handler, which is NULL.
\<close>

lemma refused_handler_is_called:
  assumes "length (at_slots a) = MAX_HANDLERS_PER_IRQ" and "at_num a = 255" and "at_slots a ! 255 = None"
    and "\<forall>i < 255. at_slots a ! i \<noteq> None"
  shows "\<exists>a'. add_handler sl a = (False, a') \<and> run_slots call reset (take (at_num a') (at_slots a')) s = None"
proof -
  let ?pre = "take 255 (at_slots a)"
  have "take 256 (at_slots a) = ?pre @ [None]"
    using assms(1,3) take_Suc_conv_app_nth [of 255 "at_slots a"] by (simp add: MAX_HANDLERS_PER_IRQ_def)
  moreover have "run_slots call reset (xs @ [None]) s = None" for xs
    by (induction xs arbitrary: s) (auto simp: run_slot_def split: option.splits Option.bind_splits)
  ultimately show ?thesis using assms(2) by (simp add: add_handler_def MAX_HANDLERS_PER_IRQ_def Let_def)
qed

text \<open>No device is at the address of a table, so releasing an interrupt detaches nothing.\<close>

lemma free_irq_detaches_nothing:
  assumes "group_of T irq = Some g" and "\<forall>k. arr k \<noteq> dev"
  shows "free_irq arr irq dev T A = Some A"
proof -
  have "free_line arr dev x k B = B" for x k B
    using assms(2) by (induction B arbitrary: k) auto
  then have "fold (\<lambda>x A. free_line arr dev x 0 A) xs A = A" for xs
    by (induction xs) auto
  then show ?thesis using assms(1) by (simp add: free_irq_def)
qed

end
