(* ===== verification/Pci_Dev.thy ===== *)
theory Pci_Dev
  imports Options Linked_List Irq_Table
begin

unbundle bit_operations_syntax

text \<open>
  The PCI devices of the program: \<^verbatim>\<open>struct pci_dev\<close>, the answers of the QNX PCI library, the globals
  of \<^verbatim>\<open>src/src/pci.c\<close>, and the lists of \<^verbatim>\<open>src/src/include/pci.h\<close> that remember the base address
  registers of the enabled devices and the blocks of device memory that are mapped.
\<close>

section \<open>Devices\<close>

text \<open>Types of the library: the kinds of address space, a base address register, error codes.\<close>

datatype as_type = AS_MEM | AS_IO | AS_OTHER

record pci_ba =
  ba_addr :: u64
  ba_size :: u64
  ba_type :: as_type

datatype pci_err = PCI_ERR_OK | PCI_ERR_ENOTSUP | PCI_ERR_EALREADY | PCI_ERR_OTHER nat

text \<open>
  \<^verbatim>\<open>struct pci_dev\<close>. It is allocated with \<^verbatim>\<open>malloc\<close> and not cleared; \<open>pd_ba\<close> is \<open>None\<close> as long as
  the pointer \<^verbatim>\<open>ba\<close> and the count \<^verbatim>\<open>nba\<close> have not been set, every other field has some value from
  the beginning. \<open>pd_drvdata\<close> is the pointer of \<^verbatim>\<open>pci_get_drvdata\<close>.
\<close>

record pci_dev =
  pd_hdl :: ptr
  pd_ba :: "pci_ba list option"
  pd_msi_cap :: ptr
  pd_pcie_cap :: ptr
  pd_is_msi :: bool
  pd_is_msix :: bool
  pd_addr :: "u64 list"
  pd_devfn :: nat
  pd_vendor :: u16
  pd_device :: u16
  pd_subsystem_vendor :: u16
  pd_subsystem_device :: u16
  pd_drvdata :: ptr
  pd_irq :: nat
  pd_is_managed :: bool

text \<open>
  What the library answers. \<open>q_find i ids\<close> is \<^verbatim>\<open>pci_device_find\<close> for the \<open>i\<close>-th device, with any or
  with the given vendor and device; a device found is a number (its bus, device and function).
  A function that may fail with an error code yields it together with what it writes.
\<close>

record pci_lib =
  q_find :: "nat \<Rightarrow> (u16 \<times> u16) option \<Rightarrow> nat option"
  q_vid :: "nat \<Rightarrow> u16 option"
  q_did :: "nat \<Rightarrow> u16 option"
  q_attach :: "nat \<Rightarrow> pci_err \<times> ptr"
  q_ssvid :: "nat \<Rightarrow> pci_err \<times> u16"
  q_ssid :: "nat \<Rightarrow> pci_err \<times> u16"
  q_devfn :: "nat \<Rightarrow> nat"
  q_bdf :: "ptr \<Rightarrow> nat option"
  q_ba :: "ptr \<Rightarrow> pci_ba list option"
  q_irq :: "ptr \<Rightarrow> nat list option"
  q_find_capid :: "nat option \<Rightarrow> nat \<Rightarrow> nat option"
  q_read_cap :: "nat option \<Rightarrow> nat \<Rightarrow> pci_err \<times> ptr"
  q_find_xtnd :: "addr \<Rightarrow> nat \<Rightarrow> nat option"
  q_read_xtnd :: "addr \<Rightarrow> nat \<Rightarrow> pci_err \<times> ptr"
  q_cap_enable :: "ptr \<Rightarrow> ptr \<Rightarrow> pci_err"
  q_cap_disable :: "ptr \<Rightarrow> ptr \<Rightarrow> pci_err"
  q_cap_isenabled :: "ptr \<Rightarrow> ptr \<Rightarrow> bool"
  q_msix_nirq :: "ptr \<Rightarrow> nat"
  q_msi_nirq :: "ptr \<Rightarrow> nat"
  q_msix_entry :: "ptr \<Rightarrow> ptr \<Rightarrow> nat \<Rightarrow> pci_err"
  q_msi_set_nirq :: "ptr \<Rightarrow> ptr \<Rightarrow> nat \<Rightarrow> pci_err"
  q_msi_mask :: "ptr \<Rightarrow> ptr \<Rightarrow> pci_err"
  q_mmap_mem :: "u64 \<Rightarrow> u64 \<Rightarrow> u64 option"
  q_mmap_io :: "u64 \<Rightarrow> u64 \<Rightarrow> u64 option"

section \<open>Globals\<close>

record ioblock =
  io_addr :: u64
  io_size :: u64
  io_ba :: pci_ba
  io_managed :: bool

text \<open>What the program has done to the devices, in order.\<close>

datatype pci_event =
    Ev_attach addr | Ev_detach addr | Ev_cap_on addr | Ev_cap_off addr | Ev_unmask_all addr
  | Ev_map as_type u64 | Ev_unmap as_type u64

text \<open>
  The globals. \<open>ps_malloc\<close> are the results of the coming calls of \<^verbatim>\<open>malloc\<close>, \<open>ps_junk\<close> is what a flag
  in a new block holds, and \<open>ps_caps\<close> are the capability structures the library has handed out and
  the program has not freed.
\<close>

record pci_state =
  ps_bars :: "pci_ba dlist"
  ps_blocks :: "ioblock dlist"
  ps_io :: "u64 \<times> u64"
  ps_mem :: "u64 \<times> u64"
  io_port_addr_threshold :: u64
  ps_irqs :: irq_tables
  ps_caps :: "addr list"
  ps_malloc :: "ptr list"
  ps_junk :: bool
  ps_log :: "pci_event list"

definition take_block :: "pci_state \<Rightarrow> ptr \<times> pci_state" where
  "take_block s = (case ps_malloc s of [] \<Rightarrow> (None, s) | p # ps \<Rightarrow> (p, s\<lparr>ps_malloc := ps\<rparr>))"

definition log_event :: "pci_event \<Rightarrow> pci_state \<Rightarrow> pci_state" where
  "log_event e s = s\<lparr>ps_log := ps_log s @ [e]\<rparr>"

section \<open>Base address registers and mapped blocks\<close>

definition store_bar :: "pci_ba \<Rightarrow> pci_state \<Rightarrow> pci_state option" where
  "store_bar ba s = do {
     let (p, s1) = take_block s;
     a \<leftarrow> p;
     L \<leftarrow> append_cell ba a (ps_bars s1);
     Some (s1\<lparr>ps_bars := L\<rparr>) }"

definition in_bar :: "u64 \<Rightarrow> pci_ba \<Rightarrow> bool" where
  "in_bar a b \<longleftrightarrow> ba_addr b \<le> a \<and> a < ba_addr b + ba_size b"

definition get_bar :: "u64 \<Rightarrow> pci_state \<Rightarrow> ptr option" where
  "get_bar a s = find_first (in_bar a) (ps_bars s)"

definition store_block :: "u64 \<Rightarrow> u64 \<Rightarrow> pci_ba \<Rightarrow> pci_state \<Rightarrow> pci_state option" where
  "store_block a n ba s = do {
     let (p, s1) = take_block s;
     c \<leftarrow> p;
     L \<leftarrow> append_cell \<lparr>io_addr = a, io_size = n, io_ba = ba, io_managed = ps_junk s1\<rparr> c (ps_blocks s1);
     Some (s1\<lparr>ps_blocks := L\<rparr>) }"

definition get_block :: "u64 \<Rightarrow> pci_state \<Rightarrow> ptr option" where
  "get_block a s = find_first (\<lambda>b. io_addr b = a) (ps_blocks s)"

definition get_managed_block :: "pci_ba \<Rightarrow> pci_state \<Rightarrow> ptr option" where
  "get_managed_block ba s = find_first (\<lambda>b. ba_addr (io_ba b) = ba_addr ba \<and> io_managed b) (ps_blocks s)"

text \<open>The block is taken out of the list and its two pointers are cleared; it stays allocated.\<close>

definition remove_block :: "u64 \<Rightarrow> pci_state \<Rightarrow> (ptr \<times> pci_state) option" where
  "remove_block a s = do {
     loc \<leftarrow> get_block a s;
     (case loc of
        None \<Rightarrow> Some (None, s)
      | Some c \<Rightarrow> do {
          L1 \<leftarrow> unlink_walking c (ps_blocks s);
          L2 \<leftarrow> set_prev c None L1;
          L3 \<leftarrow> set_next c None L2;
          Some (Some c, s\<lparr>ps_blocks := L3\<rparr>) }) }"

section \<open>The lists\<close>

text \<open>\<open>bars s\<close> and \<open>blocks s\<close> as lists: what the two stores represent.\<close>

definition bars_are :: "pci_state \<Rightarrow> (addr \<times> pci_ba) list \<Rightarrow> bool" where
  "bars_are s bs \<longleftrightarrow> dl_rel Map.empty (ps_bars s) bs"

definition blocks_are :: "pci_state \<Rightarrow> (addr \<times> ioblock) list \<Rightarrow> bool" where
  "blocks_are s xs \<longleftrightarrow> dl_rel Map.empty (ps_blocks s) xs"

lemma take_block_simps [simp]:
  "ps_bars (snd (take_block s)) = ps_bars s" "ps_blocks (snd (take_block s)) = ps_blocks s"
  "ps_io (snd (take_block s)) = ps_io s" "ps_mem (snd (take_block s)) = ps_mem s"
  "ps_junk (snd (take_block s)) = ps_junk s" "ps_log (snd (take_block s)) = ps_log s"
  "ps_irqs (snd (take_block s)) = ps_irqs s" "ps_caps (snd (take_block s)) = ps_caps s"
  "io_port_addr_threshold (snd (take_block s)) = io_port_addr_threshold s"
  by (simp_all add: take_block_def split: list.splits)

lemma log_event_simps [simp]:
  "ps_bars (log_event e s) = ps_bars s" "ps_blocks (log_event e s) = ps_blocks s"
  "ps_io (log_event e s) = ps_io s" "ps_mem (log_event e s) = ps_mem s"
  "ps_junk (log_event e s) = ps_junk s" "ps_log (log_event e s) = ps_log s @ [e]"
  "ps_irqs (log_event e s) = ps_irqs s" "ps_caps (log_event e s) = ps_caps s"
  "ps_malloc (log_event e s) = ps_malloc s"
  "io_port_addr_threshold (log_event e s) = io_port_addr_threshold s"
  by (simp_all add: log_event_def)

lemma get_block_list:
  "blocks_are s xs \<Longrightarrow> get_block a s = Some (map_option fst (List.find (\<lambda>y. io_addr (snd y) = a) xs))"
  by (simp add: blocks_are_def get_block_def find_first_rel)

lemma get_managed_block_list:
  "blocks_are s xs \<Longrightarrow> get_managed_block ba s =
     Some (map_option fst (List.find (\<lambda>y. ba_addr (io_ba (snd y)) = ba_addr ba \<and> io_managed (snd y)) xs))"
  by (simp add: blocks_are_def get_managed_block_def find_first_rel)

lemma get_bar_list:
  "bars_are s bs \<Longrightarrow> get_bar a s = Some (map_option fst (List.find (\<lambda>y. in_bar a (snd y)) bs))"
  by (simp add: bars_are_def get_bar_def find_first_rel)

text \<open>The coming results of \<^verbatim>\<open>malloc\<close> are NULL or blocks that are not in use.\<close>

fun fresh_blocks :: "ptr list \<Rightarrow> addr set \<Rightarrow> bool" where
  "fresh_blocks [] A = True"
| "fresh_blocks (None # ps) A = fresh_blocks ps A"
| "fresh_blocks (Some a # ps) A = (a \<notin> A \<and> fresh_blocks ps (insert a A))"

lemma fresh_blocks_mono: "fresh_blocks ps A \<Longrightarrow> B \<subseteq> A \<Longrightarrow> fresh_blocks ps B"
proof (induction ps A arbitrary: B rule: fresh_blocks.induct)
  case (3 a ps A)
  have "fresh_blocks ps (insert a B)" by (rule "3.IH") (use "3.prems" in auto)
  then show ?case using "3.prems" by auto
qed auto

lemma fresh_take:
  assumes "fresh_blocks (ps_malloc s) A" and "take_block s = (p, s1)"
  shows "case p of None \<Rightarrow> fresh_blocks (ps_malloc s1) A
    | Some a \<Rightarrow> a \<notin> A \<and> fresh_blocks (ps_malloc s1) (insert a A)"
  using assms by (cases "ps_malloc s"; cases p) (auto simp: take_block_def)

lemma take_block_cases:
  assumes "take_block s = (p, s1)"
  obtains ps where "s1 = s\<lparr>ps_malloc := ps\<rparr>"
  using assms that [of "ps_malloc s"] that [of "tl (ps_malloc s)"]
  by (cases "ps_malloc s") (auto simp: take_block_def)

lemma store_bar_list:
  assumes "bars_are s bs" and "fresh_blocks (ps_malloc s) (fst ` set bs)" and "store_bar b s = Some s'"
  obtains a L ps where "s' = s\<lparr>ps_malloc := ps, ps_bars := L\<rparr>" and "dl_rel Map.empty L (bs @ [(a, b)])"
    and "fresh_blocks ps (fst ` set (bs @ [(a, b)]))"
proof -
  obtain p s1 where t: "take_block s = (p, s1)" by force
  obtain ps where s1: "s1 = s\<lparr>ps_malloc := ps\<rparr>" using take_block_cases [OF t] .
  obtain a where a: "p = Some a" using assms(3) t by (auto simp: store_bar_def split: bind_splits)
  have f: "a \<notin> fst ` set bs" "fresh_blocks ps (insert a (fst ` set bs))"
    using fresh_take [OF assms(2) t] a s1 by auto
  obtain L where L: "append_cell b a (ps_bars s) = Some L" "dl_rel Map.empty L (bs @ [(a, b)])"
    using dlist.add_law [OF _ f(1)] assms(1) unfolding bars_are_def by blast
  have "s' = s\<lparr>ps_malloc := ps, ps_bars := L\<rparr>"
    using assms(3) t a s1 L(1) by (simp add: store_bar_def)
  then show ?thesis using that L(2) f(2) by simp
qed

lemma store_block_list:
  assumes "blocks_are s xs" and "fresh_blocks (ps_malloc s) (fst ` set xs)"
    and "store_block a n ba s = Some s'"
  obtains c L ps where "s' = s\<lparr>ps_malloc := ps, ps_blocks := L\<rparr>" and "c \<notin> fst ` set xs"
    and "dl_rel Map.empty L (xs @ [(c, \<lparr>io_addr = a, io_size = n, io_ba = ba, io_managed = ps_junk s\<rparr>)])"
    and "fresh_blocks ps (insert c (fst ` set xs))"
proof -
  let ?b = "\<lparr>io_addr = a, io_size = n, io_ba = ba, io_managed = ps_junk s\<rparr>"
  obtain p s1 where t: "take_block s = (p, s1)" by force
  obtain ps where s1: "s1 = s\<lparr>ps_malloc := ps\<rparr>" using take_block_cases [OF t] .
  obtain c where c: "p = Some c" using assms(3) t by (auto simp: store_block_def split: bind_splits)
  have f: "c \<notin> fst ` set xs" "fresh_blocks ps (insert c (fst ` set xs))"
    using fresh_take [OF assms(2) t] c s1 by auto
  obtain L where L: "append_cell ?b c (ps_blocks s) = Some L" "dl_rel Map.empty L (xs @ [(c, ?b)])"
    using dlist.add_law [OF _ f(1)] assms(1) unfolding blocks_are_def by blast
  have "s' = s\<lparr>ps_malloc := ps, ps_blocks := L\<rparr>"
    using assms(3) t c s1 L(1) by (simp add: store_block_def)
  then show ?thesis using that L(2) f by simp
qed

lemma store_block_returns:
  assumes "blocks_are s xs" and "fresh_blocks (ps_malloc s) (fst ` set xs)" and "ps_malloc s = Some c # ps"
  shows "\<exists>s'. store_block a n ba s = Some s'"
proof -
  have f: "c \<notin> fst ` set xs" using assms(2,3) by simp
  obtain L where "append_cell \<lparr>io_addr = a, io_size = n, io_ba = ba, io_managed = ps_junk s\<rparr> c (ps_blocks s) = Some L"
    using dlist.add_law [OF _ f] assms(1) unfolding blocks_are_def by blast
  then show ?thesis using assms(3) by (simp add: store_block_def take_block_def)
qed

lemma unlink_cell_keeps:
  assumes "unlink_cell a L = Some L1" and "dl_cells L a = Some c"
  shows "\<exists>c'. dl_cells L1 a = Some c' \<and> c_item c' = c_item c"
  using assms
  by (auto simp: unlink_cell_def set_next_def set_prev_def split: option.splits bind_splits if_splits)

text \<open>The block that is taken out of the list keeps its contents until it is freed.\<close>

lemma remove_block_list:
  assumes "blocks_are s xs" and "find (\<lambda>y. io_addr (snd y) = a) xs = Some (c, b)"
  obtains L where "remove_block a s = Some (Some c, s\<lparr>ps_blocks := L\<rparr>)" and "cell_item c L = Some b"
    and "dl_rel Map.empty (free_cell c L) (filter (\<lambda>y. fst y \<noteq> c) xs)"
proof -
  let ?L = "ps_blocks s"
  have r: "dl_rel Map.empty ?L xs" using assms(1) by (simp add: blocks_are_def)
  have m: "(c, b) \<in> set xs" using assms(2) by (induction xs) (auto split: if_splits)
  have "cell_item c ?L = Some b" using dl_rel_item [OF r m] .
  then obtain cl where cl: "dl_cells ?L c = Some cl" "c_item cl = b" by (auto simp: cell_item_def)
  have "c \<in> fst ` set xs" using m by force
  then obtain D where D: "delete_cell c ?L = Some D" "dl_rel Map.empty D (filter (\<lambda>y. fst y \<noteq> c) xs)"
    using dlist.del_law [OF r] by blast
  obtain L1 where L1: "unlink_cell c ?L = Some L1" "D = free_cell c L1"
    using D(1) by (auto simp: delete_cell_def split: bind_splits)
  obtain cl1 where cl1: "dl_cells L1 c = Some cl1" "c_item cl1 = b"
    using unlink_cell_keeps [OF L1(1) cl(1)] cl(2) by blast
  let ?M = "L1\<lparr>dl_cells := (dl_cells L1)(c \<mapsto> cl1\<lparr>c_prev := None, c_next := None\<rparr>)\<rparr>"
  have "get_block a s = Some (Some c)" using get_block_list [OF assms(1)] assms(2) by simp
  then have "remove_block a s = Some (Some c, s\<lparr>ps_blocks := ?M\<rparr>)"
    using L1(1) cl1(1) by (simp add: remove_block_def unlink_walking_eq set_prev_def set_next_def)
  moreover have "cell_item c ?M = Some b" using cl1(2) by (simp add: cell_item_def)
  moreover have "dl_rel Map.empty (free_cell c ?M) (filter (\<lambda>y. fst y \<noteq> c) xs)"
    using D(2) by (simp add: L1(2) free_cell_def)
  ultimately show ?thesis by (rule that)
qed

lemma remove_block_absent:
  "blocks_are s xs \<Longrightarrow> find (\<lambda>y. io_addr (snd y) = a) xs = None \<Longrightarrow> remove_block a s = Some (None, s)"
  by (simp add: remove_block_def get_block_list)

section \<open>A sample machine\<close>

text \<open>
  One Advantech card with two channels behind an I/O base address register, with a PCIe and an MSI
  capability, on a machine where every call succeeds.
\<close>

definition sample_ba :: pci_ba where
  "sample_ba = \<lparr>ba_addr = 0xD000, ba_size = 0x1000, ba_type = AS_IO\<rparr>"

definition sample_lib :: pci_lib where
  "sample_lib = \<lparr>q_find = (\<lambda>i ids. if i = 0 then Some 7 else None),
     q_vid = (\<lambda>b. Some 0x13FE), q_did = (\<lambda>b. Some 0xC302), q_attach = (\<lambda>b. (PCI_ERR_OK, Some 1)),
     q_ssvid = (\<lambda>b. (PCI_ERR_OK, 0x13FE)), q_ssid = (\<lambda>b. (PCI_ERR_OK, 0xC302)), q_devfn = (\<lambda>b. 8),
     q_bdf = map_option (\<lambda>h. 7), q_ba = (\<lambda>h. Some [sample_ba]), q_irq = (\<lambda>h. Some [5]),
     q_find_capid = (\<lambda>b c. if c = 0x10 then Some 0 else if c = 0x05 then Some 1 else None),
     q_read_cap = (\<lambda>b i. (PCI_ERR_OK, Some (100 + i))), q_find_xtnd = (\<lambda>a c. None),
     q_read_xtnd = (\<lambda>a i. (PCI_ERR_ENOTSUP, None)), q_cap_enable = (\<lambda>h c. PCI_ERR_OK),
     q_cap_disable = (\<lambda>h c. PCI_ERR_OK), q_cap_isenabled = (\<lambda>h c. True),
     q_msix_nirq = (\<lambda>c. 0), q_msi_nirq = (\<lambda>c. 1), q_msix_entry = (\<lambda>h c i. PCI_ERR_OK),
     q_msi_set_nirq = (\<lambda>h c n. PCI_ERR_OK), q_msi_mask = (\<lambda>h c. PCI_ERR_ENOTSUP),
     q_mmap_mem = (\<lambda>n a. if a < 0x100000000 \<and> n < 0x100000000 then Some (a + 0x7F0000000000) else None), q_mmap_io = (\<lambda>n a. Some a)\<rparr>"

definition sample_pdev :: pci_dev where
  "sample_pdev = \<lparr>pd_hdl = None, pd_ba = None, pd_msi_cap = None, pd_pcie_cap = None, pd_is_msi = False,
     pd_is_msix = False, pd_addr = [], pd_devfn = 0, pd_vendor = 0x13FE, pd_device = 0xC302,
     pd_subsystem_vendor = 0, pd_subsystem_device = 0, pd_drvdata = None, pd_irq = 0, pd_is_managed = False\<rparr>"

definition sample_pci :: pci_state where
  "sample_pci = \<lparr>ps_bars = dl_empty, ps_blocks = dl_empty, ps_io = (0, 0), ps_mem = (0, 0),
     io_port_addr_threshold = 0, ps_irqs = \<lparr>grp_base = None, grp = [], irq_to_group = []\<rparr>, ps_caps = [],
     ps_malloc = map Some [200..<220], ps_junk = True, ps_log = []\<rparr>"

end
