(* ===== verification/Pci_Capability.thy ===== *)
theory Pci_Capability
  imports Pci_Dev
begin

unbundle bit_operations_syntax

text \<open>
  Capabilities of a PCI device: \<^verbatim>\<open>src/src/pci-capability.c\<close>. A device that is enabled gets its PCIe
  capability and one way of message-signalled interrupts, MSI-X or MSI, by the options of the
  program and by what the device has. The cascade of searches is shown to take the first entry of
  a list of preferences, and the two functions that switch the capabilities on and off to undo
  each other.
\<close>

section \<open>Switching on and off\<close>

definition CAPID_MSI :: nat where "CAPID_MSI = 0x05"
definition CAPID_PCIe :: nat where "CAPID_PCIe = 0x10"
definition CAPID_MSIX :: nat where "CAPID_MSIX = 0x11"

lemmas capid_defs = CAPID_MSI_def CAPID_PCIe_def CAPID_MSIX_def

text \<open>A capability structure the library has allocated, and \<^verbatim>\<open>free\<close> of one.\<close>

definition hand_out :: "ptr \<Rightarrow> pci_state \<Rightarrow> pci_state" where
  "hand_out c s = (case c of None \<Rightarrow> s | Some a \<Rightarrow> s\<lparr>ps_caps := a # ps_caps s\<rparr>)"

definition free_cap :: "addr \<Rightarrow> pci_state \<Rightarrow> pci_state option" where
  "free_cap a s = (if a \<in> set (ps_caps s) then Some (s\<lparr>ps_caps := remove1 a (ps_caps s)\<rparr>) else None)"

definition cap_on :: "ptr \<Rightarrow> pci_state \<Rightarrow> pci_state" where
  "cap_on c s = (case c of None \<Rightarrow> s | Some a \<Rightarrow> log_event (Ev_cap_on a) s)"

text \<open>The interrupts of an MSI-X capability are unmasked; the result of the library is only logged.\<close>

definition unmask_all :: "ptr \<Rightarrow> pci_state \<Rightarrow> pci_state" where
  "unmask_all c s = (case c of None \<Rightarrow> s | Some a \<Rightarrow> log_event (Ev_unmask_all a) s)"

definition pcie_init :: "pci_lib \<Rightarrow> pci_dev \<Rightarrow> pci_state \<Rightarrow> pci_err \<times> pci_dev \<times> pci_state" where
  "pcie_init L dev s =
     (case q_find_capid L (q_bdf L (pd_hdl dev)) CAPID_PCIe of
        None \<Rightarrow> (PCI_ERR_ENOTSUP, dev, s)
      | Some i \<Rightarrow>
          (let (r, c) = q_read_cap L (q_bdf L (pd_hdl dev)) i; dev1 = dev\<lparr>pd_pcie_cap := c\<rparr> in
           if r \<noteq> PCI_ERR_OK then (r, dev1, s)
           else let s1 = hand_out c s; r1 = q_cap_enable L (pd_hdl dev) c in
             if r1 \<noteq> PCI_ERR_OK \<and> r1 \<noteq> PCI_ERR_EALREADY then (r1, dev1, s1)
             else (PCI_ERR_OK, dev1, cap_on c s1)))"

definition pcie_uninit :: "pci_lib \<Rightarrow> pci_dev \<Rightarrow> pci_state \<Rightarrow> (pci_dev \<times> pci_state) option" where
  "pcie_uninit L dev s =
     (case pd_pcie_cap dev of
        None \<Rightarrow> Some (dev, s)
      | Some c \<Rightarrow>
          if \<not> q_cap_isenabled L (pd_hdl dev) (Some c) then Some (dev, s)
          else do {
            s1 \<leftarrow> free_cap c (if q_cap_disable L (pd_hdl dev) (Some c) = PCI_ERR_OK then log_event (Ev_cap_off c) s else s);
            Some (dev\<lparr>pd_pcie_cap := None\<rparr>, s1) })"

definition msix_uninit :: "pci_lib \<Rightarrow> pci_dev \<Rightarrow> pci_state \<Rightarrow> (pci_dev \<times> pci_state) option" where
  "msix_uninit L dev s =
     (case pd_msi_cap dev of
        None \<Rightarrow> Some (dev, s)
      | Some c \<Rightarrow>
          if \<not> q_cap_isenabled L (pd_hdl dev) (Some c) then Some (dev, s)
          else do {
            s1 \<leftarrow> free_cap c (if q_cap_disable L (pd_hdl dev) (Some c) = PCI_ERR_OK then log_event (Ev_cap_off c) s else s);
            pcie_uninit L (dev\<lparr>pd_msi_cap := None\<rparr>) s1 })"

text \<open>The four loops over the options. MSI is on and MSI-X off by default; disabling comes last.\<close>

definition config_for :: "pci_dev \<Rightarrow> nat \<Rightarrow> device_config \<Rightarrow> bool" where
  "config_for dev capid c \<longleftrightarrow>
     dc_vid c = uint (pd_vendor dev) \<and> dc_did c = uint (pd_device dev) \<and> dc_cap c = int capid"

definition disabled_msi :: "options \<Rightarrow> pci_dev \<Rightarrow> bool" where
  "disabled_msi o1 dev \<longleftrightarrow> list_ex (config_for dev CAPID_MSI) (disable_device_config o1)"

definition disabled_msix :: "options \<Rightarrow> pci_dev \<Rightarrow> bool" where
  "disabled_msix o1 dev \<longleftrightarrow>
     \<not> list_ex (config_for dev CAPID_MSIX) (enable_device_cap_config o1) \<or>
     list_ex (config_for dev CAPID_MSIX) (disable_device_config o1)"

text \<open>
  The searches: the capability, its index if there is one, and whether it is an extended one. A
  pointer to a PCIe capability that the library did not hand out must not be used.
\<close>

definition find_msi :: "pci_lib \<Rightarrow> bool \<Rightarrow> bool \<Rightarrow> pci_dev \<Rightarrow> pci_state \<Rightarrow> (nat \<times> nat option \<times> bool) option" where
  "find_msi L no_msi no_msix dev s =
     (let xtnd = (\<lambda>capid. case pd_pcie_cap dev of None \<Rightarrow> None | Some c \<Rightarrow> q_find_xtnd L c capid);
          plain = q_find_capid L (q_bdf L (pd_hdl dev));
          has = (pd_pcie_cap dev \<noteq> None);
          (c1, i1) = (if \<not> no_msix \<and> has then (CAPID_MSIX, xtnd CAPID_MSIX) else (0, None));
          (c2, i2) = (if \<not> no_msi \<and> i1 = None \<and> has then (CAPID_MSI, xtnd CAPID_MSI) else (c1, i1));
          (c3, i3) = (if \<not> no_msix then (CAPID_MSIX, plain CAPID_MSIX) else (c2, i2));
          (c4, i4) = (if \<not> no_msi \<and> i3 = None then (CAPID_MSI, plain CAPID_MSI) else (c3, i3))
      in if (\<not> no_msix \<or> \<not> no_msi) \<and> has \<and> the (pd_pcie_cap dev) \<notin> set (ps_caps s) then None
         else Some (if i2 = None then (c4, i4, False) else (c2, i2, True)))"

text \<open>The interrupt vectors: all of them are set up, then the capability is enabled.\<close>

definition program_vectors :: "pci_lib \<Rightarrow> nat \<Rightarrow> pci_dev \<Rightarrow> pci_err" where
  "program_vectors L capid dev =
     (let h = pd_hdl dev; c = pd_msi_cap dev;
          nvecs = (if capid = CAPID_MSIX then q_msix_nirq L c else q_msi_nirq L c);
          r = (if capid = CAPID_MSIX
               then (case find (\<lambda>r. r \<noteq> PCI_ERR_OK) (map (q_msix_entry L h c) [0..<nvecs]) of
                       None \<Rightarrow> PCI_ERR_OK | Some r \<Rightarrow> r)
               else q_msi_set_nirq L h c nvecs)
      in if nvecs < 1 then PCI_ERR_ENOTSUP
         else if r \<noteq> PCI_ERR_OK then r
         else q_cap_enable L h c)"

definition msix_init ::
  "pci_lib \<Rightarrow> options \<Rightarrow> pci_dev \<Rightarrow> pci_state \<Rightarrow> (pci_err \<times> pci_dev \<times> pci_state) option" where
  "msix_init L o1 dev s = do {
     let (r0, dev0, s0) = pcie_init L dev s;
     let dev1 = dev0\<lparr>pd_msi_cap := None\<rparr>;
     (capid, idx, xtnd) \<leftarrow> find_msi L (disabled_msi o1 dev1) (disabled_msix o1 dev1) dev1 s0;
     (case idx of
        None \<Rightarrow> Some (PCI_ERR_ENOTSUP, dev1, s0)
      | Some i \<Rightarrow> do {
          let (r, c) = (if xtnd then q_read_xtnd L (the (pd_pcie_cap dev1)) i
                        else q_read_cap L (q_bdf L (pd_hdl dev1)) i);
          let dev2 = dev1\<lparr>pd_msi_cap := c\<rparr>;
          if r \<noteq> PCI_ERR_OK then Some (r, dev2, s0)
          else do {
            let s1 = hand_out c s0;
            let r1 = program_vectors L capid dev2;
            if r1 \<noteq> PCI_ERR_OK then Some (r1, dev2, s1)
            else do {
              let s2 = cap_on c s1;
              if capid = CAPID_MSIX then Some (PCI_ERR_OK, dev2\<lparr>pd_is_msix := True\<rparr>, unmask_all c s2)
              else do {
                let r2 = q_msi_mask L (pd_hdl dev2) c;
                if r2 = PCI_ERR_OK \<or> r2 = PCI_ERR_ENOTSUP
                then Some (PCI_ERR_OK, dev2\<lparr>pd_is_msi := (r2 = PCI_ERR_OK), pd_is_msix := False\<rparr>, s2)
                else do {
                  (dev3, s3) \<leftarrow> msix_uninit L (dev2\<lparr>pd_is_msi := True\<rparr>) s2;
                  Some (r2, dev3, s3) } } } } }) }"

section \<open>The choice\<close>

text \<open>
  What the options and the device allow, in the order of preference: extended capabilities come
  before regular ones, MSI-X before MSI. An entry says whether it is extended, which capability
  it is and where the device has it.
\<close>

definition preferences :: "pci_lib \<Rightarrow> bool \<Rightarrow> bool \<Rightarrow> pci_dev \<Rightarrow> (bool \<times> nat \<times> nat) list" where
  "preferences L no_msi no_msix dev =
     (let entry = (\<lambda>x capid i. case i of None \<Rightarrow> [] | Some k \<Rightarrow> [(x, capid, k)]);
          xtnd = (\<lambda>capid. case pd_pcie_cap dev of None \<Rightarrow> [] | Some c \<Rightarrow> entry True capid (q_find_xtnd L c capid));
          plain = (\<lambda>capid. entry False capid (q_find_capid L (q_bdf L (pd_hdl dev)) capid))
      in (if no_msix then [] else xtnd CAPID_MSIX) @ (if no_msi then [] else xtnd CAPID_MSI) @
         (if no_msix then [] else plain CAPID_MSIX) @ (if no_msi then [] else plain CAPID_MSI))"

definition pcie_usable :: "pci_dev \<Rightarrow> pci_state \<Rightarrow> bool" where
  "pcie_usable dev s \<longleftrightarrow> (case pd_pcie_cap dev of None \<Rightarrow> True | Some c \<Rightarrow> c \<in> set (ps_caps s))"

lemma find_msi_preferences:
  assumes "pcie_usable dev s"
  shows "\<exists>capid idx x. find_msi L no_msi no_msix dev s = Some (capid, idx, x) \<and>
    (case preferences L no_msi no_msix dev of
       [] \<Rightarrow> idx = None
     | (x', c', k') # ps \<Rightarrow> idx = Some k' \<and> capid = c' \<and> x = x')"
  using assms
  by (cases no_msi; cases no_msix; cases "pd_pcie_cap dev")
     (auto simp: find_msi_def preferences_def pcie_usable_def Let_def capid_defs split: option.splits)

lemma preferences_allowed:
  assumes "(x, capid, k) \<in> set (preferences L no_msi no_msix dev)"
  shows "capid = CAPID_MSIX \<and> \<not> no_msix \<or> capid = CAPID_MSI \<and> \<not> no_msi"
  using assms by (auto simp: preferences_def Let_def split: if_splits option.splits)

lemma cap_list_simps [simp]:
  "ps_caps (cap_on c s) = ps_caps s" "ps_caps (hand_out None s) = ps_caps s"
  "ps_caps (hand_out (Some a) s) = a # ps_caps s"
  by (simp_all add: cap_on_def hand_out_def split: option.splits)

lemma config_for_same:
  "config_for (dev\<lparr>pd_msi_cap := c\<rparr>) = config_for dev" "config_for (dev\<lparr>pd_pcie_cap := c\<rparr>) = config_for dev"
  by (simp_all add: config_for_def fun_eq_iff)

lemma disabled_same [simp]:
  "disabled_msi o1 (dev\<lparr>pd_msi_cap := c\<rparr>) = disabled_msi o1 dev"
  "disabled_msix o1 (dev\<lparr>pd_msi_cap := c\<rparr>) = disabled_msix o1 dev"
  "disabled_msi o1 (dev\<lparr>pd_pcie_cap := c\<rparr>) = disabled_msi o1 dev"
  "disabled_msix o1 (dev\<lparr>pd_pcie_cap := c\<rparr>) = disabled_msix o1 dev"
  by (simp_all add: disabled_msi_def disabled_msix_def config_for_same)

lemma preferences_same [simp]:
  "preferences L a b (dev\<lparr>pd_msi_cap := c\<rparr>) = preferences L a b dev"
  "pcie_usable (dev\<lparr>pd_msi_cap := c\<rparr>) s = pcie_usable dev s"
  by (simp_all add: preferences_def pcie_usable_def)

lemma pcie_init_dev:
  "pcie_init L dev s = (r, dev0, s0) \<Longrightarrow> dev0 = dev\<lparr>pd_pcie_cap := pd_pcie_cap dev0\<rparr>"
  by (auto simp: pcie_init_def Let_def split: option.splits if_splits prod.splits)

text \<open>
  Taking the two structures back: each pointer that is freed was handed out, so the call returns,
  and the list of structures in use is what it was before.
\<close>

lemma pcie_uninit_frees:
  assumes "pcie_usable dev s" and "q_cap_isenabled L (pd_hdl dev) (pd_pcie_cap dev)"
  shows "\<exists>s'. pcie_uninit L dev s = Some (dev\<lparr>pd_pcie_cap := None\<rparr>, s') \<and>
    ps_caps s' = (case pd_pcie_cap dev of None \<Rightarrow> ps_caps s | Some c \<Rightarrow> remove1 c (ps_caps s))"
  using assms by (cases "pd_pcie_cap dev") (auto simp: pcie_uninit_def pcie_usable_def free_cap_def)

lemma msix_uninit_frees:
  assumes "pd_msi_cap dev = Some c" and "ps_caps s = c # cs"
    and "case pd_pcie_cap dev of None \<Rightarrow> True | Some p \<Rightarrow> p \<in> set cs"
    and "q_cap_isenabled L (pd_hdl dev) (Some c)" and "q_cap_isenabled L (pd_hdl dev) (pd_pcie_cap dev)"
  shows "\<exists>s'. msix_uninit L dev s = Some (dev\<lparr>pd_msi_cap := None, pd_pcie_cap := None\<rparr>, s') \<and>
    ps_caps s' = (case pd_pcie_cap dev of None \<Rightarrow> cs | Some p \<Rightarrow> remove1 p cs)"
proof -
  let ?s = "if q_cap_disable L (pd_hdl dev) (Some c) = PCI_ERR_OK then log_event (Ev_cap_off c) s else s"
  let ?sm = "?s\<lparr>ps_caps := cs\<rparr>"
  have f: "free_cap c ?s = Some ?sm" using assms(2) by (simp add: free_cap_def)
  have "pcie_usable (dev\<lparr>pd_msi_cap := None\<rparr>) ?sm"
    using assms(3) by (cases "pd_pcie_cap dev") (simp_all add: pcie_usable_def)
  then show ?thesis
    using pcie_uninit_frees [of "dev\<lparr>pd_msi_cap := None\<rparr>" ?sm L] assms(1,4,5) f
    by (cases "pd_pcie_cap dev") (auto simp: msix_uninit_def)
qed

lemma msix_uninit_returns:
  assumes "pcie_usable dev s0" and "ps_caps s = ps_caps (hand_out (pd_msi_cap dev) s0)"
  shows "\<exists>r. msix_uninit L dev s = Some r"
proof (cases "pd_msi_cap dev")
  case (Some c)
  then have s: "ps_caps s = c # ps_caps s0" using assms(2) by simp
  show ?thesis
    using assms(1) s Some
    by (cases "pd_pcie_cap dev") (auto simp: msix_uninit_def pcie_uninit_def free_cap_def pcie_usable_def)
qed (simp add: msix_uninit_def)

definition chosen_cap :: "pci_lib \<Rightarrow> pci_dev \<Rightarrow> bool \<Rightarrow> nat \<Rightarrow> pci_err \<times> ptr" where
  "chosen_cap L dev x k =
     (if x then q_read_xtnd L (the (pd_pcie_cap dev)) k else q_read_cap L (q_bdf L (pd_hdl dev)) k)"

lemma msix_init_found:
  assumes i: "pcie_init L dev s = (r0, dev0, s0)" and u: "pcie_usable dev0 s0"
    and ps: "preferences L (disabled_msi o1 dev) (disabled_msix o1 dev) dev0 = (x, capid, k) # ps"
  shows "\<exists>r dev' s'. msix_init L o1 dev s = Some (r, dev', s') \<and>
    (r = PCI_ERR_OK \<longrightarrow> (\<exists>c. chosen_cap L dev0 x k = (PCI_ERR_OK, c) \<and>
       s' = (if capid = CAPID_MSIX then unmask_all c else id) (cap_on c (hand_out c s0)) \<and>
       pd_msi_cap dev' = c \<and> pd_is_msix dev' = (capid = CAPID_MSIX) \<and> pd_pcie_cap dev' = pd_pcie_cap dev0))"
proof -
  let ?pdev = "dev0\<lparr>pd_msi_cap := None\<rparr>"
  have d0: "disabled_msi o1 ?pdev = disabled_msi o1 dev" "disabled_msix o1 ?pdev = disabled_msix o1 dev"
    using pcie_init_dev [OF i] by (metis disabled_same)+
  have f: "find_msi L (disabled_msi o1 dev) (disabled_msix o1 dev) ?pdev s0 = Some (capid, Some k, x)"
    using find_msi_preferences [of ?pdev s0 L "disabled_msi o1 dev" "disabled_msix o1 dev"] u ps by auto
  obtain r c where rc: "chosen_cap L dev0 x k = (r, c)" by force
  let ?mdev = "dev0\<lparr>pd_msi_cap := c\<rparr>" and ?sm = "hand_out c s0"
  have e: "msix_init L o1 dev s =
     (if r \<noteq> PCI_ERR_OK then Some (r, ?mdev, s0)
      else if program_vectors L capid ?mdev \<noteq> PCI_ERR_OK then Some (program_vectors L capid ?mdev, ?mdev, ?sm)
      else if capid = CAPID_MSIX then Some (PCI_ERR_OK, ?mdev\<lparr>pd_is_msix := True\<rparr>, unmask_all c (cap_on c ?sm))
      else if q_msi_mask L (pd_hdl dev0) c = PCI_ERR_OK \<or> q_msi_mask L (pd_hdl dev0) c = PCI_ERR_ENOTSUP
      then Some (PCI_ERR_OK, ?mdev\<lparr>pd_is_msi := (q_msi_mask L (pd_hdl dev0) c = PCI_ERR_OK), pd_is_msix := False\<rparr>,
             cap_on c ?sm)
      else do { (dev3, s3) \<leftarrow> msix_uninit L (?mdev\<lparr>pd_is_msi := True\<rparr>) (cap_on c ?sm);
                Some (q_msi_mask L (pd_hdl dev0) c, dev3, s3) })"
    using i f d0 rc by (cases x) (simp_all add: msix_init_def Let_def chosen_cap_def)
  have "\<exists>y. msix_uninit L (?mdev\<lparr>pd_is_msi := True\<rparr>) (cap_on c ?sm) = Some y"
    using msix_uninit_returns [of "?mdev\<lparr>pd_is_msi := True\<rparr>" s0] u by (simp add: pcie_usable_def)
  then show ?thesis using rc by (auto simp: e)
qed

lemma msix_init_none:
  assumes i: "pcie_init L dev s = (r0, dev0, s0)" and u: "pcie_usable dev0 s0"
    and ps: "preferences L (disabled_msi o1 dev) (disabled_msix o1 dev) dev0 = []"
  shows "msix_init L o1 dev s = Some (PCI_ERR_ENOTSUP, dev0\<lparr>pd_msi_cap := None\<rparr>, s0)"
proof -
  have d0: "disabled_msi o1 dev0 = disabled_msi o1 dev" "disabled_msix o1 dev0 = disabled_msix o1 dev"
    using pcie_init_dev [OF i] by (metis disabled_same)+
  show ?thesis
    using find_msi_preferences [of "dev0\<lparr>pd_msi_cap := None\<rparr>" s0 L "disabled_msi o1 dev" "disabled_msix o1 dev"]
      i u ps d0 by (auto simp: msix_init_def Let_def)
qed

text \<open>
  C37: \<^verbatim>\<open>msix_init\<close> returns whenever the pointer to the PCIe capability is NULL or one the library
  handed out. If it succeeds, the device uses the first capability of the list of preferences
  (extended before regular, MSI-X before MSI), the list contains MSI-X only if the options enable
  and do not disable it for this device and MSI only if they do not disable it, exactly that
  capability has been switched on (and unmasked, if it is MSI-X), and \<^verbatim>\<open>is_msix\<close> tells which of
  the two it is. With an empty list
  it reports that nothing is supported and the device has no such capability.
\<close>

theorem msix_init_choice:
  assumes "pcie_init L dev s = (r0, dev0, s0)" and "pcie_usable dev0 s0"
    and "ps = preferences L (disabled_msi o1 dev) (disabled_msix o1 dev) dev0"
  shows "\<exists>r dev' s'. msix_init L o1 dev s = Some (r, dev', s') \<and>
    (ps = [] \<longrightarrow> r = PCI_ERR_ENOTSUP \<and> pd_msi_cap dev' = None \<and> s' = s0) \<and>
    (r = PCI_ERR_OK \<longrightarrow> (\<exists>x capid k c. ps \<noteq> [] \<and> hd ps = (x, capid, k) \<and> chosen_cap L dev0 x k = (PCI_ERR_OK, c) \<and>
       pd_msi_cap dev' = c \<and> s' = (if capid = CAPID_MSIX then unmask_all c else id) (cap_on c (hand_out c s0)) \<and>
       pd_is_msix dev' = (capid = CAPID_MSIX) \<and>
       (if capid = CAPID_MSIX
        then list_ex (config_for dev CAPID_MSIX) (enable_device_cap_config o1) \<and>
             \<not> list_ex (config_for dev CAPID_MSIX) (disable_device_config o1)
        else capid = CAPID_MSI \<and> \<not> list_ex (config_for dev CAPID_MSI) (disable_device_config o1))))"
proof (cases ps)
  case Nil
  then show ?thesis using msix_init_none [OF assms(1,2)] assms(3) by auto
next
  case (Cons y qs)
  obtain x capid k where y: "y = (x, capid, k)" by (cases y)
  have "(x, capid, k) \<in> set (preferences L (disabled_msi o1 dev) (disabled_msix o1 dev) dev0)"
    using Cons y assms(3) by (metis list.set_intros(1))
  from preferences_allowed [OF this] show ?thesis
    using msix_init_found [OF assms(1,2), of o1 x capid k qs] Cons y assms(3)
    by (auto simp: disabled_msi_def disabled_msix_def capid_defs)
qed

theorem msix_init_choice_witness:
  "\<exists>dev' s'. msix_init sample_lib (initial_options 0 0 0) (sample_pdev\<lparr>pd_hdl := Some 1\<rparr>) sample_pci =
     Some (PCI_ERR_OK, dev', s') \<and> pd_msi_cap dev' = Some 101 \<and> \<not> pd_is_msix dev' \<and>
     ps_log s' = [Ev_cap_on 100, Ev_cap_on 101]"
proof -
  let ?dev = "sample_pdev\<lparr>pd_hdl := Some 1\<rparr>" and ?o = "initial_options 0 0 0"
  let ?pdev = "?dev\<lparr>pd_pcie_cap := Some 100\<rparr>" and ?spci = "cap_on (Some 100) (hand_out (Some 100) sample_pci)"
  have i: "pcie_init sample_lib ?dev sample_pci = (PCI_ERR_OK, ?pdev, ?spci)"
    by (simp add: pcie_init_def sample_lib_def sample_pdev_def CAPID_PCIe_def)
  have u: "pcie_usable ?pdev ?spci" by (simp add: pcie_usable_def)
  have p: "[(False, CAPID_MSI, 1)] =
      preferences sample_lib (disabled_msi ?o ?dev) (disabled_msix ?o ?dev) ?pdev"
    by (simp add: preferences_def disabled_msi_def disabled_msix_def initial_options_def sample_lib_def
        sample_pdev_def capid_defs)
  have "fst (the (msix_init sample_lib ?o ?dev sample_pci)) = PCI_ERR_OK"
    using i by (simp add: msix_init_def find_msi_def disabled_msi_def disabled_msix_def initial_options_def
        sample_lib_def sample_pdev_def capid_defs program_vectors_def)
  moreover have "chosen_cap sample_lib ?pdev False 1 = (PCI_ERR_OK, Some 101)"
    by (simp add: chosen_cap_def sample_lib_def)
  moreover have "ps_log (cap_on (Some 101) (hand_out (Some 101) ?spci)) = [Ev_cap_on 100, Ev_cap_on 101]"
    by (simp add: cap_on_def hand_out_def sample_pci_def)
  moreover have "CAPID_MSI \<noteq> CAPID_MSIX" by (simp add: capid_defs)
  ultimately show ?thesis using msix_init_choice [OF i u p] by auto
qed

text \<open>A read of the PCIe capability that fails hands out nothing.\<close>

lemma pcie_init_caps:
  assumes "pcie_init L dev s = (r0, dev0, s0)" and "pd_pcie_cap dev = None"
    and "\<forall>b i. fst (q_read_cap L b i) = PCI_ERR_OK \<or> snd (q_read_cap L b i) = None"
  shows "ps_caps s0 = (case pd_pcie_cap dev0 of None \<Rightarrow> ps_caps s | Some p \<Rightarrow> p # ps_caps s)"
proof (cases "q_find_capid L (q_bdf L (pd_hdl dev)) CAPID_PCIe")
  case (Some i)
  obtain r c where "q_read_cap L (q_bdf L (pd_hdl dev)) i = (r, c)" by force
  moreover have "r = PCI_ERR_OK \<or> c = None"
    using assms(3) [rule_format, of "q_bdf L (pd_hdl dev)" i] calculation by simp
  ultimately show ?thesis
    using assms(1,2) Some by (cases c) (auto simp: pcie_init_def Let_def split: if_splits)
qed (use assms(1,2) in \<open>simp add: pcie_init_def\<close>)

text \<open>
  C38: Switching off what \<^verbatim>\<open>msix_init\<close> switched on: for a device whose PCIe pointer was NULL before,
  and with a library whose failed reads hand out nothing and that reports the capabilities of the
  device as enabled, \<^verbatim>\<open>msix_uninit\<close> returns, clears both pointers and frees exactly the structures
  that were handed out.
\<close>

theorem msix_init_uninit:
  assumes "msix_init L o1 dev s = Some (PCI_ERR_OK, dev', s')" and "pd_pcie_cap dev = None"
    and "\<forall>b i. fst (q_read_cap L b i) = PCI_ERR_OK \<or> snd (q_read_cap L b i) = None"
    and "pd_msi_cap dev' = Some c" and "\<forall>x. q_cap_isenabled L (pd_hdl dev') x"
  shows "\<exists>s''. msix_uninit L dev' s' = Some (dev'\<lparr>pd_msi_cap := None, pd_pcie_cap := None\<rparr>, s'') \<and>
    ps_caps s'' = ps_caps s"
proof -
  obtain r0 dev0 s0 where i: "pcie_init L dev s = (r0, dev0, s0)" by (metis surj_pair)
  note caps = pcie_init_caps [OF i assms(2,3)]
  then have u: "pcie_usable dev0 s0" by (simp add: pcie_usable_def split: option.splits)
  let ?ps = "preferences L (disabled_msi o1 dev) (disabled_msix o1 dev) dev0"
  have "?ps \<noteq> []" using msix_init_none [OF i u] assms(1) by auto
  then obtain x capid k ps where "?ps = (x, capid, k) # ps" by (metis list.exhaust surj_pair)
  from msix_init_found [OF i u this] assms(1)
  have s': "s' = (if capid = CAPID_MSIX then unmask_all (Some c) else id) (cap_on (Some c) (hand_out (Some c) s0))"
    "pd_pcie_cap dev' = pd_pcie_cap dev0"
    using assms(4) by auto
  then have "ps_caps s' = c # ps_caps s0" by (simp add: unmask_all_def)
  then show ?thesis
    using msix_uninit_frees [OF assms(4), of s' "ps_caps s0" L] assms(5) caps s'(2)
    by (cases "pd_pcie_cap dev0") auto
qed

theorem msix_init_uninit_witness:
  "\<exists>dev' s' s''. msix_init sample_lib (initial_options 0 0 0) (sample_pdev\<lparr>pd_hdl := Some 1\<rparr>) sample_pci =
     Some (PCI_ERR_OK, dev', s') \<and> ps_caps s' = [101, 100] \<and>
     msix_uninit sample_lib dev' s' = Some (dev'\<lparr>pd_msi_cap := None, pd_pcie_cap := None\<rparr>, s'') \<and>
     ps_caps s'' = []"
proof -
  let ?dev = "sample_pdev\<lparr>pd_hdl := Some 1\<rparr>" and ?o = "initial_options 0 0 0"
  obtain dev' s' where m: "msix_init sample_lib ?o ?dev sample_pci = Some (PCI_ERR_OK, dev', s')"
    "pd_msi_cap dev' = Some 101" "ps_caps s' = [101, 100]"
    by (simp add: msix_init_def pcie_init_def find_msi_def disabled_msi_def disabled_msix_def
        initial_options_def sample_lib_def sample_pdev_def capid_defs program_vectors_def sample_pci_def)
  have h: "pd_pcie_cap ?dev = None" "\<forall>x. q_cap_isenabled sample_lib (pd_hdl dev') x"
    "\<forall>b i. fst (q_read_cap sample_lib b i) = PCI_ERR_OK \<or> snd (q_read_cap sample_lib b i) = None"
    by (simp_all add: sample_pdev_def sample_lib_def)
  have "ps_caps sample_pci = []" by (simp add: sample_pci_def)
  then show ?thesis using msix_init_uninit [OF m(1) h(1,3) m(2) h(2)] m by auto
qed

text \<open>
  A device without a PCIe capability keeps the pointer it was allocated with. As the allocation
  does not clear it, the search may follow a pointer that never was one.
\<close>

lemma msix_init_wild_pointer:
  assumes "q_find_capid L (q_bdf L (pd_hdl dev)) CAPID_PCIe = None" and "pd_pcie_cap dev = Some p"
    and "p \<notin> set (ps_caps s)" and "\<not> disabled_msi o1 dev"
  shows "msix_init L o1 dev s = None"
  using assms by (simp add: msix_init_def pcie_init_def find_msi_def Let_def)

section \<open>What the capabilities leave alone\<close>

text \<open>Only the structures handed out and the trace of events change.\<close>

definition same_maps :: "pci_state \<Rightarrow> pci_state \<Rightarrow> bool" where
  "same_maps s s' \<longleftrightarrow> ps_bars s' = ps_bars s \<and> ps_blocks s' = ps_blocks s \<and> ps_io s' = ps_io s \<and>
     ps_mem s' = ps_mem s \<and> io_port_addr_threshold s' = io_port_addr_threshold s \<and>
     ps_irqs s' = ps_irqs s \<and> ps_malloc s' = ps_malloc s \<and> ps_junk s' = ps_junk s"

lemma same_maps_refl [simp]: "same_maps s s"
  by (simp add: same_maps_def)

lemma same_maps_trans: "same_maps s t \<Longrightarrow> same_maps t u \<Longrightarrow> same_maps s u"
  by (simp add: same_maps_def)

lemma same_maps_steps [simp]:
  "same_maps t (log_event e s) = same_maps t s" "same_maps t (hand_out c s) = same_maps t s"
  "same_maps t (cap_on c s) = same_maps t s" "same_maps t (unmask_all c s) = same_maps t s" "same_maps t (s\<lparr>ps_caps := cs\<rparr>) = same_maps t s"
  "same_maps (log_event e s) t = same_maps s t" "same_maps (hand_out c s) t = same_maps s t"
  "same_maps (cap_on c s) t = same_maps s t" "same_maps (s\<lparr>ps_caps := cs\<rparr>) t = same_maps s t"
  by (simp_all add: same_maps_def log_event_def hand_out_def cap_on_def unmask_all_def split: option.splits)

lemma pcie_init_maps: "pcie_init L dev s = (r, dev', s') \<Longrightarrow> same_maps s s'"
  by (auto simp: pcie_init_def Let_def split: option.splits if_splits prod.splits)

lemma free_cap_maps:
  "free_cap c s = Some s' \<Longrightarrow> same_maps t s' = same_maps t s \<and> same_maps s' t = same_maps s t"
  by (auto simp: free_cap_def split: if_splits)

lemma pcie_uninit_maps: "pcie_uninit L dev s = Some (dev', s') \<Longrightarrow> same_maps s s'"
  by (auto simp: pcie_uninit_def free_cap_maps split: option.splits if_splits bind_splits)

lemma msix_uninit_maps: "msix_uninit L dev s = Some (dev', s') \<Longrightarrow> same_maps s s'"
  by (auto simp: msix_uninit_def free_cap_maps split: option.splits if_splits bind_splits
      dest!: pcie_uninit_maps)

lemma msix_init_maps:
  assumes "msix_init L o1 dev s = Some (r, dev', s')"
  shows "same_maps s s'"
proof -
  obtain r0 dev0 s0 where i: "pcie_init L dev s = (r0, dev0, s0)" by (metis surj_pair)
  have "same_maps s0 s'"
    using assms i
    by (auto simp: msix_init_def Let_def split: option.splits if_splits bind_splits prod.splits
        dest!: msix_uninit_maps)
  then show ?thesis using pcie_init_maps [OF i] same_maps_trans by blast
qed

text \<open>The base address registers of the device are left alone as well.\<close>

lemma msix_uninit_ba: "msix_uninit L dev s = Some (dev', s') \<Longrightarrow> pd_ba dev' = pd_ba dev"
  by (auto simp: msix_uninit_def pcie_uninit_def split: option.splits if_splits bind_splits)

lemma msix_init_ba:
  assumes "msix_init L o1 dev s = Some (r, dev', s')"
  shows "pd_ba dev' = pd_ba dev"
proof -
  obtain r0 dev0 s0 where i: "pcie_init L dev s = (r0, dev0, s0)" by (metis surj_pair)
  have "pd_ba dev0 = pd_ba dev"
    using i by (auto simp: pcie_init_def Let_def split: option.splits if_splits prod.splits)
  then show ?thesis
    using assms i
    by (auto simp: msix_init_def Let_def split: option.splits if_splits bind_splits prod.splits
        dest!: msix_uninit_ba)
qed

end
