(* ===== verification/Pci.thy ===== *)
theory Pci
  imports Pci_Capability
begin

unbundle bit_operations_syntax

text \<open>
  The rest of \<^verbatim>\<open>src/src/pci.c\<close> and the register access of \<^verbatim>\<open>linux/io.h\<close>: enabling a device, mapping
  and unmapping its memory, and reading and writing mapped registers. A register access is an
  I/O port instruction below a threshold and a memory access above it. Enabling a device keeps
  the threshold between the I/O and the memory ranges of all enabled devices; mapping and
  unmapping undo each other.
\<close>

section \<open>Register access\<close>

text \<open>
  The instructions of the machine, and the choice between them: the branch of \<^verbatim>\<open>linux/io.h\<close> for x86,
  the only one with port instructions. Addresses are those of the program, after the mapping.
\<close>

record 'h bus =
  b_in8 :: "u64 \<Rightarrow> 'h \<Rightarrow> u8 \<times> 'h"
  b_ld8 :: "u64 \<Rightarrow> 'h \<Rightarrow> u8 \<times> 'h"
  b_out8 :: "u64 \<Rightarrow> u8 \<Rightarrow> 'h \<Rightarrow> 'h"
  b_st8 :: "u64 \<Rightarrow> u8 \<Rightarrow> 'h \<Rightarrow> 'h"
  b_in16 :: "u64 \<Rightarrow> 'h \<Rightarrow> u16 \<times> 'h"
  b_ld16 :: "u64 \<Rightarrow> 'h \<Rightarrow> u16 \<times> 'h"
  b_out16 :: "u64 \<Rightarrow> u16 \<Rightarrow> 'h \<Rightarrow> 'h"
  b_st16 :: "u64 \<Rightarrow> u16 \<Rightarrow> 'h \<Rightarrow> 'h"
  b_in32 :: "u64 \<Rightarrow> 'h \<Rightarrow> u32 \<times> 'h"
  b_ld32 :: "u64 \<Rightarrow> 'h \<Rightarrow> u32 \<times> 'h"
  b_out32 :: "u64 \<Rightarrow> u32 \<Rightarrow> 'h \<Rightarrow> 'h"
  b_st32 :: "u64 \<Rightarrow> u32 \<Rightarrow> 'h \<Rightarrow> 'h"

definition read8 :: "'h bus \<Rightarrow> u64 \<Rightarrow> u64 \<Rightarrow> 'h \<Rightarrow> u8 \<times> 'h" where
  "read8 B thr a = (if a < thr then b_in8 B a else b_ld8 B a)"

definition write8 :: "'h bus \<Rightarrow> u64 \<Rightarrow> u64 \<Rightarrow> u8 \<Rightarrow> 'h \<Rightarrow> 'h" where
  "write8 B thr a v = (if a < thr then b_out8 B a v else b_st8 B a v)"

definition read16 :: "'h bus \<Rightarrow> u64 \<Rightarrow> u64 \<Rightarrow> 'h \<Rightarrow> u16 \<times> 'h" where
  "read16 B thr a = (if a + 1 < thr then b_in16 B a else b_ld16 B a)"

definition write16 :: "'h bus \<Rightarrow> u64 \<Rightarrow> u64 \<Rightarrow> u16 \<Rightarrow> 'h \<Rightarrow> 'h" where
  "write16 B thr a v = (if a + 1 < thr then b_out16 B a v else b_st16 B a v)"

definition read32 :: "'h bus \<Rightarrow> u64 \<Rightarrow> u64 \<Rightarrow> 'h \<Rightarrow> u32 \<times> 'h" where
  "read32 B thr a = (if a + 3 < thr then b_in32 B a else b_ld32 B a)"

definition write32 :: "'h bus \<Rightarrow> u64 \<Rightarrow> u64 \<Rightarrow> u32 \<Rightarrow> 'h \<Rightarrow> 'h" where
  "write32 B thr a v = (if a + 3 < thr then b_out32 B a v else b_st32 B a v)"

section \<open>Enabling a device\<close>

text \<open>The range of all addresses of one kind; a bound of zero means that there was none yet.\<close>

definition widen :: "u64 \<times> u64 \<Rightarrow> u64 \<Rightarrow> u64 \<Rightarrow> u64 \<times> u64" where
  "widen r b e = (if fst r = 0 \<or> snd r = 0 then (b, e) else (min (fst r) b, max (snd r) e))"

definition enable_bar :: "pci_ba \<Rightarrow> pci_state \<Rightarrow> (pci_err \<times> pci_state) option" where
  "enable_bar ba s = do {
     s1 \<leftarrow> store_bar ba s;
     let b = ba_addr ba;
     let e = ba_addr ba + ba_size ba;
     let s2 = (case ba_type ba of
        AS_IO \<Rightarrow> s1\<lparr>ps_io := widen (ps_io s1) b e\<rparr>
      | AS_MEM \<Rightarrow> s1\<lparr>ps_mem := widen (ps_mem s1) b e\<rparr>
      | AS_OTHER \<Rightarrow> s1);
     if ba_type ba = AS_OTHER then Some (PCI_ERR_ENOTSUP, s2)
     else if fst (ps_mem s2) < snd (ps_io s2) \<and> snd (ps_io s2) \<noteq> 0 \<and> fst (ps_mem s2) \<noteq> 0
     then Some (PCI_ERR_ENOTSUP, s2)
     else Some (PCI_ERR_OK, s2\<lparr>io_port_addr_threshold := snd (ps_io s2)\<rparr>) }"

fun enable_bars :: "pci_ba list \<Rightarrow> pci_state \<Rightarrow> (pci_err \<times> pci_state) option" where
  "enable_bars [] s = Some (PCI_ERR_OK, s)"
| "enable_bars (b # bs) s = do {
     (r, s1) \<leftarrow> enable_bar b s;
     if r \<noteq> PCI_ERR_OK then Some (r, s1) else enable_bars bs s1 }"

text \<open>
  The base address registers: the two arrays of the device are allocated without a test, and the
  first of them is filled by the loop. The contents of the second, the addresses of the mappings,
  are not set; it has no entries if there was no memory for it.
\<close>

definition read_bars :: "pci_lib \<Rightarrow> pci_dev \<Rightarrow> pci_state \<Rightarrow> (pci_err \<times> pci_dev \<times> pci_state) option" where
  "read_bars L dev s =
     (case q_ba L (pd_hdl dev) of
        None \<Rightarrow> Some (PCI_ERR_OK, dev, s)
      | Some bas \<Rightarrow>
          if bas = [] then Some (PCI_ERR_OK, dev, s)
          else do {
            let (p1, s1) = take_block s;
            let (p2, s2) = take_block s1;
            a \<leftarrow> p1;
            (r, s3) \<leftarrow> enable_bars bas s2;
            Some (r, dev\<lparr>pd_ba := Some bas, pd_addr := (if p2 = None then [] else replicate (length bas) 0)\<rparr>, s3) })"

definition read_irqs :: "pci_lib \<Rightarrow> pci_dev \<Rightarrow> pci_state \<Rightarrow> (pci_err \<times> pci_dev \<times> pci_state) option" where
  "read_irqs L dev s =
     (case q_irq L (pd_hdl dev) of
        Some (i # is) \<Rightarrow> do {
          h \<leftarrow> pd_hdl dev;
          let (p, s1) = take_block s;
          T \<leftarrow> irq_group_add p \<lparr>g_irqs = i # is, g_hdl = h, g_msi_cap = pd_msi_cap dev,
                 g_is_msi = pd_is_msi dev, g_is_msix = pd_is_msix dev\<rparr> (ps_irqs s1);
          Some (if i = 0 then PCI_ERR_ENOTSUP else PCI_ERR_OK, dev\<lparr>pd_irq := i\<rparr>, s1\<lparr>ps_irqs := T\<rparr>) }
      | _ \<Rightarrow> Some (if pd_irq dev = 0 then PCI_ERR_ENOTSUP else PCI_ERR_OK, dev, s))"

text \<open>One device that was found: the body of the loop.\<close>

definition enable_found ::
  "pci_lib \<Rightarrow> options \<Rightarrow> nat \<Rightarrow> pci_dev \<Rightarrow> pci_state \<Rightarrow> (pci_err \<times> pci_dev \<times> pci_state) option" where
  "enable_found L o1 bdf dev s =
     (let (r, h) = q_attach L bdf; dev1 = dev\<lparr>pd_hdl := h\<rparr> in
      case h of
        None \<Rightarrow> Some (r, dev1, s)
      | Some a \<Rightarrow>
          (let s1 = log_event (Ev_attach a) s; (r1, ssvid) = q_ssvid L bdf; (r2, ssid) = q_ssid L bdf in
           if r1 \<noteq> PCI_ERR_OK then Some (r1, dev1, s1)
           else if r2 \<noteq> PCI_ERR_OK then Some (r2, dev1\<lparr>pd_subsystem_vendor := ssvid\<rparr>, s1)
           else do {
             (r3, dev2, s2) \<leftarrow> msix_init L o1 (dev1\<lparr>pd_subsystem_vendor := ssvid, pd_subsystem_device := ssid,
                                               pd_devfn := q_devfn L bdf\<rparr>) s1;
             (r4, dev3, s3) \<leftarrow> read_bars L dev2 s2;
             if r4 \<noteq> PCI_ERR_OK then Some (r4, dev3, s3) else read_irqs L dev3 s3 }))"

text \<open>The loop ends in its second round, with an error if there is a second device.\<close>

definition pci_enable_device ::
  "pci_lib \<Rightarrow> options \<Rightarrow> pci_dev \<Rightarrow> pci_state \<Rightarrow> (pci_err \<times> pci_dev \<times> pci_state) option" where
  "pci_enable_device L o1 dev s =
     (let dev0 = dev\<lparr>pd_is_managed := False\<rparr>; ids = Some (pd_vendor dev, pd_device dev) in
      case q_find L 0 ids of
        None \<Rightarrow> Some (PCI_ERR_OK, dev0, s)
      | Some bdf \<Rightarrow> do {
          (r, dev1, s1) \<leftarrow> enable_found L o1 bdf dev0 s;
          Some (if r \<noteq> PCI_ERR_OK then r else if q_find L 1 ids = None then PCI_ERR_OK else PCI_ERR_ENOTSUP,
                dev1, s1) })"

definition pci_disable_device :: "pci_lib \<Rightarrow> pci_dev \<Rightarrow> pci_state \<Rightarrow> (pci_dev \<times> pci_state) option" where
  "pci_disable_device L dev s =
     (if q_bdf L (pd_hdl dev) = None then Some (dev, s)
      else case pd_hdl dev of
        None \<Rightarrow> Some (dev, s)
      | Some a \<Rightarrow> do {
          (dev1, s1) \<leftarrow> msix_uninit L dev s;
          Some (dev1, log_event (Ev_detach a) s1) })"

text \<open>The result is always 0.\<close>

definition pcim_enable_device ::
  "pci_lib \<Rightarrow> options \<Rightarrow> pci_dev \<Rightarrow> pci_state \<Rightarrow> (pci_dev \<times> pci_state) option" where
  "pcim_enable_device L o1 dev s = do {
     (r, dev1, s1) \<leftarrow> pci_enable_device L o1 dev s;
     Some (if r = PCI_ERR_OK then dev1\<lparr>pd_is_managed := True\<rparr> else dev1, s1) }"

section \<open>Mapping\<close>

text \<open>
  An entry of the array of base address registers; \<open>None\<close> is a read out of its bounds or before
  it was set.
\<close>

definition bar_of :: "pci_dev \<Rightarrow> nat \<Rightarrow> pci_ba option" where
  "bar_of dev bar = do { bas \<leftarrow> pd_ba dev; if bar < length bas then Some (bas ! bar) else None }"

definition map_device :: "pci_lib \<Rightarrow> as_type \<Rightarrow> u64 \<Rightarrow> u64 \<Rightarrow> u64 option" where
  "map_device L t n a = (case t of AS_MEM \<Rightarrow> q_mmap_mem L n a | AS_IO \<Rightarrow> q_mmap_io L n a | AS_OTHER \<Rightarrow> None)"

text \<open>A mapped block enters the list; the first block at its address is marked as not managed.\<close>

definition set_managed :: "bool \<Rightarrow> u64 \<Rightarrow> pci_state \<Rightarrow> pci_state option" where
  "set_managed m a s = do {
     loc \<leftarrow> get_block a s;
     c \<leftarrow> loc;
     L \<leftarrow> update_cell c (\<lambda>b. b\<lparr>io_managed := m\<rparr>) (ps_blocks s);
     Some (s\<lparr>ps_blocks := L\<rparr>) }"

definition enter_block :: "u64 \<Rightarrow> u64 \<Rightarrow> pci_ba \<Rightarrow> pci_state \<Rightarrow> pci_state option" where
  "enter_block a n ba s = do {
     s1 \<leftarrow> store_block a n ba (log_event (Ev_map (ba_type ba) a) s);
     set_managed False a s1 }"

text \<open>The results of the functions that map are addresses; 0 is NULL.\<close>

definition pci_iomap :: "pci_lib \<Rightarrow> nat \<Rightarrow> pci_dev \<Rightarrow> pci_state \<Rightarrow> (u64 \<times> pci_dev \<times> pci_state) option" where
  "pci_iomap L bar dev s = do {
     ba \<leftarrow> bar_of dev bar;
     (case map_device L (ba_type ba) (ba_size ba) (ba_addr ba) of
        None \<Rightarrow> Some (0, dev, s)
      | Some a \<Rightarrow>
          if length (pd_addr dev) \<le> bar then None
          else do {
            s1 \<leftarrow> enter_block a (ba_size ba) ba s;
            Some (a, dev\<lparr>pd_addr := (pd_addr dev)[bar := a]\<rparr>, s1) }) }"

definition pcim_iomap :: "pci_lib \<Rightarrow> nat \<Rightarrow> pci_dev \<Rightarrow> pci_state \<Rightarrow> (u64 \<times> pci_dev \<times> pci_state) option" where
  "pcim_iomap L bar dev s = do {
     (a, dev1, s1) \<leftarrow> pci_iomap L bar dev s;
     if a = 0 then Some (a, dev1, s1)
     else do { s2 \<leftarrow> set_managed True (pd_addr dev1 ! bar) s1; Some (a, dev1, s2) } }"

definition ioremap :: "pci_lib \<Rightarrow> u64 \<Rightarrow> u64 \<Rightarrow> pci_state \<Rightarrow> (u64 \<times> pci_state) option" where
  "ioremap L offset n s = do {
     loc \<leftarrow> get_bar offset s;
     (case loc of
        None \<Rightarrow> Some (0, s)
      | Some c \<Rightarrow> do {
          ba \<leftarrow> cell_item c (ps_bars s);
          (case map_device L (ba_type ba) n offset of
             None \<Rightarrow> Some (0, s)
           | Some a \<Rightarrow> do { s1 \<leftarrow> enter_block a n ba s; Some (a, s1) }) }) }"

definition pci_iounmap :: "u64 \<Rightarrow> pci_state \<Rightarrow> pci_state option" where
  "pci_iounmap a s = do {
     (loc, s1) \<leftarrow> remove_block a s;
     (case loc of
        None \<Rightarrow> Some s1
      | Some c \<Rightarrow> do {
          b \<leftarrow> cell_item c (ps_blocks s1);
          let t = ba_type (io_ba b);
          if t = AS_OTHER then Some s1
          else Some (log_event (Ev_unmap t (io_addr b)) (s1\<lparr>ps_blocks := free_cell c (ps_blocks s1)\<rparr>)) }) }"

definition pci_resource_start :: "pci_dev \<Rightarrow> nat \<Rightarrow> u64 option" where
  "pci_resource_start dev bar = map_option ba_addr (bar_of dev bar)"

definition pci_resource_len :: "pci_dev \<Rightarrow> nat \<Rightarrow> u64 option" where
  "pci_resource_len dev bar = map_option ba_size (bar_of dev bar)"

definition pci_alloc_irq_vectors :: "pci_dev \<Rightarrow> int" where
  "pci_alloc_irq_vectors dev = (if pd_msi_cap dev \<noteq> None then 1 else 0)"

text \<open>
  The configuration space. \<open>rd\<close> and \<open>wr\<close> are the functions of the library for one width; the result
  is \<open>None\<close> for -1.
\<close>

definition PCI_CFG_SPACE_OFFSET :: int where "PCI_CFG_SPACE_OFFSET = 0x40"

definition pci_read_config :: "(nat \<Rightarrow> int \<Rightarrow> 'v option) \<Rightarrow> pci_lib \<Rightarrow> pci_dev \<Rightarrow> int \<Rightarrow> 'v option" where
  "pci_read_config rd L dev pos =
     (case q_bdf L (pd_hdl dev) of None \<Rightarrow> None | Some bdf \<Rightarrow> rd bdf (pos + PCI_CFG_SPACE_OFFSET))"

definition pci_write_config :: "(ptr \<Rightarrow> int \<Rightarrow> 'v \<Rightarrow> bool) \<Rightarrow> pci_dev \<Rightarrow> int \<Rightarrow> 'v \<Rightarrow> bool" where
  "pci_write_config wr dev pos v = wr (pd_hdl dev) (pos + PCI_CFG_SPACE_OFFSET) v"

section \<open>Address spaces\<close>

text \<open>
  A base address register that is usable: not at address zero, not reaching over the end of the
  address space, and, if it is one of I/O ports, inside the 64 KiB of port addresses.
  \<open>range_is t r bs\<close>: \<open>r\<close> is the smallest range that covers the registers of kind \<open>t\<close>.
\<close>

definition PORT_SPACE :: u64 where "PORT_SPACE = 0x10000"

definition bar_sane :: "pci_ba \<Rightarrow> bool" where
  "bar_sane b \<longleftrightarrow> ba_addr b \<noteq> 0 \<and> ba_addr b \<le> ba_addr b + ba_size b \<and>
     (ba_type b = AS_IO \<longrightarrow> ba_addr b + ba_size b \<le> PORT_SPACE)"

definition range_is :: "as_type \<Rightarrow> u64 \<times> u64 \<Rightarrow> pci_ba list \<Rightarrow> bool" where
  "range_is t r bs \<longleftrightarrow>
     (if \<exists>b \<in> set bs. ba_type b = t
      then fst r \<noteq> 0 \<and> snd r \<noteq> 0 \<and>
        (\<forall>b \<in> set bs. ba_type b = t \<longrightarrow> fst r \<le> ba_addr b \<and> ba_addr b + ba_size b \<le> snd r) \<and>
        (\<exists>b \<in> set bs. ba_type b = t \<and> fst r = ba_addr b) \<and>
        (\<exists>b \<in> set bs. ba_type b = t \<and> snd r = ba_addr b + ba_size b)
      else r = (0, 0))"

definition addr_inv :: "(addr \<times> pci_ba) list \<Rightarrow> pci_state \<Rightarrow> bool" where
  "addr_inv bs s \<longleftrightarrow>
     bars_are s bs \<and> fresh_blocks (ps_malloc s) (fst ` set bs) \<and> (\<forall>b \<in> set (map snd bs). bar_sane b) \<and>
     range_is AS_IO (ps_io s) (map snd bs) \<and> range_is AS_MEM (ps_mem s) (map snd bs) \<and>
     io_port_addr_threshold s = snd (ps_io s) \<and>
     (snd (ps_io s) \<le> fst (ps_mem s) \<or> ps_io s = (0, 0) \<or> ps_mem s = (0, 0))"

lemma range_is_other: "ba_type b \<noteq> t \<Longrightarrow> range_is t r (bs @ [b]) = range_is t r bs"
  by (auto simp: range_is_def)

lemma range_is_widen:
  assumes "range_is t r bs" and "ba_type b = t" and "bar_sane b"
  shows "range_is t (widen r (ba_addr b) (ba_addr b + ba_size b)) (bs @ [b])"
proof -
  have "ba_addr b + ba_size b \<noteq> 0" "ba_addr b \<noteq> 0" using assms(3) by (auto simp: bar_sane_def)
  then show ?thesis
    using assms(1,2) by (auto simp: range_is_def widen_def min_def max_def split: if_splits)
qed

lemma range_is_zero: "range_is t r bs \<Longrightarrow> r = (0, 0) \<or> fst r \<noteq> 0 \<and> snd r \<noteq> 0"
  by (auto simp: range_is_def split: if_splits)

lemma enable_bar_inv:
  assumes "addr_inv bs s" and "bar_sane b" and "enable_bar b s = Some (PCI_ERR_OK, s')"
  shows "\<exists>a. addr_inv (bs @ [(a, b)]) s'"
proof -
  obtain s1 where s1: "store_bar b s = Some s1" using assms(3) by (auto simp: enable_bar_def split: bind_splits)
  have b: "bars_are s bs" "fresh_blocks (ps_malloc s) (fst ` set bs)" "\<forall>b \<in> set (map snd bs). bar_sane b"
    and r: "range_is AS_IO (ps_io s) (map snd bs)" "range_is AS_MEM (ps_mem s) (map snd bs)"
    using assms(1) by (simp_all add: addr_inv_def)
  obtain a L ps where a: "s1 = s\<lparr>ps_malloc := ps, ps_bars := L\<rparr>" "dl_rel Map.empty L (bs @ [(a, b)])"
    "fresh_blocks ps (fst ` set (bs @ [(a, b)]))"
    using store_bar_list [OF b(1,2) s1] .
  define io where "io = (if ba_type b = AS_IO then widen (ps_io s) (ba_addr b) (ba_addr b + ba_size b) else ps_io s)"
  define mem where "mem = (if ba_type b = AS_MEM then widen (ps_mem s) (ba_addr b) (ba_addr b + ba_size b) else ps_mem s)"
  let ?bad = "fst mem < snd io \<and> snd io \<noteq> 0 \<and> fst mem \<noteq> 0"
  let ?s = "s\<lparr>ps_malloc := ps, ps_bars := L, ps_io := io, ps_mem := mem, io_port_addr_threshold := snd io\<rparr>"
  have "enable_bar b s = Some (PCI_ERR_OK, s') \<Longrightarrow> \<not> ?bad \<and> s' = ?s"
    using s1 a(1) by (cases "ba_type b") (simp_all add: enable_bar_def Let_def io_def mem_def split: if_split_asm)
  then have ok: "\<not> ?bad" and s': "s' = ?s" using assms(3) by blast+
  have ranges: "range_is AS_IO io (map snd bs @ [b])" "range_is AS_MEM mem (map snd bs @ [b])"
    using r range_is_widen [OF _ _ assms(2)] range_is_other by (auto simp: io_def mem_def)
  have "snd io \<le> fst mem \<or> io = (0, 0) \<or> mem = (0, 0)"
    using ok range_is_zero [OF ranges(1)] range_is_zero [OF ranges(2)] by auto
  then show ?thesis
    using b(3) assms(2) a(2,3) ranges unfolding s' by (intro exI [of _ a]) (simp add: addr_inv_def bars_are_def)
qed

lemma enable_bars_inv:
  assumes "addr_inv bs s" and "\<forall>b \<in> set bas. bar_sane b" and "enable_bars bas s = Some (PCI_ERR_OK, s')"
  shows "\<exists>new. addr_inv (bs @ new) s' \<and> map snd new = bas"
  using assms
proof (induction bas arbitrary: bs s)
  case (Cons b bas)
  obtain s1 where s1: "enable_bar b s = Some (PCI_ERR_OK, s1)" "enable_bars bas s1 = Some (PCI_ERR_OK, s')"
    using Cons.prems(3) by (auto split: bind_splits if_splits)
  obtain a where "addr_inv (bs @ [(a, b)]) s1"
    using enable_bar_inv [OF Cons.prems(1) _ s1(1)] Cons.prems(2) by auto
  from Cons.IH [OF this _ s1(2)] Cons.prems(2) obtain new where
    "addr_inv ((bs @ [(a, b)]) @ new) s'" "map snd new = bas" by auto
  then show ?case by (intro exI [of _ "(a, b) # new"]) simp
qed simp

lemma addr_inv_maps: "same_maps s s' \<Longrightarrow> addr_inv bs s' = addr_inv bs s"
  by (simp add: addr_inv_def same_maps_def bars_are_def)

lemma addr_inv_take:
  assumes "addr_inv bs s" and "take_block s = (p, s1)"
  shows "addr_inv bs s1"
proof -
  obtain ps where s1: "s1 = s\<lparr>ps_malloc := ps\<rparr>" using take_block_cases [OF assms(2)] .
  have "fresh_blocks ps (fst ` set bs)"
    using fresh_take [OF _ assms(2), of "fst ` set bs"] assms(1) s1
    by (cases p) (auto simp: addr_inv_def intro: fresh_blocks_mono)
  then show ?thesis using assms(1) s1 by (simp add: addr_inv_def bars_are_def)
qed

lemma read_bars_inv:
  assumes "addr_inv bs s" and "read_bars L dev s = Some (PCI_ERR_OK, dev', s')"
    and "\<forall>bas. q_ba L (pd_hdl dev) = Some bas \<longrightarrow> (\<forall>b \<in> set bas. bar_sane b)"
  shows "\<exists>new. addr_inv (bs @ new) s' \<and> pd_hdl dev' = pd_hdl dev \<and>
    map snd new = (case q_ba L (pd_hdl dev) of None \<Rightarrow> [] | Some bas \<Rightarrow> bas) \<and>
    (pd_ba dev' = Some (map snd new) \<or> pd_ba dev' = pd_ba dev)"
proof (cases "q_ba L (pd_hdl dev)")
  case None
  then show ?thesis using assms(1,2) by (simp add: read_bars_def)
next
  case (Some bas)
  show ?thesis
  proof (cases "bas = []")
    case True
    then show ?thesis using assms(1,2) Some by (simp add: read_bars_def)
  next
    case False
    obtain p1 s1 where t1: "take_block s = (p1, s1)" by force
    obtain p2 s2 where t2: "take_block s1 = (p2, s2)" by force
    have "enable_bars bas s2 = Some (PCI_ERR_OK, s')" "pd_hdl dev' = pd_hdl dev" "pd_ba dev' = Some bas"
      using assms(2) Some False t1 t2 by (auto simp: read_bars_def split: bind_splits)
    then show ?thesis
      using enable_bars_inv [of bs s2 bas s'] addr_inv_take [OF addr_inv_take [OF assms(1) t1] t2] assms(3) Some
      by auto
  qed
qed

lemma read_irqs_inv:
  assumes "addr_inv bs s" and "read_irqs L dev s = Some (r, dev', s')"
  shows "addr_inv bs s' \<and> pd_hdl dev' = pd_hdl dev \<and> pd_ba dev' = pd_ba dev"
proof (cases "q_irq L (pd_hdl dev)")
  case (Some xs)
  obtain p s1 where t: "take_block s = (p, s1)" by force
  have "addr_inv bs (s1\<lparr>ps_irqs := T\<rparr>)" for T
    using addr_inv_take [OF assms(1) t] by (simp add: addr_inv_def bars_are_def)
  then show ?thesis
    using assms Some t by (cases xs) (auto simp: read_irqs_def split: bind_splits)
qed (use assms in \<open>simp add: read_irqs_def\<close>)

lemma enable_found_inv:
  assumes "addr_inv bs s" and e: "enable_found L o1 bdf dev s = Some (PCI_ERR_OK, dev', s')"
    and sane: "\<forall>h bas. q_ba L h = Some bas \<longrightarrow> (\<forall>b \<in> set bas. bar_sane b)"
    and attach: "\<forall>b. snd (q_attach L b) = None \<longrightarrow> fst (q_attach L b) \<noteq> PCI_ERR_OK"
  shows "\<exists>new. addr_inv (bs @ new) s' \<and>
    map snd new = (case q_ba L (pd_hdl dev') of None \<Rightarrow> [] | Some bas \<Rightarrow> bas) \<and>
    (pd_ba dev' = Some (map snd new) \<or> pd_ba dev' = pd_ba dev)"
proof -
  have "snd (q_attach L bdf) \<noteq> None" 
    using e attach [rule_format, of bdf]
    by (cases "q_attach L bdf"; cases "snd (q_attach L bdf)") (auto simp: enable_found_def)
  then obtain dev1 s1 r dev2 s2 dev3 s3 where m: "msix_init L o1 dev1 s1 = Some (r, dev2, s2)" "same_maps s s1"
    "pd_ba dev1 = pd_ba dev"
    and b: "read_bars L dev2 s2 = Some (PCI_ERR_OK, dev3, s3)"
    and i: "read_irqs L dev3 s3 = Some (PCI_ERR_OK, dev', s')"
    using e
    by (auto simp: enable_found_def Let_def split: prod.splits option.splits if_splits bind_splits)
  have "same_maps s s2" using m(2) msix_init_maps [OF m(1)] same_maps_trans by blast
  then have "addr_inv bs s2" using assms(1) addr_inv_maps by blast
  then obtain new where "addr_inv (bs @ new) s3" "pd_hdl dev3 = pd_hdl dev2"
    "map snd new = (case q_ba L (pd_hdl dev2) of None \<Rightarrow> [] | Some bas \<Rightarrow> bas)"
    "pd_ba dev3 = Some (map snd new) \<or> pd_ba dev3 = pd_ba dev2"
    using read_bars_inv [OF _ b] sane by blast
  then show ?thesis using read_irqs_inv [OF _ i] msix_init_ba [OF m(1)] m(3) by metis
qed

lemma set_managed_threshold:
  "set_managed m a s = Some s' \<Longrightarrow> io_port_addr_threshold s' = io_port_addr_threshold s"
  by (auto simp: set_managed_def split: bind_splits)

lemma enter_block_threshold:
  assumes "enter_block a n ba s = Some s'"
  shows "io_port_addr_threshold s' = io_port_addr_threshold s"
proof -
  let ?s = "log_event (Ev_map (ba_type ba) a) s"
  obtain s1 where s1: "store_block a n ba ?s = Some s1" "set_managed False a s1 = Some s'"
    using assms by (auto simp: enter_block_def split: bind_splits)
  obtain p s0 where t: "take_block ?s = (p, s0)" by force
  have "io_port_addr_threshold s0 = io_port_addr_threshold s"
    using take_block_simps(9) [of ?s] t by simp
  then show ?thesis
    using s1 t set_managed_threshold [OF s1(2)] by (auto simp: store_block_def split: bind_splits)
qed

lemma pci_iomap_maps:
  assumes "pci_iomap L bar dev s = Some (v, dev', s')" and "bar_of dev bar = Some b" and "v \<noteq> 0"
  shows "map_device L (ba_type b) (ba_size b) (ba_addr b) = Some v \<and>
    io_port_addr_threshold s' = io_port_addr_threshold s"
  using assms by (auto simp: pci_iomap_def enter_block_threshold split: bind_splits option.splits if_splits)

text \<open>
  The mapping of device memory into the program, as the library documents it: ports keep their
  addresses, and memory is mapped at addresses above all ports that do not reach over the end of
  the address space.
\<close>

definition mmap_documented :: "pci_lib \<Rightarrow> bool" where
  "mmap_documented L \<longleftrightarrow>
     (\<forall>n a v. q_mmap_io L n a = Some v \<longrightarrow> v = a) \<and>
     (\<forall>n a v. q_mmap_mem L n a = Some v \<longrightarrow> PORT_SPACE \<le> v \<and> (\<forall>off < n. v \<le> v + off))"

lemma threshold_in_ports:
  assumes "addr_inv bs s"
  shows "io_port_addr_threshold s \<le> PORT_SPACE"
proof -
  have r: "range_is AS_IO (ps_io s) (map snd bs)" "io_port_addr_threshold s = snd (ps_io s)"
    "\<forall>b \<in> set (map snd bs). bar_sane b"
    using assms by (simp_all add: addr_inv_def)
  show ?thesis
  proof (cases "\<exists>b \<in> set (map snd bs). ba_type b = AS_IO")
    case True
    then obtain b where "b \<in> set (map snd bs)" "ba_type b = AS_IO" "snd (ps_io s) = ba_addr b + ba_size b"
      using r(1) unfolding range_is_def by auto
    then show ?thesis using r(2,3) by (auto simp: bar_sane_def)
  next
    case False
    then have "ps_io s = (0, 0)" using r(1) unfolding range_is_def by (metis (no_types, lifting))
    then show ?thesis using r(2) by simp
  qed
qed

text \<open>An offset inside a mapped register is on the right side of the threshold.\<close>

lemma mapped_kind:
  assumes "addr_inv bs s" and "b \<in> set (map snd bs)" and "mmap_documented L"
    and m: "map_device L (ba_type b) (ba_size b) (ba_addr b) = Some v" and "off < ba_size b"
  shows "ba_type b = AS_IO \<Longrightarrow> v = ba_addr b \<and> v + off < io_port_addr_threshold s"
    and "ba_type b = AS_MEM \<Longrightarrow> \<not> v + off < io_port_addr_threshold s"
proof -
  have r: "range_is AS_IO (ps_io s) (map snd bs)" "io_port_addr_threshold s = snd (ps_io s)" "bar_sane b"
    using assms(1,2) by (auto simp: addr_inv_def)
  { assume io: "ba_type b = AS_IO"
    then have "v = ba_addr b" using m assms(3) by (simp add: mmap_documented_def map_device_def)
    moreover have "ba_addr b + ba_size b \<le> snd (ps_io s)"
      using r(1) assms(2) io unfolding range_is_def by (metis (no_types, lifting))
    moreover have "ba_addr b + off < ba_addr b + ba_size b"
      using r(3) assms(5) by (simp add: bar_sane_def no_olen_add_nat word_less_nat_alt unat_word_ariths)
    ultimately show "v = ba_addr b \<and> v + off < io_port_addr_threshold s" using r(2) by simp }
  { assume "ba_type b = AS_MEM"
    then have "PORT_SPACE \<le> v" "v \<le> v + off"
      using m assms(3,5) by (auto simp: mmap_documented_def map_device_def)
    then show "\<not> v + off < io_port_addr_threshold s" using threshold_in_ports [OF assms(1)] by auto }
qed

text \<open>
  C35: Enabling a device and mapping one of its base address registers gives working register
  accesses. If \<^verbatim>\<open>pci_enable_device\<close> succeeds on a device not enabled before, the list of base
  address registers has grown by exactly those of the device, and the ranges kept for I/O and
  memory are again the smallest that cover all registers of their kind. If \<^verbatim>\<open>pci_iomap\<close> then maps
  a register, every 8-, 16- or 32-bit access at an offset inside it, through the address
  \<^verbatim>\<open>pci_iomap\<close> returned, is a port instruction at the port of the device for an I/O register
  and a memory access for a memory register; and it stays so with the threshold of any later
  state, whatever devices have been enabled in between. Of the machine it is assumed that ports keep
  their addresses, below 64 KiB, and that device memory is mapped above them.
\<close>

theorem mapped_accesses:
  assumes "addr_inv bs s" and "pci_enable_device L o1 dev s = Some (PCI_ERR_OK, dev', s')"
    and "\<forall>h bas. q_ba L h = Some bas \<longrightarrow> (\<forall>b \<in> set bas. bar_sane b)"
    and "\<forall>b. snd (q_attach L b) = None \<longrightarrow> fst (q_attach L b) \<noteq> PCI_ERR_OK"
    and "q_find L 0 (Some (pd_vendor dev, pd_device dev)) \<noteq> None" and "pd_ba dev = None"
    and "mmap_documented L" and "bar_of dev' bar = Some b"
    and "pci_iomap L bar dev' s' = Some (v, dev2, s2)" and "v \<noteq> 0" and "off < ba_size b"
  shows "\<exists>new. addr_inv (bs @ new) s' \<and>
    map snd new = (case q_ba L (pd_hdl dev') of None \<Rightarrow> [] | Some bas \<Rightarrow> bas) \<and>
    io_port_addr_threshold s2 = io_port_addr_threshold s' \<and>
    (\<forall>more s3. addr_inv (bs @ new @ more) s3 \<longrightarrow>
      (let t = io_port_addr_threshold s3; p = ba_addr b + off; a = v + off in
       (ba_type b = AS_IO \<longrightarrow> read8 B t a = b_in8 B p \<and> write8 B t a = b_out8 B p \<and>
          (off + 1 < ba_size b \<longrightarrow> read16 B t a = b_in16 B p \<and> write16 B t a = b_out16 B p) \<and>
          (off + 3 < ba_size b \<longrightarrow> read32 B t a = b_in32 B p \<and> write32 B t a = b_out32 B p)) \<and>
       (ba_type b = AS_MEM \<longrightarrow> read8 B t a = b_ld8 B a \<and> write8 B t a = b_st8 B a \<and>
          (off + 1 < ba_size b \<longrightarrow> read16 B t a = b_ld16 B a \<and> write16 B t a = b_st16 B a) \<and>
          (off + 3 < ba_size b \<longrightarrow> read32 B t a = b_ld32 B a \<and> write32 B t a = b_st32 B a))))"
proof -
  obtain bdf where bdf: "q_find L 0 (Some (pd_vendor dev, pd_device dev)) = Some bdf" using assms(5) by blast
  have f: "enable_found L o1 bdf (dev\<lparr>pd_is_managed := False\<rparr>) s = Some (PCI_ERR_OK, dev', s')"
    using assms(2) bdf by (auto simp: pci_enable_device_def split: bind_splits if_splits)
  obtain new where new: "addr_inv (bs @ new) s'"
    "map snd new = (case q_ba L (pd_hdl dev') of None \<Rightarrow> [] | Some bas \<Rightarrow> bas)"
    "pd_ba dev' = Some (map snd new) \<or> pd_ba dev' = None"
    using enable_found_inv [OF assms(1) f assms(3,4)] assms(6) by auto
  have b: "b \<in> set (map snd (bs @ new @ more))" for more
    using assms(8) new(3) nth_mem [of bar "map snd new"] by (auto simp: bar_of_def split: if_splits)
  have m: "map_device L (ba_type b) (ba_size b) (ba_addr b) = Some v"
    and t: "io_port_addr_threshold s2 = io_port_addr_threshold s'"
    using pci_iomap_maps [OF assms(9,8,10)] by simp_all
  show ?thesis
  proof (intro exI [of _ new] conjI allI impI new(1,2) t)
    fix more s3
    assume i: "addr_inv (bs @ new @ more) s3"
    note kind = mapped_kind [OF i b assms(7) m]
    show "let t = io_port_addr_threshold s3; p = ba_addr b + off; a = v + off in
       (ba_type b = AS_IO \<longrightarrow> read8 B t a = b_in8 B p \<and> write8 B t a = b_out8 B p \<and>
          (off + 1 < ba_size b \<longrightarrow> read16 B t a = b_in16 B p \<and> write16 B t a = b_out16 B p) \<and>
          (off + 3 < ba_size b \<longrightarrow> read32 B t a = b_in32 B p \<and> write32 B t a = b_out32 B p)) \<and>
       (ba_type b = AS_MEM \<longrightarrow> read8 B t a = b_ld8 B a \<and> write8 B t a = b_st8 B a \<and>
          (off + 1 < ba_size b \<longrightarrow> read16 B t a = b_ld16 B a \<and> write16 B t a = b_st16 B a) \<and>
          (off + 3 < ba_size b \<longrightarrow> read32 B t a = b_ld32 B a \<and> write32 B t a = b_st32 B a))"
      using kind [OF assms(11)] kind [of "off + 1"] kind [of "off + 3"]
      by (auto simp: Let_def fun_eq_iff add.assoc read8_def write8_def read16_def write16_def read32_def write32_def)
  qed
qed

lemma sample_enable:
  "\<exists>dev' s'. pci_enable_device sample_lib (initial_options 0 0 0) sample_pdev sample_pci =
     Some (PCI_ERR_OK, dev', s') \<and> pd_hdl dev' = Some 1 \<and> pd_ba dev' = Some [sample_ba] \<and>
     pd_addr dev' = [0] \<and> ps_blocks s' = dl_empty \<and> hd (ps_malloc s') = Some 204 \<and> ps_malloc s' \<noteq> []"
proof -
  have "\<exists>dev' s'. msix_init sample_lib (initial_options 0 0 0) (sample_pdev\<lparr>pd_is_managed := False, pd_hdl := Some 1,
      pd_subsystem_vendor := 0x13FE, pd_subsystem_device := 0xC302, pd_devfn := 8\<rparr>)
      (log_event (Ev_attach 1) sample_pci) = Some (PCI_ERR_OK, dev', s') \<and> pd_hdl dev' = Some 1 \<and>
      same_maps sample_pci s'"
    by (simp add: msix_init_def pcie_init_def find_msi_def disabled_msi_def disabled_msix_def
        initial_options_def sample_lib_def sample_pdev_def capid_defs program_vectors_def)
  then obtain dev' s' where m: "msix_init sample_lib (initial_options 0 0 0) (sample_pdev\<lparr>pd_is_managed := False, pd_hdl := Some 1,
      pd_subsystem_vendor := 0x13FE, pd_subsystem_device := 0xC302, pd_devfn := 8\<rparr>)
      (log_event (Ev_attach 1) sample_pci) = Some (PCI_ERR_OK, dev', s')" "pd_hdl dev' = Some 1" "same_maps sample_pci s'"
    by blast
  have s: "ps_malloc s' = map Some [200..<220]" "ps_bars s' = dl_empty" "ps_blocks s' = dl_empty" "ps_io s' = (0, 0)" "ps_mem s' = (0, 0)"
    "ps_irqs s' = \<lparr>grp_base = None, grp = [], irq_to_group = []\<rparr>"
    using m(3) by (simp_all add: same_maps_def sample_pci_def)
  have q: "q_find sample_lib = (\<lambda>i ids. if i = 0 then Some 7 else None)" "q_attach sample_lib = (\<lambda>b. (PCI_ERR_OK, Some 1))"
    "q_ssvid sample_lib = (\<lambda>b. (PCI_ERR_OK, 0x13FE))" "q_ssid sample_lib = (\<lambda>b. (PCI_ERR_OK, 0xC302))"
    "q_devfn sample_lib = (\<lambda>b. 8)" "q_ba sample_lib = (\<lambda>h. Some [sample_ba])" "q_irq sample_lib = (\<lambda>h. Some [5])"
    by (simp_all add: sample_lib_def)
  show ?thesis
    using m(1,2) s
    by (simp add: pci_enable_device_def enable_found_def q read_bars_def read_irqs_def take_block_def upt_rec
        enable_bar_def store_bar_def append_cell_def dl_empty_def sample_ba_def widen_def irq_group_add_def
        irq_to_group_add_def irq_map_size_def irq_map_set_def)
qed

lemma bar_of_sample: "pd_ba dev = Some [sample_ba] \<Longrightarrow> bar_of dev 0 = Some sample_ba"
  by (simp add: bar_of_def)

lemma sample_iomap:
  assumes "pd_ba dev = Some [sample_ba]" and "pd_addr dev = [0]" and "ps_blocks s = dl_empty"
    and "hd (ps_malloc s) = Some c" and "ps_malloc s \<noteq> []"
  shows "\<exists>dev' s1. pci_iomap sample_lib 0 dev s = Some (0xD000, dev', s1)"
proof -
  obtain ps where "ps_malloc s = Some c # ps" using assms(4,5) by (cases "ps_malloc s") auto
  then show ?thesis
    using assms(1-3)
    by (simp add: pci_iomap_def bar_of_def map_device_def sample_lib_def sample_ba_def enter_block_def store_block_def
        take_block_def log_event_def append_cell_def dl_empty_def set_managed_def get_block_def
        find_first_def find_cell.simps update_cell_def)
qed

lemma sample_lib_mmap: "mmap_documented sample_lib"
proof -
  have "PORT_SPACE \<le> a + 0x7F0000000000 \<and> a + 0x7F0000000000 \<le> a + 0x7F0000000000 + off"
    if "a < 0x100000000" "off < 0x100000000" for a off :: u64
    using that by (simp add: PORT_SPACE_def word_le_nat_alt word_less_nat_alt unat_word_ariths)
  then have "PORT_SPACE \<le> a + 0x7F0000000000 \<and> (\<forall>off < n. a + 0x7F0000000000 \<le> a + 0x7F0000000000 + off)"
    if "a < 0x100000000" "n < 0x100000000" for a n :: u64
    using that by (meson order_less_trans order_le_less_trans word_zero_le)
  then show ?thesis by (auto simp: mmap_documented_def sample_lib_def split: if_splits)
qed

theorem mapped_accesses_witness:
  "\<forall>B :: unit bus. \<exists>dev' s' dev2 s2 new. pci_enable_device sample_lib (initial_options 0 0 0) sample_pdev sample_pci =
     Some (PCI_ERR_OK, dev', s') \<and> map snd new = [sample_ba] \<and> addr_inv new s' \<and>
     pci_iomap sample_lib 0 dev' s' = Some (0xD000, dev2, s2) \<and>
     read8 B (io_port_addr_threshold s2) 0xD400 = b_in8 B 0xD400"
proof
  fix B :: "unit bus"
  obtain dev' s' dev2 s2 where e: "pci_enable_device sample_lib (initial_options 0 0 0) sample_pdev sample_pci =
      Some (PCI_ERR_OK, dev', s')" "bar_of dev' 0 = Some sample_ba"
    "pci_iomap sample_lib 0 dev' s' = Some (0xD000, dev2, s2)"
    using sample_enable sample_iomap by (metis bar_of_sample)
  have i: "addr_inv [] sample_pci"
    by (simp add: addr_inv_def sample_pci_def bars_are_def range_is_def upt_rec)
  have b: "\<forall>h bas. q_ba sample_lib h = Some bas \<longrightarrow> (\<forall>b \<in> set bas. bar_sane b)"
    "\<forall>b. snd (q_attach sample_lib b) = None \<longrightarrow> fst (q_attach sample_lib b) \<noteq> PCI_ERR_OK"
    "q_find sample_lib 0 (Some (pd_vendor sample_pdev, pd_device sample_pdev)) \<noteq> None"
    "pd_ba sample_pdev = None" "q_ba sample_lib h = Some [sample_ba]" for h
    by (simp_all add: sample_lib_def sample_pdev_def sample_ba_def bar_sane_def PORT_SPACE_def)
  have "(0xD000 :: u64) \<noteq> 0" "(0x400 :: u64) < ba_size sample_ba" "ba_type sample_ba = AS_IO"
    "ba_addr sample_ba = 0xD000"
    by (simp_all add: sample_ba_def)
  from mapped_accesses [OF i e(1) b(1-4) sample_lib_mmap e(2,3) this(1,2), of B] this(3,4)
  obtain new where n: "addr_inv new s'" "map snd new = [sample_ba]"
    "io_port_addr_threshold s2 = io_port_addr_threshold s'"
    "\<forall>more s3. addr_inv (new @ more) s3 \<longrightarrow> read8 B (io_port_addr_threshold s3) 0xD400 = b_in8 B 0xD400"
    using b(5) by (auto simp: Let_def)
  from n(4) [rule_format, of "[]" s'] n(1,3)
  have "read8 B (io_port_addr_threshold s2) 0xD400 = b_in8 B 0xD400" by simp
  then show "\<exists>dev' s' dev2 s2 new. pci_enable_device sample_lib (initial_options 0 0 0) sample_pdev sample_pci =
      Some (PCI_ERR_OK, dev', s') \<and> map snd new = [sample_ba] \<and> addr_inv new s' \<and>
      pci_iomap sample_lib 0 dev' s' = Some (0xD000, dev2, s2) \<and>
      read8 B (io_port_addr_threshold s2) 0xD400 = b_in8 B 0xD400"
    using e(1,3) n(1,2)
    by (intro exI [of _ dev'] exI [of _ s'] exI [of _ dev2] exI [of _ s2] exI [of _ new]) simp
qed

section \<open>Mapping and unmapping\<close>

definition mapped :: "u64 \<Rightarrow> u64 \<Rightarrow> pci_ba \<Rightarrow> ioblock" where
  "mapped a n ba = \<lparr>io_addr = a, io_size = n, io_ba = ba, io_managed = False\<rparr>"

lemma find_snoc_new:
  "\<forall>y \<in> set xs. f (snd y) \<noteq> a \<Longrightarrow> f (snd z) = a \<Longrightarrow> find (\<lambda>y. f (snd y) = a) (xs @ [z]) = Some z"
  by (induction xs) auto

lemma enter_block_list:
  assumes "blocks_are s xs" and "fresh_blocks (ps_malloc s) (fst ` set xs)" and "enter_block a n ba s = Some s'"
    and new: "\<forall>y \<in> set xs. io_addr (snd y) \<noteq> a"
  obtains c L ps where "s' = (log_event (Ev_map (ba_type ba) a) s)\<lparr>ps_malloc := ps, ps_blocks := L\<rparr>"
    and "c \<notin> fst ` set xs" and "dl_rel Map.empty L (xs @ [(c, mapped a n ba)])"
    and "fresh_blocks ps (insert c (fst ` set xs))"
proof -
  let ?s = "log_event (Ev_map (ba_type ba) a) s"
  obtain s1 where s1: "store_block a n ba ?s = Some s1" "set_managed False a s1 = Some s'"
    using assms(3) by (auto simp: enter_block_def split: bind_splits)
  have h: "blocks_are ?s xs" "fresh_blocks (ps_malloc ?s) (fst ` set xs)"
    using assms(1,2) by (simp_all add: blocks_are_def)
  obtain c L ps where L: "s1 = ?s\<lparr>ps_malloc := ps, ps_blocks := L\<rparr>" "c \<notin> fst ` set xs"
    "dl_rel Map.empty L (xs @ [(c, \<lparr>io_addr = a, io_size = n, io_ba = ba, io_managed = ps_junk ?s\<rparr>)])"
    "fresh_blocks ps (insert c (fst ` set xs))"
    using store_block_list [OF h s1(1)] .
  let ?b = "\<lparr>io_addr = a, io_size = n, io_ba = ba, io_managed = ps_junk s\<rparr>"
  have b1: "blocks_are s1 (xs @ [(c, ?b)])" using L(1,3) by (simp add: blocks_are_def)
  then have g: "get_block a s1 = Some (Some c)"
    using get_block_list [OF b1, of a] find_snoc_new [OF new, of "(c, ?b)"] by simp
  have "map (\<lambda>(x, y). (x, if x = c then y\<lparr>io_managed := False\<rparr> else y)) (xs @ [(c, ?b)]) = xs @ [(c, mapped a n ba)]"
    using L(2) by (auto simp: mapped_def intro!: map_idI) force
  then obtain L' where L': "update_cell c (\<lambda>b. b\<lparr>io_managed := False\<rparr>) (ps_blocks s1) = Some L'"
    "dl_rel Map.empty L' (xs @ [(c, mapped a n ba)])"
    using update_cell_rel [of Map.empty "ps_blocks s1" "xs @ [(c, ?b)]" c "\<lambda>b. b\<lparr>io_managed := False\<rparr>"] b1
    unfolding blocks_are_def by auto
  have "s' = ?s\<lparr>ps_malloc := ps, ps_blocks := L'\<rparr>"
    using s1(2) g L'(1) L(1) by (simp add: set_managed_def)
  then show ?thesis using that L(2,4) L'(2) by blast
qed

lemma find_snd: "find (\<lambda>y. f (snd y) = a) xs = Some (c, b) \<Longrightarrow> f b = a"
  by (induction xs) (auto split: if_splits)

lemma pci_iounmap_list:
  assumes "blocks_are s xs" and "find (\<lambda>y. io_addr (snd y) = a) xs = Some (c, b)"
    and "ba_type (io_ba b) \<noteq> AS_OTHER"
  obtains L where "pci_iounmap a s = Some (log_event (Ev_unmap (ba_type (io_ba b)) a) (s\<lparr>ps_blocks := L\<rparr>))"
    and "dl_rel Map.empty L (filter (\<lambda>y. fst y \<noteq> c) xs)"
proof -
  obtain L where L: "remove_block a s = Some (Some c, s\<lparr>ps_blocks := L\<rparr>)" "cell_item c L = Some b"
    "dl_rel Map.empty (free_cell c L) (filter (\<lambda>y. fst y \<noteq> c) xs)"
    using remove_block_list [OF assms(1,2)] .
  have "io_addr b = a" using find_snd [OF assms(2)] .
  then have "pci_iounmap a s = Some (log_event (Ev_unmap (ba_type (io_ba b)) a) (s\<lparr>ps_blocks := free_cell c L\<rparr>))"
    using L(1,2) assms(3) by (simp add: pci_iounmap_def Let_def)
  then show ?thesis using that L(3) by blast
qed

lemma filter_new: "c \<notin> fst ` set xs \<Longrightarrow> filter (\<lambda>y. fst y \<noteq> c) (xs @ [(c, b)]) = xs"
  by (auto simp: filter_id_conv)

text \<open>A block that was entered at a new address is taken out again, and nothing else.\<close>

lemma enter_iounmap:
  assumes "blocks_are s xs" and "fresh_blocks (ps_malloc s) (fst ` set xs)" and "enter_block a n ba s = Some s1"
    and "\<forall>y \<in> set xs. io_addr (snd y) \<noteq> a" and "ba_type ba \<noteq> AS_OTHER"
  shows "\<exists>s2. pci_iounmap a s1 = Some s2 \<and> blocks_are s2 xs \<and> ps_bars s2 = ps_bars s \<and>
    ps_log s2 = ps_log s @ [Ev_map (ba_type ba) a, Ev_unmap (ba_type ba) a]"
proof -
  obtain c L ps where s1: "s1 = (log_event (Ev_map (ba_type ba) a) s)\<lparr>ps_malloc := ps, ps_blocks := L\<rparr>"
    "c \<notin> fst ` set xs" "dl_rel Map.empty L (xs @ [(c, mapped a n ba)])"
    using enter_block_list [OF assms(1-4)] by blast
  have b: "blocks_are s1 (xs @ [(c, mapped a n ba)])" using s1 by (simp add: blocks_are_def)
  obtain L2 where "pci_iounmap a s1 = Some (log_event (Ev_unmap (ba_type ba) a) (s1\<lparr>ps_blocks := L2\<rparr>))"
    "dl_rel Map.empty L2 xs"
    using pci_iounmap_list [OF b find_snoc_new [OF assms(4), of "(c, mapped a n ba)"]] assms(5) filter_new [OF s1(2)]
    by (auto simp: mapped_def)
  then show ?thesis using s1(1) by (simp add: blocks_are_def)
qed

text \<open>
  C36: Mapping a base address register and unmapping it again. If \<^verbatim>\<open>pci_iomap\<close> yields an address at
  which no block is mapped yet, \<^verbatim>\<open>pci_iounmap\<close> of that address returns, the list of mapped blocks is
  what it was before, and the device memory was mapped and unmapped exactly once.
\<close>

theorem iomap_iounmap:
  assumes "blocks_are s xs" and "fresh_blocks (ps_malloc s) (fst ` set xs)"
    and "pci_iomap L bar dev s = Some (a, dev', s1)" and "a \<noteq> 0" and "\<forall>y \<in> set xs. io_addr (snd y) \<noteq> a"
  shows "\<exists>s2 t. pci_iounmap a s1 = Some s2 \<and> blocks_are s2 xs \<and> ps_bars s2 = ps_bars s \<and>
    ps_log s2 = ps_log s @ [Ev_map t a, Ev_unmap t a]"
proof -
  obtain ba where ba: "bar_of dev bar = Some ba" using assms(3) by (auto simp: pci_iomap_def split: bind_splits)
  then have "map_device L (ba_type ba) (ba_size ba) (ba_addr ba) = Some a" "enter_block a (ba_size ba) ba s = Some s1"
    using assms(3,4) by (auto simp: pci_iomap_def split: bind_splits option.splits if_splits)
  moreover from this have "ba_type ba \<noteq> AS_OTHER" by (auto simp: map_device_def)
  ultimately show ?thesis using enter_iounmap [OF assms(1,2) _ assms(5)] by blast
qed

theorem iomap_iounmap_witness:
  "\<exists>dev' s1 s2 t. pci_iomap sample_lib 0 (sample_pdev\<lparr>pd_ba := Some [sample_ba], pd_addr := [0]\<rparr>) sample_pci =
     Some (0xD000, dev', s1) \<and> pci_iounmap 0xD000 s1 = Some s2 \<and> blocks_are s2 [] \<and>
     ps_log s2 = [Ev_map t 0xD000, Ev_unmap t 0xD000]"
proof -
  have b: "blocks_are sample_pci []" "fresh_blocks (ps_malloc sample_pci) (fst ` set ([] :: (addr \<times> ioblock) list))"
    "ps_log sample_pci = []"
    by (simp_all add: blocks_are_def sample_pci_def upt_rec)
  have "hd (ps_malloc sample_pci) = Some 200" "ps_malloc sample_pci \<noteq> []" "ps_blocks sample_pci = dl_empty"
    by (simp_all add: sample_pci_def upt_rec)
  then have "\<exists>dev' s1. pci_iomap sample_lib 0 (sample_pdev\<lparr>pd_ba := Some [sample_ba], pd_addr := [0]\<rparr>) sample_pci =
     Some (0xD000, dev', s1)"
    by (intro sample_iomap) simp_all
  then obtain dev' s1 where m: "pci_iomap sample_lib 0 (sample_pdev\<lparr>pd_ba := Some [sample_ba], pd_addr := [0]\<rparr>) sample_pci =
     Some (0xD000, dev', s1)" by blast
  show ?thesis using iomap_iounmap [OF b(1,2) m] b(3) m by auto
qed

end
