(* ===== verification/Pci_Select.thy ===== *)
theory Pci_Select
  imports Pci
begin

unbundle bit_operations_syntax

text \<open>
  Which driver runs which card: the tables of the card drivers, \<^verbatim>\<open>process_driver_selection\<close> of
  \<^verbatim>\<open>src/src/pci.c\<close>, and the loops of \<^verbatim>\<open>src/src/include/pci.h\<close> that probe the selected drivers at the
  start and remove them at the end. The selection is shown to be the list of the supported
  devices in the order of the bus, and the removal to unmap every block that is still managed.
\<close>

section \<open>Tables\<close>

text \<open>
  Vendor and device of the entries, with the final entry of zeros. The other columns are used by
  no driver of the program. The numbers are those of \<^verbatim>\<open>linux/pci_ids.h\<close> and of the drivers; support
  for the ExpressCard entries of \<^verbatim>\<open>peak_pci_tbl\<close> is not compiled.
\<close>

type_synonym id_table = "(u16 \<times> u16) list"

definition adv_pci_tbl :: id_table where
  "adv_pci_tbl = [(0x13FE, 0x1680), (0x13FE, 0x3680), (0x13FE, 0x2052), (0x13FE, 0x1681), (0x13FE, 0xC001),
     (0x13FE, 0xC002), (0x13FE, 0xC004), (0x13FE, 0xC101), (0x13FE, 0xC102), (0x13FE, 0xC104),
     (0x13FE, 0xC201), (0x13FE, 0xC202), (0x13FE, 0xC204), (0x13FE, 0xC301), (0x13FE, 0xC302),
     (0x13FE, 0xC304), (0x13FE, 0x00C5), (0x13FE, 0x00D7), (0, 0)]"

definition kvaser_pci_tbl :: id_table where
  "kvaser_pci_tbl = [(0x10E8, 0x8406), (0x1A07, 0x0008), (0, 0)]"

definition ems_pci_tbl :: id_table where
  "ems_pci_tbl = [(0x110A, 0x2104), (0x10B5, 0x9030), (0x10B5, 0x9030), (0x125B, 0x9110), (0, 0)]"

definition peak_pci_tbl :: id_table where
  "peak_pci_tbl = [(0x001C, 0x0001), (0x001C, 0x0003), (0x001C, 0x0005), (0x001C, 0x0008), (0x001C, 0x0006),
     (0x001C, 0x0007), (0x001C, 0x0004), (0x001C, 0x0009), (0, 0)]"

definition plx_pci_tbl :: id_table where
  "plx_pci_tbl = [(0x144A, 0x7841), (0x144A, 0x7841), (0x10B5, 0x9050), (0x10B5, 0x9030), (0x10B5, 0x9030),
     (0x10B5, 0x9056), (0x10B5, 0x9056), (0x10B5, 0x9056), (0x10B5, 0x9050), (0x10B5, 0x2715),
     (0x10B5, 0x3432), (0x1498, 0x032A), (0x10B5, 0x9030), (0x10B5, 0x9030), (0x1393, 0x0100),
     (0x10B5, 0x9030), (0x10B5, 0x9030), (0, 0)]"

definition f81601_pci_tbl :: id_table where
  "f81601_pci_tbl = [(0x1C29, 0x1703), (0, 0)]"

datatype pci_driver =
    adv_pci_driver | kvaser_pci_driver | ems_pci_driver | peak_pci_driver | plx_pci_driver
  | f81601_pci_driver | vcan_driver

section \<open>Selection\<close>

text \<open>The scan of a table stops at an entry without a vendor.\<close>

fun check_driver_support :: "id_table \<Rightarrow> u16 \<Rightarrow> u16 \<Rightarrow> bool" where
  "check_driver_support [] vid did = False"
| "check_driver_support ((v, d) # t) vid did =
     (if v = 0 then False else if v = vid \<and> d = did then True else check_driver_support t vid did)"

definition detect_driver :: "u16 \<Rightarrow> u16 \<Rightarrow> pci_driver option" where
  "detect_driver vid did =
     (if check_driver_support adv_pci_tbl vid did then Some adv_pci_driver
      else if check_driver_support kvaser_pci_tbl vid did then Some kvaser_pci_driver
      else if check_driver_support ems_pci_tbl vid did then Some ems_pci_driver
      else if check_driver_support peak_pci_tbl vid did then Some peak_pci_driver
      else if check_driver_support plx_pci_tbl vid did then Some plx_pci_driver
      else if check_driver_support f81601_pci_tbl vid did then Some f81601_pci_driver
      else None)"

definition device_disabled :: "options \<Rightarrow> u16 \<Rightarrow> u16 \<Rightarrow> bool" where
  "device_disabled o1 vid did \<longleftrightarrow>
     list_ex (\<lambda>c. dc_vid c = uint vid \<and> dc_did c = uint did \<and> dc_cap c = -1) (disable_device_config o1)"

record driver_selection =
  sel_pdev :: pci_dev
  sel_driver :: pci_driver

text \<open>The list of selections and the coming results of \<^verbatim>\<open>malloc\<close>; \<open>junk\<close> is what a new block holds.\<close>

record sel_state =
  sl_list :: "driver_selection dlist"
  sl_malloc :: "ptr list"

definition store_driver_selection ::
  "pci_dev \<Rightarrow> u16 \<Rightarrow> u16 \<Rightarrow> pci_driver \<Rightarrow> sel_state \<Rightarrow> sel_state option" where
  "store_driver_selection junk vid did drv S =
     (case sl_malloc S of
        Some a # ps \<Rightarrow> do {
          D \<leftarrow> append_cell \<lparr>sel_pdev = junk\<lparr>pd_vendor := vid, pd_device := did\<rparr>, sel_driver = drv\<rparr> a (sl_list S);
          Some \<lparr>sl_list = D, sl_malloc = ps\<rparr> }
      | _ \<Rightarrow> None)"

definition select_device :: "options \<Rightarrow> pci_dev \<Rightarrow> u16 \<Rightarrow> u16 \<Rightarrow> sel_state \<Rightarrow> sel_state option" where
  "select_device o1 junk vid did S =
     (case detect_driver vid did of
        None \<Rightarrow> Some S
      | Some drv \<Rightarrow>
          if o_d o1 = 0 \<or> \<not> device_disabled o1 vid did then store_driver_selection junk vid did drv S
          else Some S)"

text \<open>The loop over the bus. A device whose vendor cannot be read is looked at again.\<close>

partial_function (option) select_devices ::
  "pci_lib \<Rightarrow> options \<Rightarrow> pci_dev \<Rightarrow> nat \<Rightarrow> sel_state \<Rightarrow> sel_state option" where
  "select_devices L o1 junk idx S =
     (case q_find L idx None of
        None \<Rightarrow> Some S
      | Some bdf \<Rightarrow>
          (case q_vid L bdf of
             None \<Rightarrow> select_devices L o1 junk idx S
           | Some vid \<Rightarrow>
               (case q_did L bdf of
                  None \<Rightarrow> select_devices L o1 junk (Suc idx) S
                | Some did \<Rightarrow> do {
                    S1 \<leftarrow> select_device o1 junk vid did S;
                    select_devices L o1 junk (Suc idx) S1 })))"


section \<open>Probing and removing\<close>

text \<open>
  The loop of \<^verbatim>\<open>probe_all_driver_selections\<close>. \<open>probe\<close> is the probe function of a driver, called with
  a null pointer for the entry of its table; it yields whether it returned 0.
\<close>

partial_function (option) probe_from ::
  "(driver_selection \<Rightarrow> 's \<Rightarrow> (bool \<times> pci_dev \<times> 's) option) \<Rightarrow> ptr \<Rightarrow> driver_selection dlist \<Rightarrow> 's \<Rightarrow>
   (bool \<times> driver_selection dlist \<times> 's) option" where
  "probe_from probe loc D s =
     (case loc of
        None \<Rightarrow> Some (True, D, s)
      | Some a \<Rightarrow> do {
          c \<leftarrow> dl_cells D a;
          (ok, pdev, s1) \<leftarrow> probe (c_item c) s;
          D1 \<leftarrow> update_cell a (\<lambda>x. x\<lparr>sel_pdev := pdev\<rparr>) D;
          if ok then probe_from probe (c_next c) D1 s1 else Some (False, D1, s1) })"

definition probe_all_driver_selections ::
  "(driver_selection \<Rightarrow> 's \<Rightarrow> (bool \<times> pci_dev \<times> 's) option) \<Rightarrow> driver_selection dlist \<Rightarrow> 's \<Rightarrow>
   (bool \<times> driver_selection dlist \<times> 's) option" where
  "probe_all_driver_selections probe D s =
     (if dl_root D = None then Some (False, D, s) else probe_from probe (dl_root D) D s)"

text \<open>The loop \<^verbatim>\<open>do ... while (block)\<close> over the managed blocks of one base address register.\<close>

partial_function (option) unmap_managed :: "pci_ba \<Rightarrow> pci_state \<Rightarrow> pci_state option" where
  "unmap_managed ba s = do {
     loc \<leftarrow> get_managed_block ba s;
     (case loc of
        None \<Rightarrow> Some s
      | Some c \<Rightarrow> do {
          b \<leftarrow> cell_item c (ps_blocks s);
          s1 \<leftarrow> pci_iounmap (io_addr b) s;
          unmap_managed ba s1 }) }"

fun unmap_bars :: "pci_ba list \<Rightarrow> pci_state \<Rightarrow> pci_state option" where
  "unmap_bars [] s = Some s"
| "unmap_bars (b # bs) s = do { s1 \<leftarrow> unmap_managed b s; unmap_bars bs s1 }"

text \<open>After the remove function of the driver: what was managed is unmapped and disabled.\<close>

definition release_managed :: "pci_lib \<Rightarrow> pci_dev \<Rightarrow> pci_state \<Rightarrow> (pci_dev \<times> pci_state) option" where
  "release_managed L dev s =
     (if pd_vendor dev \<noteq> 0 \<and> pd_device dev \<noteq> 0
      then do {
        bas \<leftarrow> pd_ba dev;
        s1 \<leftarrow> unmap_bars bas s;
        if pd_is_managed dev then pci_disable_device L dev s1 else Some (dev, s1) }
      else Some (dev, s))"

partial_function (option) remove_all_driver_selections ::
  "(driver_selection \<Rightarrow> pci_state \<times> 's \<Rightarrow> (pci_dev \<times> pci_state \<times> 's) option) \<Rightarrow> pci_lib \<Rightarrow>
   driver_selection dlist \<Rightarrow> pci_state \<times> 's \<Rightarrow> (driver_selection dlist \<times> pci_state \<times> 's) option" where
  "remove_all_driver_selections remov L D s =
     (case dl_root D of
        None \<Rightarrow> Some (D, s)
      | Some a \<Rightarrow> do {
          c \<leftarrow> dl_cells D a;
          (dev, P, t) \<leftarrow> remov (c_item c) s;
          (dev1, P1) \<leftarrow> release_managed L dev P;
          remove_all_driver_selections remov L ((free_cell a D)\<lparr>dl_root := c_next c\<rparr>) (P1, t) })"

section \<open>The list of selections\<close>



















text \<open>A device whose vendor cannot be read is looked at for ever.\<close>

lemma select_devices_spins:
  assumes "q_find L idx None = Some bdf" and "q_vid L bdf = None"
  shows "select_devices L o1 junk idx S = None"
proof -
  have "\<forall>bdf. q_find L idx None = Some bdf \<longrightarrow> q_vid L bdf \<noteq> None"
    if "select_devices L o1 junk idx S = Some r" for r
    using that by (rule select_devices.raw_induct [rotated]) (fastforce split: option.splits)
  then show ?thesis using assms by fastforce
qed

text \<open>
  Every card with a PLX 9030 bridge is given to the EMS driver, also those that the table and the
  manual list under the PLX driver.
\<close>

lemma plx_9030_is_ems:
  "check_driver_support plx_pci_tbl 0x10B5 0x9030 \<and> detect_driver 0x10B5 0x9030 = Some ems_pci_driver"
  by code_simp

section \<open>Releasing what is managed\<close>

definition managed_by :: "pci_ba list \<Rightarrow> ioblock \<Rightarrow> bool" where
  "managed_by bas b \<longleftrightarrow> io_managed b \<and> ba_addr (io_ba b) \<in> ba_addr ` set bas"

definition no_other :: "(addr \<times> ioblock) list \<Rightarrow> bool" where
  "no_other xs \<longleftrightarrow> (\<forall>y \<in> set xs. ba_type (io_ba (snd y)) \<noteq> AS_OTHER)"

text \<open>
  \<open>unmapped bas xs ys\<close>: from the blocks \<open>xs\<close> only blocks at the address of a managed block of these
  registers are missing in \<open>ys\<close>. Such a block need not be managed itself: the blocks are unmapped by
  their address, and the first one found there is taken.
\<close>

definition unmapped :: "pci_ba list \<Rightarrow> (addr \<times> ioblock) list \<Rightarrow> (addr \<times> ioblock) list \<Rightarrow> bool" where
  "unmapped bas xs ys \<longleftrightarrow> (\<exists>P. ys = filter P xs) \<and>
     (\<forall>y \<in> set xs. y \<notin> set ys \<longrightarrow> (\<exists>z \<in> set xs. managed_by bas (snd z) \<and> io_addr (snd z) = io_addr (snd y)))"

lemma unmapped_refl: "unmapped bas xs xs"
  by (auto simp: unmapped_def intro: exI [of _ "\<lambda>_. True"])

lemma unmapped_subset: "unmapped bas xs ys \<Longrightarrow> set ys \<subseteq> set xs"
  by (auto simp: unmapped_def)

lemma unmapped_trans:
  assumes "unmapped bs xs ys" and "unmapped cs ys zs" and "set bs \<subseteq> set ds" "set cs \<subseteq> set ds"
  shows "unmapped ds xs zs"
proof -
  have m: "managed_by bs b \<or> managed_by cs b \<Longrightarrow> managed_by ds b" for b
    using assms(3,4) by (auto simp: managed_by_def)
  show ?thesis
    unfolding unmapped_def
  proof (intro conjI ballI impI)
    show "\<exists>P. zs = filter P xs" using assms(1,2) by (auto simp: unmapped_def filter_filter)
    fix y
    assume y: "y \<in> set xs" "y \<notin> set zs"
    show "\<exists>z \<in> set xs. managed_by ds (snd z) \<and> io_addr (snd z) = io_addr (snd y)"
    proof (cases "y \<in> set ys")
      case True
      then obtain z where "z \<in> set ys" "managed_by cs (snd z)" "io_addr (snd z) = io_addr (snd y)"
        using assms(2) y(2) unfolding unmapped_def by blast
      then show ?thesis using unmapped_subset [OF assms(1)] m by blast
    next
      case False
      then show ?thesis using assms(1) y(1) m unfolding unmapped_def by blast
    qed
  qed
qed

lemma removed_only:
  assumes "blocks_are s xs" and "(c, b) \<in> set xs" and "io_addr b = io_addr (snd z)" and "z \<in> set xs"
    and "ba_addr (io_ba (snd z)) = ba_addr ba \<and> io_managed (snd z)"
  shows "unmapped [ba] xs (filter (\<lambda>y. fst y \<noteq> c) xs)"
proof -
  have d: "distinct (map fst xs)" using assms(1) by (simp add: blocks_are_def dl_rel_def)
  have "y = (c, b)" if "y \<in> set xs" "fst y = c" for y
    using eq_key_imp_eq_value [OF d assms(2), of "snd y"] that by (cases y) auto
  then show ?thesis using assms(3-5) by (fastforce simp: unmapped_def managed_by_def)
qed

abbreviation managed_at :: "pci_ba \<Rightarrow> ioblock \<Rightarrow> bool" where
  "managed_at ba b \<equiv> ba_addr (io_ba b) = ba_addr ba \<and> io_managed b"

lemma unmap_managed_done:
  assumes "blocks_are s xs" and "find (\<lambda>y. managed_at ba (snd y)) xs = None"
  shows "unmap_managed ba s = Some s"
  using get_managed_block_list [OF assms(1), of ba] assms(2) by (subst unmap_managed.simps) simp

text \<open>One turn of the loop: the first block at the address of the managed block goes.\<close>

lemma unmap_managed_step:
  assumes "blocks_are s xs" and "find (\<lambda>y. managed_at ba (snd y)) xs = Some z"
    and "find (\<lambda>y. io_addr (snd y) = io_addr (snd z)) xs = Some (c, b)" and "ba_type (io_ba b) \<noteq> AS_OTHER"
  obtains s1 where "unmap_managed ba s = unmap_managed ba s1" and "blocks_are s1 (filter (\<lambda>y. fst y \<noteq> c) xs)"
    and "ps_caps s1 = ps_caps s"
proof -
  let ?a = "io_addr (snd z)"
  obtain M where M: "pci_iounmap ?a s = Some (log_event (Ev_unmap (ba_type (io_ba b)) ?a) (s\<lparr>ps_blocks := M\<rparr>))"
    "dl_rel Map.empty M (filter (\<lambda>y. fst y \<noteq> c) xs)"
    using pci_iounmap_list [OF assms(1,3,4)] .
  have "z \<in> set xs" using assms(2) by (auto simp: find_Some_iff)
  then have "cell_item (fst z) (ps_blocks s) = Some (snd z)"
    using dl_rel_item [of Map.empty "ps_blocks s" xs "fst z" "snd z"] assms(1) by (simp add: blocks_are_def)
  moreover have "get_managed_block ba s = Some (Some (fst z))"
    using get_managed_block_list [OF assms(1), of ba] assms(2) by simp
  ultimately have "unmap_managed ba s =
      unmap_managed ba (log_event (Ev_unmap (ba_type (io_ba b)) ?a) (s\<lparr>ps_blocks := M\<rparr>))"
    using M(1) by (subst unmap_managed.simps) simp
  then show ?thesis using that M(2) by (simp add: blocks_are_def)
qed

lemma unmap_managed_list:
  assumes "blocks_are s xs" and "no_other xs"
  shows "\<exists>s' ys. unmap_managed ba s = Some s' \<and> blocks_are s' ys \<and> unmapped [ba] xs ys \<and>
    (\<forall>y \<in> set ys. \<not> managed_by [ba] (snd y)) \<and> ps_caps s' = ps_caps s"
  using assms
proof (induction "length xs" arbitrary: s xs rule: less_induct)
  case less
  show ?case
  proof (cases "find (\<lambda>y. managed_at ba (snd y)) xs")
    case None
    then have "\<forall>y \<in> set xs. \<not> managed_by [ba] (snd y)" by (auto simp: managed_by_def find_None_iff)
    then show ?thesis using unmap_managed_done [OF less.prems(1) None] less.prems(1) unmapped_refl by blast
  next
    case (Some z)
    then have z: "z \<in> set xs" "managed_at ba (snd z)" by (auto simp: find_Some_iff)
    let ?a = "io_addr (snd z)"
    have "find (\<lambda>y. io_addr (snd y) = ?a) xs \<noteq> None" using z(1) unfolding find_None_iff by blast
    then obtain c b where cb: "find (\<lambda>y. io_addr (snd y) = ?a) xs = Some (c, b)" by force
    have m: "(c, b) \<in> set xs" "io_addr b = ?a" using cb find_snd [OF cb] by (auto simp: find_Some_iff)
    let ?xs = "filter (\<lambda>y. fst y \<noteq> c) xs"
    have "ba_type (io_ba b) \<noteq> AS_OTHER" using less.prems(2) m(1) by (force simp: no_other_def)
    then obtain s1 where s1: "unmap_managed ba s = unmap_managed ba s1" "blocks_are s1 ?xs" "ps_caps s1 = ps_caps s"
      using unmap_managed_step [OF less.prems(1) Some cb] by blast
    have "length ?xs < length xs" using m(1) by (auto intro!: length_filter_less)
    moreover have "no_other ?xs" using less.prems(2) by (auto simp: no_other_def)
    ultimately obtain s' ys where ys: "unmap_managed ba s1 = Some s'" "blocks_are s' ys" "unmapped [ba] ?xs ys"
      "\<forall>y \<in> set ys. \<not> managed_by [ba] (snd y)" "ps_caps s' = ps_caps s1"
      using less.hyps s1(2) by blast
    have "unmapped [ba] xs ?xs"
      using removed_only [OF less.prems(1) m z] by simp
    then have "unmapped [ba] xs ys" using unmapped_trans [OF _ ys(3)] by blast
    then show ?thesis using ys s1(1,3) by auto
  qed
qed

lemma unmapped_no_other: "unmapped bas xs ys \<Longrightarrow> no_other xs \<Longrightarrow> no_other ys"
  using unmapped_subset by (fastforce simp: no_other_def)

lemma unmap_bars_list:
  assumes "blocks_are s xs" and "no_other xs"
  shows "\<exists>s' ys. unmap_bars bas s = Some s' \<and> blocks_are s' ys \<and> unmapped bas xs ys \<and>
    (\<forall>y \<in> set ys. \<not> managed_by bas (snd y)) \<and> ps_caps s' = ps_caps s"
  using assms
proof (induction bas arbitrary: s xs)
  case Nil
  then show ?case using unmapped_refl by (auto simp: managed_by_def)
next
  case (Cons ba bas)
  obtain s1 ys where y: "unmap_managed ba s = Some s1" "blocks_are s1 ys" "unmapped [ba] xs ys"
    "\<forall>y \<in> set ys. \<not> managed_by [ba] (snd y)" "ps_caps s1 = ps_caps s"
    using unmap_managed_list [OF Cons.prems] by blast
  obtain s' zs where z: "unmap_bars bas s1 = Some s'" "blocks_are s' zs" "unmapped bas ys zs"
    "\<forall>y \<in> set zs. \<not> managed_by bas (snd y)" "ps_caps s' = ps_caps s1"
    using Cons.IH [OF y(2) unmapped_no_other [OF y(3) Cons.prems(2)]] by blast
  have "unmapped (ba # bas) xs zs" by (rule unmapped_trans [OF y(3) z(3)]) auto
  moreover have "\<not> managed_by (ba # bas) (snd x)" if "x \<in> set zs" for x
  proof -
    have "x \<in> set ys" using unmapped_subset [OF z(3)] that by blast
    then show ?thesis using y(4) z(4) that by (auto simp: managed_by_def)
  qed
  ultimately show ?case using y(1,5) z(1,2,5) by auto
qed

text \<open>The capability structures of a device are in use, so that they can be freed.\<close>

definition caps_held :: "pci_dev \<Rightarrow> pci_state \<Rightarrow> bool" where
  "caps_held dev s \<longleftrightarrow>
     (case pd_msi_cap dev of
        None \<Rightarrow> True
      | Some c \<Rightarrow> c \<in> set (ps_caps s) \<and>
          (case pd_pcie_cap dev of None \<Rightarrow> True | Some p \<Rightarrow> p \<in> set (remove1 c (ps_caps s))))"

lemma msix_uninit_held:
  assumes "caps_held dev s"
  shows "\<exists>dev' s'. msix_uninit L dev s = Some (dev', s')"
proof (cases "pd_msi_cap dev")
  case (Some c)
  then show ?thesis
    using assms
    by (cases "pd_pcie_cap dev") (auto simp: msix_uninit_def pcie_uninit_def free_cap_def caps_held_def)
qed (simp add: msix_uninit_def)

text \<open>When no two blocks share an address, exactly the managed blocks go.\<close>

lemma unmapped_exactly:
  assumes "unmapped bas xs ys" and "\<forall>y \<in> set ys. \<not> managed_by bas (snd y)" and "distinct (map (io_addr \<circ> snd) xs)"
  shows "ys = filter (\<lambda>y. \<not> managed_by bas (snd y)) xs"
proof -
  obtain P where P: "ys = filter P xs" using assms(1) by (auto simp: unmapped_def)
  have "P y \<longleftrightarrow> \<not> managed_by bas (snd y)" if y: "y \<in> set xs" for y
  proof
    assume "P y"
    then show "\<not> managed_by bas (snd y)" using assms(2) P y by (cases y) auto
  next
    assume n: "\<not> managed_by bas (snd y)"
    show "P y"
    proof (rule ccontr)
      assume "\<not> P y"
      then obtain z where "z \<in> set xs" "managed_by bas (snd z)" "io_addr (snd z) = io_addr (snd y)"
        using assms(1) P y unfolding unmapped_def by auto
      moreover from this have "z = y"
        using inj_onD [of "io_addr \<circ> snd" "set xs" z y] y assms(3) by (simp add: distinct_map)
      ultimately show False using n by simp
    qed
  qed
  then show ?thesis using P by (auto intro: filter_cong)
qed

lemma release_managed_list:
  assumes "blocks_are s xs" and "no_other xs" and "pd_ba dev = Some bas" and "caps_held dev s"
    and "pd_vendor dev \<noteq> 0" and "pd_device dev \<noteq> 0" and "pd_hdl dev = Some h" and "q_bdf L (Some h) \<noteq> None"
  shows "\<exists>dev' s' ys. release_managed L dev s = Some (dev', s') \<and> blocks_are s' ys \<and> unmapped bas xs ys \<and>
    (\<forall>y \<in> set ys. \<not> managed_by bas (snd y)) \<and> (pd_is_managed dev \<longrightarrow> ps_log s' \<noteq> [] \<and> last (ps_log s') = Ev_detach h)"
proof -
  obtain s1 ys where y: "unmap_bars bas s = Some s1" "blocks_are s1 ys" "unmapped bas xs ys"
    "\<forall>y \<in> set ys. \<not> managed_by bas (snd y)" "ps_caps s1 = ps_caps s"
    using unmap_bars_list [OF assms(1,2)] by blast
  show ?thesis
  proof (cases "pd_is_managed dev")
    case True
    have "caps_held dev s1" using assms(4) unfolding caps_held_def y(5) .
    then obtain dev' s2 where u: "msix_uninit L dev s1 = Some (dev', s2)" using msix_uninit_held by blast
    have "blocks_are s2 ys" using msix_uninit_maps [OF u] y(2) by (simp add: same_maps_def blocks_are_def)
    then have "blocks_are (log_event (Ev_detach h) s2) ys" by (simp add: blocks_are_def)
    moreover have "release_managed L dev s = Some (dev', log_event (Ev_detach h) s2)"
      using assms(3,5-8) y(1) u True by (auto simp: release_managed_def pci_disable_device_def)
    ultimately show ?thesis using y(3,4) by auto
  next
    case False
    then have "release_managed L dev s = Some (dev, s1)" using assms(3,5,6) y(1) by (simp add: release_managed_def)
    then show ?thesis using y(2-4) False by auto
  qed
qed

text \<open>
  C40: The end of a card. For a card whose base address registers and capabilities have been set up,
  and with no two mapped blocks at the same address, \<^verbatim>\<open>remove_all_driver_selections\<close> finishes its
  loops after the driver's remove function returned: exactly the managed blocks of the card are gone
  from the list of mapped blocks, every other block is still there, in the same order, and a
  managed card is detached at the very end.
\<close>

theorem release_managed_unmaps:
  assumes "blocks_are s xs" and "no_other xs" and "pd_ba dev = Some bas" and "caps_held dev s"
    and "pd_vendor dev \<noteq> 0" and "pd_device dev \<noteq> 0" and "pd_hdl dev = Some h" and "q_bdf L (Some h) \<noteq> None"
    and "distinct (map (io_addr \<circ> snd) xs)"
  shows "\<exists>dev' s'. release_managed L dev s = Some (dev', s') \<and>
    blocks_are s' (filter (\<lambda>y. \<not> managed_by bas (snd y)) xs) \<and>
    (pd_is_managed dev \<longrightarrow> ps_log s' \<noteq> [] \<and> last (ps_log s') = Ev_detach h)"
  using release_managed_list [OF assms(1-8)] unmapped_exactly [OF _ _ assms(9)] by metis

definition managed_block :: ioblock where
  "managed_block = \<lparr>io_addr = 0xD000, io_size = 0x1000, io_ba = sample_ba, io_managed = True\<rparr>"

definition other_block :: ioblock where
  "other_block = \<lparr>io_addr = 0xE000, io_size = 0x100, io_ba = sample_ba\<lparr>ba_addr := 0xE000\<rparr>, io_managed = True\<rparr>"

definition two_blocks :: "ioblock \<Rightarrow> pci_state" where
  "two_blocks b = sample_pci\<lparr>ps_blocks := \<lparr>dl_root = Some 8,
     dl_cells = [8 \<mapsto> \<lparr>c_prev = None, c_next = Some 9, c_item = b\<rparr>,
                 9 \<mapsto> \<lparr>c_prev = Some 8, c_next = None, c_item = managed_block\<rparr>]\<rparr>\<rparr>"

lemma two_blocks_are: "blocks_are (two_blocks b) [(8, b), (9, managed_block)]"
  by (simp add: blocks_are_def two_blocks_def dl_rel_def apart_def)

theorem release_managed_unmaps_witness:
  "\<exists>dev' s'. release_managed sample_lib (sample_pdev\<lparr>pd_ba := Some [sample_ba], pd_is_managed := True,
      pd_hdl := Some 1\<rparr>) (two_blocks other_block) = Some (dev', s') \<and> blocks_are s' [(8, other_block)] \<and>
    last (ps_log s') = Ev_detach 1"
proof -
  let ?dev = "sample_pdev\<lparr>pd_ba := Some [sample_ba], pd_is_managed := True, pd_hdl := Some 1\<rparr>"
  let ?xs = "[(8, other_block), (9, managed_block)]"
  have h: "no_other ?xs" "pd_ba ?dev = Some [sample_ba]"
    "caps_held ?dev (two_blocks other_block)" "pd_vendor ?dev \<noteq> 0" "pd_device ?dev \<noteq> 0" "pd_hdl ?dev = Some 1"
    "q_bdf sample_lib (Some 1) \<noteq> None" "distinct (map (io_addr \<circ> snd) ?xs)"
    by (simp_all add: two_blocks_def no_other_def managed_block_def other_block_def sample_ba_def
        sample_pdev_def caps_held_def sample_lib_def)
  have "managed_by [sample_ba] managed_block" "\<not> managed_by [sample_ba] other_block"
    by (simp_all add: managed_by_def managed_block_def other_block_def sample_ba_def)
  then show ?thesis using release_managed_unmaps [OF two_blocks_are h] by auto
qed

text \<open>
  A block that is not managed is lost when it comes before a managed one at the same address: both
  are unmapped.
\<close>

lemma unmap_takes_first:
  "\<exists>s'. unmap_managed sample_ba (two_blocks (managed_block\<lparr>io_managed := False\<rparr>)) = Some s' \<and> blocks_are s' []"
proof -
  let ?u = "managed_block\<lparr>io_managed := False\<rparr>"
  have t: "ba_type (io_ba ?u) \<noteq> AS_OTHER" "ba_type (io_ba managed_block) \<noteq> AS_OTHER"
    by (simp_all add: managed_block_def sample_ba_def)
  obtain s1 where s1: "unmap_managed sample_ba (two_blocks ?u) = unmap_managed sample_ba s1"
    "blocks_are s1 [(9, managed_block)]"
    using unmap_managed_step [OF two_blocks_are, of sample_ba ?u "(9, managed_block)" 8 ?u] t(1)
    by (auto simp: managed_block_def)
  obtain s2 where s2: "unmap_managed sample_ba s1 = unmap_managed sample_ba s2" "blocks_are s2 []"
    using unmap_managed_step [OF s1(2), of sample_ba "(9, managed_block)" 9 managed_block] t(2)
    by (auto simp: managed_block_def)
  show ?thesis using unmap_managed_done [OF s2(2), of sample_ba] s1(1) s2 by simp
qed

end
