(* ===== verification/Spec2Isabelle.thy ===== *)
theory Spec2Isabelle
  imports Irq_Liveness Msg_Transfer Resmgr Timer Pci_Select
begin

text \<open>
  A verification of the CAN bus driver in \<^verbatim>\<open>src/src\<close>. The program is a QNX resource manager that
  runs the Linux drivers for PCI cards with SJA1000 controllers. A client opens \<^verbatim>\<open>/dev/can0/rx0\<close> or
  \<^verbatim>\<open>/dev/can0/tx0\<close> and reads, writes or sends device control commands; messages it writes pass
  through a transmit queue to a thread that turns them into frames and programs the chip; frames
  the chip receives pass from the interrupt handler to the receive queue of every client whose
  filter accepts them. Buffers for frames come from a pool of 256 blocks that an interrupt handler
  may use. Options of the command line choose channels, bit rates and the time after which a
  device that went off the bus is restarted.

  \<^bold>\<open>How code is modelled.\<close> A structure is a record, an enumeration a datatype, a fixed-width integer a
  word; an integer that never leaves its range in the code is a natural number or an integer.
  A pointer is an address, a pointer that may be NULL an option of one. A function of the program
  is a function on the state it works on. A result \<open>None\<close> of type \<open>option\<close> is an execution that
  does not come back in a defined way: a dereference of NULL or of a freed object, a store out of
  bounds, a division by zero where the code does not test for it, a deadlock, or a loop that never
  ends. So a theorem that says that a result is \<open>Some\<close> also says that the function returns and does
  none of this. Error codes are values of \<^verbatim>\<open>rc\<close>. What the QNX kernel, the C library and the PCI
  library answer are arguments; the chip is the type variable \<open>'h\<close> with the access functions
  \<^verbatim>\<open>read_reg\<close> and \<^verbatim>\<open>write_reg\<close> that the code itself keeps in function pointers. The settings of the
  build are those of the default build: \<^verbatim>\<open>HZ\<close> is 1000, interrupts are masked in the pulse handler,
  and a channel has a thread pool.

  \<^bold>\<open>The theories\<close>, from the bottom up.

  \<^item> \<open>Prelude\<close>: the integer types, error numbers, collections of rewrite rules and shared facts on
    lists and words.
  \<^item> \<open>Fixed_Pool\<close> (\<^verbatim>\<open>fixed.c\<close>): the pool of blocks. The locale \<open>block_pool\<close> states what its
    clients rely on and is interpreted on it; no history of requests hands out a block twice.
  \<^item> \<open>Msg_Queue\<close> (\<^verbatim>\<open>queue.c\<close>, \<^verbatim>\<open>queue.h\<close>): the ring of messages with its waiting consumers. Every
    branch of \<^verbatim>\<open>enqueue\<close>, the removal of stale messages, the order of any history (locale
    \<open>ring_fifo\<close>), and a step relation for sleeping consumers with its invariant.
  \<^item> \<open>Bittiming\<close> (\<^verbatim>\<open>bittiming.c\<close>, \<^verbatim>\<open>calc_bittiming.c\<close>, \<^verbatim>\<open>div64.h\<close> arithmetic): the search for a bit
    timing at its machine widths: range, error and optimality of what it finds; given segments
    with the nearest prescaler.
  \<^item> \<open>Can_Frame\<close>, \<open>Driver_State\<close>, \<open>Skb\<close> (\<^verbatim>\<open>can.h\<close>, \<^verbatim>\<open>length.h\<close>, \<^verbatim>\<open>netdevice.h\<close>, \<^verbatim>\<open>skb.c\<close>): frames,
    socket buffers and the state of one device, with the ownership predicate \<open>owns\<close> that says
    which blocks of the pool a device holds.
  \<^item> \<open>Sja1000\<close> (\<^verbatim>\<open>sja1000.c\<close>): registers, modes, initialisation and transmission.
  \<^item> \<open>Netif\<close>, \<open>Netif_Rx\<close>, \<open>Netif_Tx\<close> (\<^verbatim>\<open>netif.c\<close>): delivery to clients, restart from the error
    counter, one turn of the transmit thread; buffers are freed exactly once.
  \<^item> \<open>Sja1000_Irq\<close>, \<open>Irq_Safety\<close>, \<open>Irq_Liveness\<close> (\<^verbatim>\<open>sja1000.c\<close>): the interrupt handler, what it
    keeps (locale \<open>err_receiver\<close>), the controller state it reports, and that it returns
    while frames keep arriving.
  \<^item> \<open>Msg_Transfer\<close>: transmission and reception together, a message comes out as it went in.
  \<^item> \<open>Linked_List\<close>: the pointer code the program repeats for its doubly linked lists, shown to
    implement lists; the locale \<open>registry\<close> is what the owners of such lists rely on.
  \<^item> \<open>Session\<close> (\<^verbatim>\<open>session.c\<close>): device and client sessions and their mutex.
  \<^item> \<open>Can_Dev\<close> (\<^verbatim>\<open>dev.c\<close>, \<^verbatim>\<open>netlink.c\<close>, the rest of \<^verbatim>\<open>sja1000.c\<close>): allocation, opening, closing,
    link parameters.
  \<^item> \<open>Resmgr_Io\<close>, \<open>Resmgr_Stream\<close>, \<open>Resmgr_Devctl\<close> (\<^verbatim>\<open>resmgr.c\<close>): the requests of a client; reading
    and writing as byte streams, device control commands.
  \<^item> \<open>Options\<close> (\<^verbatim>\<open>main.c\<close>, \<^verbatim>\<open>config.c\<close>): the command line and the checks of the start.
  \<^item> \<open>Resmgr\<close> (\<^verbatim>\<open>resmgr.c\<close>): registration of a device, open contexts and the thread that answers
    blocked clients.
  \<^item> \<open>Timer\<close> (\<^verbatim>\<open>timer.c\<close>): the restart timer, which fires once and in time below one second.
  \<^item> \<open>Irq_Table\<close> (\<^verbatim>\<open>interrupt.c\<close>, \<^verbatim>\<open>config.c\<close>): groups of interrupt lines, handlers, dispatch.
  \<^item> \<open>Pci_Dev\<close>, \<open>Pci_Capability\<close>, \<open>Pci\<close> (\<^verbatim>\<open>pci.h\<close>, \<^verbatim>\<open>pci-capability.c\<close>, \<^verbatim>\<open>pci.c\<close>, \<^verbatim>\<open>linux/io.h\<close>): the
    lists of base address registers and mapped blocks, the choice of MSI-X or MSI, enabling and
    mapping of devices. Every access through a mapped address is of the right kind; releasing
    undoes switching on, unmapping undoes mapping. Assumed of the machine: ports keep their
    addresses, below 64 KiB, and device memory is mapped above them.
  \<^item> \<open>Pci_Select\<close> (\<^verbatim>\<open>pci.c\<close>, \<^verbatim>\<open>pci.h\<close>, tables of the card drivers): which driver runs which card,
    and the release of what is still mapped at the end.

  \<^bold>\<open>Bounds.\<close> Loops that follow pointers or the hardware are \<^verbatim>\<open>partial_function (option)\<close>; theorems
  about them prove that they return. \<^verbatim>\<open>netif_rx\<close> and the restart call each other; the model gives
  the pair a fuel of 130 calls. Each call of the restart takes two of the 256 blocks of the pool
  and does not go on without them, so 128 calls are the most that can be nested, and
  \<open>netif_rx_returns_buffer\<close> proves that the fuel is not used up. The interrupt handler runs at most
  \<^verbatim>\<open>SJA1000_MAX_IRQ\<close> rounds by its own counter. Its receive loop is bounded only by the chip and the
  bus. The hypothesis \<open>live_chip\<close> of \<open>interrupt_returns\<close> says that frames arrive no faster than one
  in \<open>FRAME_GAP\<close> = 20 accesses of the driver; the loop makes at most 18 accesses for a frame, so it
  gains on the bus. It also needs buffers: at most 252 of the 256 blocks may be in use elsewhere,
  which leaves two for the echo slot and two for the frame read.

  \<^bold>\<open>Not modelled.\<close> The probe and remove functions of the card drivers and their register access
  (\<^verbatim>\<open>adv_pci.c\<close>, \<^verbatim>\<open>kvaser_pci.c\<close>, \<^verbatim>\<open>ems_pci.c\<close>, \<^verbatim>\<open>peak_pci.c\<close>, \<^verbatim>\<open>plx_pci.c\<close>, \<^verbatim>\<open>f81601.c\<close>, \<^verbatim>\<open>vcan.c\<close>; of these the
  tables are in \<open>Pci_Select\<close> and the registers of the virtual channel in \<open>Sja1000\<close>): the loops that call
  them take them as arguments. The ExpressCard support of \<^verbatim>\<open>peak_pci.c\<close> is not compiled. The text that
  is printed (\<^verbatim>\<open>prints.c\<close>, \<^verbatim>\<open>driver-prints.c\<close>, \<^verbatim>\<open>logs.c\<close>): output only. The tools \<^verbatim>\<open>candump\<close>, \<^verbatim>\<open>canread\<close> and
  \<^verbatim>\<open>cansend\<close>: separate clients. Headers that only hold numbers or support for the compiler (\<^verbatim>\<open>pci_ids.h\<close>,
  \<^verbatim>\<open>pci_regs.h\<close>, \<^verbatim>\<open>dropreason-core.h\<close>, most of \<^verbatim>\<open>netdevice.h\<close>). After the start, \<^verbatim>\<open>main\<close> only waits for the
  shutdown pulse and calls the functions that release what the components hold. \<^verbatim>\<open>malloc\<close> is taken to
  succeed where its result is not tested, unless a theory says otherwise.
\<close>

end
